theory Spec2Isabelle
  imports Main "HOL-Library.Char_ord" "HOL-Library.List_Lexorder" "HOL-Library.Multiset"
begin

section \<open>Values that cross the plugin boundary\<close>

text \<open>
  Handles are the numbers drawn from the \<open>_handlePool\<close> counters of
  \<^verbatim>\<open>plugin/scm.ts\<close>. They are modelled as natural numbers: a counter is only
  ever incremented, and the point where a JavaScript number stops being exact
  (\<open>2^53\<close>) is out of reach of any run.
\<close>

type_synonym handle = nat

text \<open>
  A URI is its five components (\<open>UriComponents\<close>), which is also what crosses the
  wire. The functions of the library \<^verbatim>\<open>vscode-uri\<close> that the code calls on a URI
  (\<open>URI.file\<close>, \<open>toString\<close>, \<open>fsPath\<close>) are parameters of the model, see below.
\<close>

record uri =
  uriScheme :: string
  uriAuthority :: string
  uriPath :: string
  uriQuery :: string
  uriFragment :: string

text \<open>Command arguments are \<open>any[]\<close> in the source; the model keeps primitive values.\<close>

datatype jsval = JStr string | JNum int | JBool bool

text \<open>\<open>theia.Command\<close>: every field is optional in the plugin API.\<close>

record theia_command =
  command :: "string option"
  title :: "string option"
  commandTooltip :: "string option"
  arguments :: "jsval list option"

text \<open>\<open>iconPath\<close> is a string or a URI.\<close>

datatype icon_path = IconString string | IconUri uri

record themable =
  iconPath :: "icon_path option"

record decorations = themable +
  strikeThrough :: "bool option"
  faded :: "bool option"
  tooltip :: "string option"
  light :: "themable option"
  dark :: "themable option"

record resource_state =
  resourceUri :: uri
  resourceCommand :: "theia_command option"
  decorations :: "decorations option"
  contextValue :: "string option"

text \<open>
  Code of the repository that \<^verbatim>\<open>scm.ts\<close> imports and that is not part of the
  sources at hand, together with the library functions and language primitives whose
  result depends on the host: they are parameters of the model.
  \<^item> \<open>comparePaths\<close> (\<^verbatim>\<open>common/paths-util\<close>); its third argument is optional,
  \<^item> \<open>localeCompare\<close> (\<open>String.prototype.localeCompare\<close>),
  \<^item> \<open>jsLess\<close> (the operator \<open><\<close> on two command arguments),
  \<^item> \<open>toSafeCommand\<close> (\<^verbatim>\<open>CommandsConverter.toSafeCommand\<close> of the command registry),
  \<^item> \<open>arraySort\<close> (\<open>Array.prototype.sort\<close> with a comparator, on a copy of the
    array): the order that the engine returns is fixed by the language only for a
    consistent comparator, and \<open>compareResourceStates\<close> is not one,
  \<^item> \<open>uriFile\<close>, \<open>uriToString\<close>, \<open>uriFsPath\<close> (\<open>URI.file\<close>, \<open>toString\<close> and
    \<open>fsPath\<close> of \<^verbatim>\<open>vscode-uri\<close>).
\<close>

record 'c externals =
  comparePaths :: "string \<Rightarrow> string \<Rightarrow> bool option \<Rightarrow> int"
  localeCompare :: "string \<Rightarrow> string \<Rightarrow> int"
  jsLess :: "jsval \<Rightarrow> jsval \<Rightarrow> bool"
  toSafeCommand :: "theia_command \<Rightarrow> 'c"
  arraySort ::
    "(resource_state \<Rightarrow> resource_state \<Rightarrow> int) \<Rightarrow> resource_state list \<Rightarrow> resource_state list"
  uriFile :: "string \<Rightarrow> uri"
  uriToString :: "uri \<Rightarrow> string"
  uriFsPath :: "uri \<Rightarrow> string"

section \<open>The order on resource states\<close>

text \<open>Truthiness of an optional boolean and of an optional string.\<close>

definition truthy :: "bool option \<Rightarrow> bool" where
  "truthy b = (b = Some True)"

definition or_empty :: "string option \<Rightarrow> string" where
  "or_empty s = (case s of None \<Rightarrow> [] | Some t \<Rightarrow> t)"

definition icon_falsy :: "icon_path option \<Rightarrow> bool" where
  "icon_falsy p = (p = None \<or> p = Some (IconString []))"

definition icon_text :: "'c externals \<Rightarrow> icon_path option \<Rightarrow> string" where
  "icon_text ext p =
     (case p of Some (IconString s) \<Rightarrow> s | Some (IconUri u) \<Rightarrow> uriFsPath ext u | None \<Rightarrow> [])"

definition compareResourceThemableDecorations ::
  "'c externals \<Rightarrow> 'a themable_scheme \<Rightarrow> 'b themable_scheme \<Rightarrow> int" where
  "compareResourceThemableDecorations ext a b =
     (if icon_falsy (iconPath a) \<and> icon_falsy (iconPath b) then 0
      else if icon_falsy (iconPath a) then - 1
      else if icon_falsy (iconPath b) then 1
      else comparePaths ext (icon_text ext (iconPath a)) (icon_text ext (iconPath b)) None)"

text \<open>The part of \<open>compareResourceStatesDecorations\<close> after the icon of the
  decoration itself: the \<open>light\<close> and then the \<open>dark\<close> icon set.\<close>

definition compareDark :: "'c externals \<Rightarrow> decorations \<Rightarrow> decorations \<Rightarrow> int \<Rightarrow> int" where
  "compareDark ext a b result =
     (case (dark a, dark b) of
        (Some da, Some db) \<Rightarrow> compareResourceThemableDecorations ext da db
      | (Some da, None) \<Rightarrow> 1
      | (None, Some db) \<Rightarrow> - 1
      | (None, None) \<Rightarrow> result)"

definition compareLight :: "'c externals \<Rightarrow> decorations \<Rightarrow> decorations \<Rightarrow> int \<Rightarrow> int" where
  "compareLight ext a b result =
     (case (light a, light b) of
        (Some la, Some lb) \<Rightarrow>
          (let result' = compareResourceThemableDecorations ext la lb
           in if result' \<noteq> 0 then result' else compareDark ext a b result')
      | (Some la, None) \<Rightarrow> 1
      | (None, Some lb) \<Rightarrow> - 1
      | (None, None) \<Rightarrow> (if result \<noteq> 0 then result else compareDark ext a b result))"

definition compareResourceStatesDecorations ::
  "'c externals \<Rightarrow> decorations \<Rightarrow> decorations \<Rightarrow> int" where
  "compareResourceStatesDecorations ext a b =
     (if strikeThrough a \<noteq> strikeThrough b then (if truthy (strikeThrough a) then 1 else - 1)
      else if faded a \<noteq> faded b then (if truthy (faded a) then 1 else - 1)
      else if tooltip a \<noteq> tooltip b
        then localeCompare ext (or_empty (tooltip a)) (or_empty (tooltip b))
      else (let result = compareResourceThemableDecorations ext a b
            in if result \<noteq> 0 then result else compareLight ext a b result))"

text \<open>
  \<open>a.command! < b.command!\<close> on optional strings: with \<open>undefined\<close> on either side
  the comparison is false; two strings compare by their code units.
\<close>

definition js_str_less :: "string option \<Rightarrow> string option \<Rightarrow> bool" where
  "js_str_less a b = (case (a, b) of (Some s, Some t) \<Rightarrow> s < t | _ \<Rightarrow> False)"

fun compareArguments :: "'c externals \<Rightarrow> jsval list \<Rightarrow> jsval list \<Rightarrow> int" where
  "compareArguments ext (x # xs) (y # ys) =
     (if x = y then compareArguments ext xs ys else if jsLess ext x y then - 1 else 1)"
| "compareArguments ext _ _ = 0"

text \<open>
  \<open>a.arguments === b.arguments\<close> compares two array references. The model compares
  the contents: for two different arrays of equal primitive contents the source goes
  through the length test and the loop and returns \<open>0\<close> as well.
\<close>

definition compareCommands :: "'c externals \<Rightarrow> theia_command \<Rightarrow> theia_command \<Rightarrow> int" where
  "compareCommands ext a b =
     (if command a \<noteq> command b then (if js_str_less (command a) (command b) then - 1 else 1)
      else if title a \<noteq> title b then (if js_str_less (title a) (title b) then - 1 else 1)
      else if commandTooltip a \<noteq> commandTooltip b \<and> commandTooltip a \<noteq> None \<and> commandTooltip b \<noteq> None
        then (if js_str_less (commandTooltip a) (commandTooltip b) then - 1 else 1)
      else if commandTooltip a \<noteq> commandTooltip b \<and> commandTooltip a \<noteq> None then 1
      else if commandTooltip a \<noteq> commandTooltip b \<and> commandTooltip b \<noteq> None then - 1
      else (case (arguments a, arguments b) of
              (None, None) \<Rightarrow> 0
            | (None, Some ys) \<Rightarrow> - 1
            | (Some xs, None) \<Rightarrow> 1
            | (Some xs, Some ys) \<Rightarrow>
                (if xs = ys then 0
                 else if length xs \<noteq> length ys then int (length xs) - int (length ys)
                 else compareArguments ext xs ys)))"

definition compareStateDecorations :: "'c externals \<Rightarrow> resource_state \<Rightarrow> resource_state \<Rightarrow> int \<Rightarrow> int" where
  "compareStateDecorations ext a b result =
     (case (decorations a, decorations b) of
        (Some da, Some db) \<Rightarrow> compareResourceStatesDecorations ext da db
      | (Some da, None) \<Rightarrow> 1
      | (None, Some db) \<Rightarrow> - 1
      | (None, None) \<Rightarrow> result)"

definition compareResourceStates :: "'c externals \<Rightarrow> resource_state \<Rightarrow> resource_state \<Rightarrow> int" where
  "compareResourceStates ext a b =
     (let result = comparePaths ext (uriFsPath ext (resourceUri a)) (uriFsPath ext (resourceUri b)) (Some True)
      in if result \<noteq> 0 then result
         else (case (resourceCommand a, resourceCommand b) of
                 (Some ca, Some cb) \<Rightarrow>
                   (let result' = compareCommands ext ca cb
                    in if result' \<noteq> 0 then result' else compareStateDecorations ext a b result')
               | (Some ca, None) \<Rightarrow> 1
               | (None, Some cb) \<Rightarrow> - 1
               | (None, None) \<Rightarrow> compareStateDecorations ext a b result))"

section \<open>Arrays\<close>

text \<open>
  \<open>Array.prototype.splice(start, deleteCount, ...items)\<close> for indices that are natural
  numbers: a start beyond the end is the end, and the delete count is cut at the end.
  The result is the new array and the removed elements.
\<close>

definition array_splice :: "nat \<Rightarrow> nat \<Rightarrow> 'a list \<Rightarrow> 'a list \<Rightarrow> 'a list \<times> 'a list" where
  "array_splice s d items xs = (take s xs @ items @ drop (s + d) xs, take d (drop s xs))"

text \<open>
  \<open>[...array].sort(compare)\<close>. The order is the one that the engine returns, a
  parameter of the model; whatever the comparator, the result has the elements of the
  array, each as often as the array has it. A value of the parameter that returns other
  elements stands for no engine, and the model leaves the array as it is then.
\<close>

definition array_sort ::
  "'c externals \<Rightarrow> (resource_state \<Rightarrow> resource_state \<Rightarrow> int) \<Rightarrow> resource_state list \<Rightarrow> resource_state list" where
  "array_sort ext cmp xs = (let ys = arraySort ext cmp xs in if mset ys = mset xs then ys else xs)"

text \<open>\<open>Splice<T>\<close> of \<^verbatim>\<open>common/arrays\<close>: an object with the fields \<open>start\<close>,
  \<open>deleteCount\<close> and \<open>toInsert\<close>.\<close>

datatype 'a splice = Splice (start: nat) (deleteCount: nat) (toInsert: "'a list")

text \<open>
  Modelled from the spec: \<open>sortedDiff\<close> of \<^verbatim>\<open>common/arrays\<close> is not part of the
  sources at hand. The spec describes a classic sorted-array diff between the previous
  sorted snapshot and the new one, producing an ordered list of
  \<open>{start, deleteCount, inserted items}\<close> edits against the previous array. The model
  walks both arrays once: equal heads advance both, a smaller head of the previous array
  is deleted, a greater one means that the head of the new array is inserted in front of
  it; \<open>pushSplice\<close> drops an empty edit and joins an edit to the one before when it
  starts where that one ends.
\<close>

definition pushSplice :: "nat \<Rightarrow> nat \<Rightarrow> 'a list \<Rightarrow> 'a splice list \<Rightarrow> 'a splice list" where
  "pushSplice s d items result =
     (if d = 0 \<and> items = [] then result
      else if result \<noteq> [] \<and> start (last result) + deleteCount (last result) = s
        then butlast result @
             [Splice (start (last result)) (deleteCount (last result) + d) (toInsert (last result) @ items)]
      else result @ [Splice s d items])"

fun sortedDiff_loop ::
  "('a \<Rightarrow> 'a \<Rightarrow> int) \<Rightarrow> nat \<Rightarrow> 'a list \<Rightarrow> 'a list \<Rightarrow> 'a splice list \<Rightarrow> 'a splice list" where
  "sortedDiff_loop cmp beforeIdx [] after result = pushSplice beforeIdx 0 after result"
| "sortedDiff_loop cmp beforeIdx (b # before) [] result =
     pushSplice beforeIdx (length (b # before)) [] result"
| "sortedDiff_loop cmp beforeIdx (b # before) (a # after) result =
     (if cmp b a = 0 then sortedDiff_loop cmp (beforeIdx + 1) before after result
      else if cmp b a < 0
        then sortedDiff_loop cmp (beforeIdx + 1) before (a # after) (pushSplice beforeIdx 1 [] result)
      else sortedDiff_loop cmp beforeIdx (b # before) after (pushSplice beforeIdx 0 [a] result))"

definition sortedDiff :: "'a list \<Rightarrow> 'a list \<Rightarrow> ('a \<Rightarrow> 'a \<Rightarrow> int) \<Rightarrow> 'a splice list" where
  "sortedDiff before after cmp = sortedDiff_loop cmp 0 before after []"

section \<open>The provider side: a resource group\<close>

text \<open>
  The eight components of a raw resource: \<open>handle\<close>, \<open>sourceUri\<close>, \<open>icons\<close>,
  \<open>tooltip\<close>, \<open>strikeThrough\<close>, \<open>faded\<close>, \<open>contextValue\<close>, \<open>command\<close>.
\<close>

record 'c raw_resource =
  rawHandle :: handle
  rawSourceUri :: uri
  rawIcons :: "uri list"
  rawTooltip :: string
  rawStrikeThrough :: "bool option"
  rawFaded :: "bool option"
  rawContextValue :: string
  rawCommand :: "'c option"

text \<open>
  The values that carry resources over the wire have one of two shapes in the sources.
  \<^verbatim>\<open>scm.ts\<close> builds objects with named fields: the raw resource
  \<open>{handle, sourceUri, icons, tooltip, strikeThrough, faded, contextValue, command}\<close>,
  the splice \<open>{start, deleteCount, rawResources}\<close> and the splices of a group
  \<open>{handle, splices}\<close>. \<^verbatim>\<open>scm-main.ts\<close> reads arrays by position:
  \<open>[handle, sourceUri, icons, tooltip, strikeThrough, faded, contextValue, command]\<close>,
  \<open>[start, deleteCount, rawResources]\<close> and \<open>[groupHandle, groupSlices]\<close>. The two
  shapes have the same components in the same order; a value of the model says which of
  the two shapes it has.
\<close>

datatype 'c wire_resource =
    ResourceObject "'c raw_resource"
  | ResourceTuple "'c raw_resource"

datatype 'c wire_splice =
    SpliceObject nat nat "'c wire_resource list"
  | SpliceTuple nat nat "'c wire_resource list"

datatype 'c wire_splices =
    SplicesObject handle "'c wire_splice list"
  | SplicesTuple handle "'c wire_splice list"

text \<open>An array destructuring of a value that is not iterable throws a \<open>TypeError\<close>.\<close>

datatype js_error = TypeError

text \<open>
  \<open>ExtHostSourceControlResourceGroup\<close>. The last three fields are the listeners that
  the owning source control has on the two emitters of the group: the one registered by
  \<open>createResourceGroup\<close> and the two registered by \<open>eventuallyAddResourceGroups\<close>.
  \<open>_resourceStatesDisposablesMap\<close> is kept as its set of keys: the collections in it
  belong to the command converter.
\<close>

record group =
  groupHandle :: handle
  groupSourceControlHandle :: handle
  groupId :: string
  groupLabel :: string
  hideWhenEmpty :: "bool option"
  resourceHandlePool :: nat
  resourceStates :: "resource_state list"
  resourceStatesMap :: "handle \<rightharpoonup> resource_state"
  resourceStatesCommandsMap :: "handle \<rightharpoonup> theia_command"
  resourceStatesDisposablesMap :: "handle set"
  disposed :: bool
  handlesSnapshot :: "handle list"
  resourceSnapshot :: "resource_state list"
  createdListener :: bool
  updateListener :: bool
  disposeListener :: bool

definition getIconResource :: "'c externals \<Rightarrow> 'a themable_scheme option \<Rightarrow> uri option" where
  "getIconResource ext d =
     (case d of
        None \<Rightarrow> None
      | Some t \<Rightarrow> (case iconPath t of
                     Some (IconString s) \<Rightarrow> Some (uriFile ext s)
                   | Some (IconUri u) \<Rightarrow> Some u
                   | None \<Rightarrow> None))"

definition or_else :: "'a option \<Rightarrow> 'a option \<Rightarrow> 'a option" where
  "or_else a b = (case a of Some x \<Rightarrow> Some x | None \<Rightarrow> b)"

definition trusted_command :: "theia_command \<Rightarrow> bool" where
  "trusted_command c = (command c = Some ''theia.open'' \<or> command c = Some ''theia.diff'')"

text \<open>The callback of \<open>diff.toInsert.map\<close> in \<open>_takeResourceStateSnapshot\<close>: one
  inserted state gets the next handle of the group and is encoded.\<close>

definition encodeResource :: "'c externals \<Rightarrow> handle \<Rightarrow> resource_state \<Rightarrow> 'c raw_resource" where
  "encodeResource ext h r =
     (let iconUri = getIconResource ext (decorations r);
          lightIconUri = or_else (case decorations r of None \<Rightarrow> None | Some d \<Rightarrow> getIconResource ext (light d)) iconUri;
          darkIconUri = or_else (case decorations r of None \<Rightarrow> None | Some d \<Rightarrow> getIconResource ext (dark d)) iconUri
      in \<lparr>rawHandle = h,
          rawSourceUri = resourceUri r,
          rawIcons =
            (case lightIconUri of Some l \<Rightarrow> [l] | None \<Rightarrow> []) @
            (case darkIconUri of
               Some d \<Rightarrow> (if Some (uriToString ext d) \<noteq> map_option (uriToString ext) lightIconUri then [d] else [])
             | None \<Rightarrow> []),
          rawTooltip = (case decorations r of None \<Rightarrow> [] | Some d \<Rightarrow> or_empty (tooltip d)),
          rawStrikeThrough = (case decorations r of None \<Rightarrow> None | Some d \<Rightarrow> Some (truthy (strikeThrough d))),
          rawFaded = (case decorations r of None \<Rightarrow> None | Some d \<Rightarrow> Some (truthy (faded d))),
          rawContextValue = or_empty (contextValue r),
          rawCommand =
            (case resourceCommand r of
               Some c \<Rightarrow> (if trusted_command c then Some (toSafeCommand ext c) else None)
             | None \<Rightarrow> None)\<rparr>)"

definition insertResource ::
  "'c externals \<Rightarrow> resource_state \<Rightarrow> group \<Rightarrow> ('c raw_resource \<times> handle) \<times> group" where
  "insertResource ext r g =
     (let h = resourceHandlePool g;
          g1 = g\<lparr>resourceHandlePool := h + 1, resourceStatesMap := (resourceStatesMap g)(h \<mapsto> r)\<rparr>;
          g2 = (case resourceCommand r of
                  Some c \<Rightarrow>
                    (if trusted_command c
                     then g1\<lparr>resourceStatesDisposablesMap := insert h (resourceStatesDisposablesMap g1)\<rparr>
                     else g1\<lparr>resourceStatesCommandsMap := (resourceStatesCommandsMap g1)(h \<mapsto> c)\<rparr>)
                | None \<Rightarrow> g1)
      in ((encodeResource ext h r, h), g2))"

fun insertResources ::
  "'c externals \<Rightarrow> resource_state list \<Rightarrow> group \<Rightarrow> ('c raw_resource \<times> handle) list \<times> group" where
  "insertResources ext [] g = ([], g)"
| "insertResources ext (r # rs) g =
     (let (x, g1) = insertResource ext r g;
          (xs, g2) = insertResources ext rs g1
      in (x # xs, g2))"

text \<open>\<open>diffs.map\<close>: the splices whose inserted items carry their handles.\<close>

fun handleSplices ::
  "'c externals \<Rightarrow> resource_state splice list \<Rightarrow> group \<Rightarrow>
     ('c raw_resource \<times> handle) splice list \<times> group" where
  "handleSplices ext [] g = ([], g)"
| "handleSplices ext (diff # diffs) g =
     (let (ins, g1) = insertResources ext (toInsert diff) g;
          (rest, g2) = handleSplices ext diffs g1
      in (Splice (start diff) (deleteCount diff) ins # rest, g2))"

text \<open>The body of the loop over the deleted handles.\<close>

fun deleteHandles :: "handle list \<Rightarrow> group \<Rightarrow> group" where
  "deleteHandles [] g = g"
| "deleteHandles (h # hs) g =
     deleteHandles hs
       (g\<lparr>resourceStatesMap := (resourceStatesMap g)(h := None),
          resourceStatesCommandsMap := (resourceStatesCommandsMap g)(h := None),
          resourceStatesDisposablesMap := resourceStatesDisposablesMap g - {h}\<rparr>)"

text \<open>The loop over \<open>reverseSplices\<close>, which updates \<open>_handlesSnapshot\<close>.\<close>

fun spliceHandles :: "('c raw_resource \<times> handle) splice list \<Rightarrow> group \<Rightarrow> group" where
  "spliceHandles [] g = g"
| "spliceHandles (sp # sps) g =
     (let (handles', handlesToDelete) =
            array_splice (start sp) (deleteCount sp) (map snd (toInsert sp)) (handlesSnapshot g)
      in spliceHandles sps (deleteHandles handlesToDelete (g\<lparr>handlesSnapshot := handles'\<rparr>)))"

text \<open>The splices that \<open>_takeResourceStateSnapshot\<close> returns are objects with named
  fields, and so are the raw resources in them.\<close>

definition takeResourceStateSnapshot ::
  "'c externals \<Rightarrow> group \<Rightarrow> 'c wire_splice list \<times> group" where
  "takeResourceStateSnapshot ext g =
     (let snapshot = array_sort ext (compareResourceStates ext) (resourceStates g);
          diffs = sortedDiff (resourceSnapshot g) snapshot (compareResourceStates ext);
          (splices, g1) = handleSplices ext diffs g;
          rawResourceSplices =
            map (\<lambda>sp. SpliceObject (start sp) (deleteCount sp)
                        (map (\<lambda>i. ResourceObject (fst i)) (toInsert sp))) splices;
          g2 = spliceHandles (rev splices) g1
      in (rawResourceSplices, g2\<lparr>resourceSnapshot := snapshot\<rparr>))"

text \<open>\<open>$executeResourceCommand\<close> of the group: the command that the registry is asked
  to run, if the handle has one.\<close>

definition group_executeResourceCommand ::
  "group \<Rightarrow> handle \<Rightarrow> bool \<Rightarrow> (string option \<times> jsval list) option" where
  "group_executeResourceCommand g h preserveFocus =
     (case resourceStatesCommandsMap g h of
        None \<Rightarrow> None
      | Some c \<Rightarrow>
          Some (command c, (case arguments c of None \<Rightarrow> [] | Some as \<Rightarrow> as) @ [JBool preserveFocus]))"

section \<open>The mirror side: a resource group\<close>

record scm_decorations =
  icon :: "uri option"
  iconDark :: "uri option"
  decoTooltip :: string
  decoStrikeThrough :: "bool option"
  decoFaded :: "bool option"

text \<open>\<open>PluginScmResource\<close>; its reference to the group that holds it is left out.\<close>

record 'c scm_resource =
  resSourceControlHandle :: handle
  resGroupHandle :: handle
  resHandle :: handle
  resSourceUri :: uri
  resDecorations :: scm_decorations
  resContextValue :: "string option"
  resCommand :: "'c option"

text \<open>The callback of \<open>rawResources.map\<close> in \<open>$spliceGroupResourceStates\<close>, after
  its first line has read the eight components of the raw resource by position.\<close>

definition decodeResource :: "handle \<Rightarrow> handle \<Rightarrow> 'c raw_resource \<Rightarrow> 'c scm_resource" where
  "decodeResource sch gh raw =
     (let icon0 = (case rawIcons raw of [] \<Rightarrow> None | i # _ \<Rightarrow> Some i);
          iconDark0 = or_else (case rawIcons raw of _ # i # _ \<Rightarrow> Some i | _ \<Rightarrow> None) icon0
      in \<lparr>resSourceControlHandle = sch,
          resGroupHandle = gh,
          resHandle = rawHandle raw,
          resSourceUri = rawSourceUri raw,
          resDecorations =
            \<lparr>icon = icon0, iconDark = iconDark0, decoTooltip = rawTooltip raw,
             decoStrikeThrough = rawStrikeThrough raw, decoFaded = rawFaded raw\<rparr>,
          resContextValue = (if rawContextValue raw = [] then None else Some (rawContextValue raw)),
          resCommand = rawCommand raw\<rparr>)"

text \<open>
  A property of a features object: the key may be missing, or present with the value
  \<open>undefined\<close>, or present with a value. In an object spread
  \<open>{...old, ...patch}\<close> a key that is present in the patch wins, also with the value
  \<open>undefined\<close>; reading a property gives \<open>undefined\<close> in the first two cases.
\<close>

datatype 'a field = NoKey | KeyUndefined | KeyValue 'a

definition spread :: "'a field \<Rightarrow> 'a field \<Rightarrow> 'a field" where
  "spread old patch = (case patch of NoKey \<Rightarrow> old | _ \<Rightarrow> patch)"

definition prop_value :: "'a field \<Rightarrow> 'a option" where
  "prop_value p = (case p of KeyValue v \<Rightarrow> Some v | _ \<Rightarrow> None)"

text \<open>The property of an object literal \<open>{key: v}\<close>.\<close>

definition prop_of :: "'a option \<Rightarrow> 'a field" where
  "prop_of v = (case v of None \<Rightarrow> KeyUndefined | Some x \<Rightarrow> KeyValue x)"

text \<open>\<open>SourceControlGroupFeatures\<close>.\<close>

record group_features =
  featHideWhenEmpty :: "bool field"

text \<open>\<open>PluginScmResourceGroup\<close>.\<close>

record 'c mirror_group =
  mgSourceControlHandle :: handle
  mgHandle :: handle
  mgFeatures :: group_features
  mgLabel :: string
  mgId :: string
  resources :: "'c scm_resource list"

definition mirror_group_splice ::
  "nat \<Rightarrow> nat \<Rightarrow> 'c scm_resource list \<Rightarrow> 'c mirror_group \<Rightarrow> 'c mirror_group" where
  "mirror_group_splice s d items mg = mg\<lparr>resources := fst (array_splice s d items (resources mg))\<rparr>"

text \<open>What the mirror side does besides changing its state.\<close>

datatype mirror_effect =
    WarnGroupNotFound handle
  | DidSplice handle nat nat nat
  | DidChangeResources
  | DidChange
  | DidChangeCommitTemplate string
  | DidChangeStatusBarCommands
  | GroupDidChange handle

text \<open>
  \<open>rawResources.map(rawResource => ...)\<close>: the first line of the callback reads the
  raw resource by position, \<open>const [handle, sourceUri, ...] = rawResource\<close>, which
  throws on an object with named fields.
\<close>

fun decodeResources ::
  "handle \<Rightarrow> handle \<Rightarrow> 'c wire_resource list \<Rightarrow> js_error + 'c scm_resource list" where
  "decodeResources sch gh [] = Inr []"
| "decodeResources sch gh (ResourceObject raw # rest) = Inl TypeError"
| "decodeResources sch gh (ResourceTuple raw # rest) =
     (case decodeResources sch gh rest of
        Inl e \<Rightarrow> Inl e
      | Inr decoded \<Rightarrow> Inr (decodeResource sch gh raw # decoded))"

text \<open>
  The inner loop of \<open>$spliceGroupResourceStates\<close> for one group, over the slices as
  they are after \<open>groupSlices.reverse()\<close>:
  \<open>for (const [start, deleteCount, rawResources] of groupSlices)\<close>. A slice that is an
  object with named fields makes the destructuring throw; what the loop has done to the
  group before stays done. The result is the group, the events fired and the error
  thrown, if any.
\<close>

fun applyGroupSlices ::
  "handle \<Rightarrow> handle \<Rightarrow> 'c wire_splice list \<Rightarrow> 'c mirror_group \<Rightarrow>
   'c mirror_group \<times> mirror_effect list \<times> js_error option" where
  "applyGroupSlices sch gh [] mg = (mg, [], None)"
| "applyGroupSlices sch gh (SpliceObject s d rawResources # sps) mg = (mg, [], Some TypeError)"
| "applyGroupSlices sch gh (SpliceTuple s d rawResources # sps) mg =
     (case decodeResources sch gh rawResources of
        Inl e \<Rightarrow> (mg, [], Some e)
      | Inr decoded \<Rightarrow>
          (let (mg', es, err) = applyGroupSlices sch gh sps (mirror_group_splice s d decoded mg)
           in (mg', DidSplice gh s d (length decoded) # es, err)))"

definition spliceGroup ::
  "handle \<Rightarrow> handle \<Rightarrow> 'c wire_splice list \<Rightarrow> 'c mirror_group \<Rightarrow>
   'c mirror_group \<times> mirror_effect list \<times> js_error option" where
  "spliceGroup sch gh groupSlices mg = applyGroupSlices sch gh (rev groupSlices) mg"

text \<open>
  The reading of a batch that the spec calls left-to-right sequential: the slices in
  the order received, each start index against the list as the slices before it left it.
\<close>

definition spliceGroup_sequential ::
  "handle \<Rightarrow> handle \<Rightarrow> 'c wire_splice list \<Rightarrow> 'c mirror_group \<Rightarrow>
   'c mirror_group \<times> mirror_effect list \<times> js_error option" where
  "spliceGroup_sequential sch gh groupSlices mg = applyGroupSlices sch gh groupSlices mg"

section \<open>The wire operations\<close>

text \<open>\<open>SourceControlProviderFeatures\<close>.\<close>

record 'c provider_features =
  hasQuickDiffProvider :: "bool field"
  featCount :: "int field"
  featCommitTemplate :: "string field"
  featAcceptInputCommand :: "'c field"
  featStatusBarCommands :: "'c list field"

text \<open>\<open>ScmMain\<close>: the calls that the provider side makes on its proxy and that the
  mirror side handles.\<close>

datatype 'c main_call =
    RegisterSourceControl handle string string "uri option"
  | UpdateSourceControl handle "'c provider_features"
  | UnregisterSourceControl handle
  | RegisterGroups handle "(handle \<times> string \<times> string \<times> group_features) list"
      "'c wire_splices list"
  | UpdateGroup handle handle group_features
  | UpdateGroupLabel handle handle string
  | SpliceResourceStates handle "'c wire_splices list"
  | UnregisterGroup handle handle
  | SetInputBoxValue handle string
  | SetInputBoxPlaceholder handle string
  | SetInputBoxVisibility handle bool

text \<open>\<open>ScmExt\<close>: the calls that the mirror side makes and the provider side handles.\<close>

datatype ext_call =
    ProvideOriginalResource handle string
  | OnInputBoxValueChange handle string
  | ExecuteResourceCommand handle handle handle bool
  | ValidateInput handle string int
  | SetSelectedSourceControl "handle option"

datatype ext_result = Undefined | Validation string int

text \<open>A promise is resolved with a value, rejected with an error, or never settled.\<close>

datatype 'a promise = Resolved 'a | Rejected string | Pending

section \<open>The provider side: source controls\<close>

record validation =
  message :: string
  severity :: int

text \<open>\<open>ScmInputBoxImpl\<close>. The validation function of the plugin returns a result or
  nothing, or throws (\<open>Inl\<close>).\<close>

record input_box =
  boxValue :: string
  boxPlaceholder :: string
  validateInput :: "(string \<Rightarrow> int \<Rightarrow> string + validation option) option"

text \<open>
  \<open>ExtHostSourceControl\<close>. \<open>_groups\<close>, \<open>createdResourceGroups\<close> and
  \<open>updatedResourceGroups\<close> hold group objects; the model keeps the objects in
  \<open>groupObjects\<close> below, named by their handle, and the three collections as the
  lists of these names in insertion order. \<open>quickDiffProvider\<close> is present when the
  provider and its \<open>provideOriginalResource\<close> are.
\<close>

record source_control =
  scHandle :: handle
  scId :: string
  scLabel :: string
  scRootUri :: "uri option"
  inputBox :: input_box
  quickDiffProvider :: "(uri \<Rightarrow> uri option) option"
  selected :: bool
  groups :: "handle list"
  createdResourceGroups :: "handle list"
  updatedResourceGroups :: "handle list"

text \<open>
  \<open>ScmExtImpl\<close>, together with the static counters of the three classes and the
  group objects. A source control object is named by its key in \<open>_sourceControls\<close>,
  from which the source never deletes; \<open>groupOwner\<close> names the source control whose
  listeners are on a group.
\<close>

record scm_ext =
  extHandlePool :: nat
  sourceControlHandlePool :: nat
  groupHandlePool :: nat
  sourceControls :: "handle \<rightharpoonup> source_control"
  selectedSourceControlHandle :: "handle option"
  groupObjects :: "handle \<rightharpoonup> group"
  groupOwner :: "handle \<rightharpoonup> handle"

text \<open>
  What an operation of the provider side does besides changing its state: a call on the
  proxy, a fired event, a command handed to the registry. A selection event carries what
  a listener can read at that moment: which source controls are flagged selected.
\<close>

datatype 'c provider_effect =
    Send "'c main_call"
  | SelectionFired handle bool "handle \<Rightarrow> bool"
  | InputFired handle string
  | CommandExecuted "string option" "jsval list"

definition initial_ext :: scm_ext where
  "initial_ext =
     \<lparr>extHandlePool = 0, sourceControlHandlePool = 0, groupHandlePool = 0,
      sourceControls = Map.empty, selectedSourceControlHandle = None,
      groupObjects = Map.empty, groupOwner = Map.empty\<rparr>"

definition createSourceControl ::
  "string \<Rightarrow> string \<Rightarrow> uri option \<Rightarrow> scm_ext \<Rightarrow> handle \<times> scm_ext \<times> 'c provider_effect list" where
  "createSourceControl ident label rootUri w =
     (let h = extHandlePool w;
          sc = \<lparr>scHandle = sourceControlHandlePool w, scId = ident, scLabel = label,
                scRootUri = rootUri,
                inputBox = \<lparr>boxValue = [], boxPlaceholder = [], validateInput = None\<rparr>,
                quickDiffProvider = None, selected = False, groups = [],
                createdResourceGroups = [], updatedResourceGroups = []\<rparr>
      in (h,
          w\<lparr>extHandlePool := h + 1,
            sourceControlHandlePool := sourceControlHandlePool w + 1,
            sourceControls := (sourceControls w)(h \<mapsto> sc)\<rparr>,
          [Send (RegisterSourceControl (scHandle sc) ident label rootUri)]))"

definition new_group :: "handle \<Rightarrow> handle \<Rightarrow> string \<Rightarrow> string \<Rightarrow> group" where
  "new_group h sch ident label =
     \<lparr>groupHandle = h, groupSourceControlHandle = sch, groupId = ident, groupLabel = label,
      hideWhenEmpty = None, resourceHandlePool = 0, resourceStates = [],
      resourceStatesMap = Map.empty, resourceStatesCommandsMap = Map.empty,
      resourceStatesDisposablesMap = {}, disposed = False,
      handlesSnapshot = [], resourceSnapshot = [],
      createdListener = False, updateListener = False, disposeListener = False\<rparr>"

text \<open>The getter \<open>features\<close>: \<open>{hideWhenEmpty: this.hideWhenEmpty}\<close>.\<close>

definition group_features_of :: "group \<Rightarrow> group_features" where
  "group_features_of g = \<lparr>featHideWhenEmpty = prop_of (hideWhenEmpty g)\<rparr>"

text \<open>\<open>Set.add\<close> and \<open>Map.set\<close> on the keys: a key that is present keeps its place.\<close>

definition set_add :: "'a \<Rightarrow> 'a list \<Rightarrow> 'a list" where
  "set_add x xs = (if x \<in> set xs then xs else xs @ [x])"

text \<open>The body of the loop of \<open>eventuallyAddResourceGroups\<close>.\<close>

fun addResourceGroups_loop ::
  "'c externals \<Rightarrow> handle \<Rightarrow> handle list \<Rightarrow> scm_ext \<Rightarrow>
   (handle \<times> string \<times> string \<times> group_features) list \<Rightarrow> 'c wire_splices list \<Rightarrow>
   scm_ext \<times> (handle \<times> string \<times> string \<times> group_features) list \<times> 'c wire_splices list" where
  "addResourceGroups_loop ext k [] w gs splices = (w, gs, splices)"
| "addResourceGroups_loop ext k (gh # ghs) w gs splices =
     (case (groupObjects w gh, sourceControls w k) of
        (Some g, Some sc) \<Rightarrow>
          (let g1 = g\<lparr>createdListener := False, updateListener := True, disposeListener := True\<rparr>;
               gs' = gs @ [(groupHandle g1, groupId g1, groupLabel g1, group_features_of g1)];
               (snapshot, g2) = takeResourceStateSnapshot ext g1;
               splices' = (if snapshot \<noteq> [] then splices @ [SplicesObject (groupHandle g2) snapshot]
                           else splices);
               w' = w\<lparr>groupObjects := (groupObjects w)(gh \<mapsto> g2),
                      sourceControls :=
                        (sourceControls w)(k \<mapsto> sc\<lparr>groups := set_add (groupHandle g2) (groups sc)\<rparr>)\<rparr>
           in addResourceGroups_loop ext k ghs w' gs' splices')
      | _ \<Rightarrow> addResourceGroups_loop ext k ghs w gs splices)"

text \<open>
  The methods of a source control take the name \<open>k\<close> of the object. A name without
  an object does not occur (the method is called on the object); the model then leaves
  the state as it is.
\<close>

definition eventuallyAddResourceGroups ::
  "'c externals \<Rightarrow> handle \<Rightarrow> scm_ext \<Rightarrow> scm_ext \<times> 'c provider_effect list" where
  "eventuallyAddResourceGroups ext k w =
     (case sourceControls w k of
        None \<Rightarrow> (w, [])
      | Some sc \<Rightarrow>
          (let (w1, gs, splices) = addResourceGroups_loop ext k (createdResourceGroups sc) w [] []
           in (case sourceControls w1 k of
                 None \<Rightarrow> (w1, [])
               | Some sc1 \<Rightarrow>
                   (w1\<lparr>sourceControls := (sourceControls w1)(k \<mapsto> sc1\<lparr>createdResourceGroups := []\<rparr>)\<rparr>,
                    [Send (RegisterGroups (scHandle sc1) gs splices)]))))"

definition createResourceGroup ::
  "'c externals \<Rightarrow> handle \<Rightarrow> string \<Rightarrow> string \<Rightarrow> scm_ext \<Rightarrow>
   handle \<times> scm_ext \<times> 'c provider_effect list" where
  "createResourceGroup ext k ident label w =
     (case sourceControls w k of
        None \<Rightarrow> (groupHandlePool w, w, [])
      | Some sc \<Rightarrow>
          (let gh = groupHandlePool w;
               g = (new_group gh (scHandle sc) ident label)\<lparr>createdListener := True\<rparr>;
               w1 = w\<lparr>groupHandlePool := gh + 1,
                      groupObjects := (groupObjects w)(gh \<mapsto> g),
                      groupOwner := (groupOwner w)(gh \<mapsto> k),
                      sourceControls :=
                        (sourceControls w)(k \<mapsto> sc\<lparr>createdResourceGroups := set_add gh (createdResourceGroups sc)\<rparr>)\<rparr>;
               (w2, effects) = eventuallyAddResourceGroups ext k w1
           in (gh, w2, effects)))"

text \<open>The callback of \<open>updatedResourceGroups.forEach\<close>.\<close>

fun updateResourceStates_loop ::
  "'c externals \<Rightarrow> handle list \<Rightarrow> scm_ext \<Rightarrow> 'c wire_splices list \<Rightarrow>
   scm_ext \<times> 'c wire_splices list" where
  "updateResourceStates_loop ext [] w splices = (w, splices)"
| "updateResourceStates_loop ext (gh # ghs) w splices =
     (case groupObjects w gh of
        None \<Rightarrow> updateResourceStates_loop ext ghs w splices
      | Some g \<Rightarrow>
          (let (snapshot, g') = takeResourceStateSnapshot ext g
           in updateResourceStates_loop ext ghs
                (w\<lparr>groupObjects := (groupObjects w)(gh \<mapsto> g')\<rparr>)
                (if snapshot = [] then splices else splices @ [SplicesObject (groupHandle g') snapshot])))"

definition eventuallyUpdateResourceStates ::
  "'c externals \<Rightarrow> handle \<Rightarrow> scm_ext \<Rightarrow> scm_ext \<times> 'c provider_effect list" where
  "eventuallyUpdateResourceStates ext k w =
     (case sourceControls w k of
        None \<Rightarrow> (w, [])
      | Some sc \<Rightarrow>
          (let (w1, splices) = updateResourceStates_loop ext (updatedResourceGroups sc) w []
           in (w1\<lparr>sourceControls := (sourceControls w1)(k \<mapsto> sc\<lparr>updatedResourceGroups := []\<rparr>)\<rparr>,
               (if splices \<noteq> [] then [Send (SpliceResourceStates (scHandle sc) splices)] else []))))"

text \<open>The setter of \<open>resourceStates\<close> on a group object: the listener registered by
  \<open>eventuallyAddResourceGroups\<close> marks the group and runs the update.\<close>

definition setResourceStates ::
  "'c externals \<Rightarrow> handle \<Rightarrow> resource_state list \<Rightarrow> scm_ext \<Rightarrow> scm_ext \<times> 'c provider_effect list" where
  "setResourceStates ext gh rs w =
     (case groupObjects w gh of
        None \<Rightarrow> (w, [])
      | Some g \<Rightarrow>
          (let w1 = w\<lparr>groupObjects := (groupObjects w)(gh \<mapsto> g\<lparr>resourceStates := rs\<rparr>)\<rparr>
           in if updateListener g
              then (case groupOwner w gh of
                      None \<Rightarrow> (w1, [])
                    | Some k \<Rightarrow>
                        (case sourceControls w1 k of
                           None \<Rightarrow> (w1, [])
                         | Some sc \<Rightarrow>
                             eventuallyUpdateResourceStates ext k
                               (w1\<lparr>sourceControls :=
                                     (sourceControls w1)(k \<mapsto> sc\<lparr>updatedResourceGroups := set_add gh (updatedResourceGroups sc)\<rparr>)\<rparr>)))
              else (w1, [])))"

text \<open>\<open>dispose\<close> of a group: the listeners on \<open>onDidDispose\<close> run in the order of
  their registration.\<close>

definition disposeGroup :: "handle \<Rightarrow> scm_ext \<Rightarrow> scm_ext \<times> 'c provider_effect list" where
  "disposeGroup gh w =
     (case groupObjects w gh of
        None \<Rightarrow> (w, [])
      | Some g \<Rightarrow>
          (let w0 = w\<lparr>groupObjects := (groupObjects w)(gh \<mapsto> g\<lparr>disposed := True\<rparr>)\<rparr>
           in (case groupOwner w gh of
                 None \<Rightarrow> (w0, [])
               | Some k \<Rightarrow>
                   (case sourceControls w0 k of
                      None \<Rightarrow> (w0, [])
                    | Some sc \<Rightarrow>
                        (let sc1 = (if createdListener g
                                    then sc\<lparr>createdResourceGroups := removeAll gh (createdResourceGroups sc)\<rparr>
                                    else sc)
                         in if disposeListener g
                            then (w0\<lparr>groupObjects := (groupObjects w0)(gh \<mapsto> g\<lparr>disposed := True, updateListener := False\<rparr>),
                                     sourceControls :=
                                       (sourceControls w0)(k \<mapsto> sc1\<lparr>updatedResourceGroups := removeAll gh (updatedResourceGroups sc1),
                                                                    groups := removeAll (groupHandle g) (groups sc1)\<rparr>)\<rparr>,
                                  [Send (UnregisterGroup (scHandle sc) (groupHandle g))])
                            else (w0\<lparr>sourceControls := (sourceControls w0)(k \<mapsto> sc1)\<rparr>, []))))))"

text \<open>\<open>dispose\<close> of a source control: \<open>_groups.forEach(group => group.dispose())\<close>, over
  the groups registered when it starts, then the call that unregisters the control.\<close>

fun disposeGroups :: "handle list \<Rightarrow> scm_ext \<Rightarrow> scm_ext \<times> 'c provider_effect list" where
  "disposeGroups [] w = (w, [])"
| "disposeGroups (gh # ghs) w =
     (let (w1, e1) = disposeGroup gh w;
          (w2, e2) = disposeGroups ghs w1
      in (w2, e1 @ e2))"

definition disposeSourceControl :: "handle \<Rightarrow> scm_ext \<Rightarrow> scm_ext \<times> 'c provider_effect list" where
  "disposeSourceControl k w =
     (case sourceControls w k of
        None \<Rightarrow> (w, [])
      | Some sc \<Rightarrow>
          (let (w1, es) = disposeGroups (groups sc) w
           in (w1, es @ [Send (UnregisterSourceControl (scHandle sc))])))"

text \<open>\<open>getResourceGroup\<close>: a lookup in \<open>_groups\<close>.\<close>

definition getResourceGroup :: "scm_ext \<Rightarrow> source_control \<Rightarrow> handle \<Rightarrow> group option" where
  "getResourceGroup w sc gh = (if gh \<in> set (groups sc) then groupObjects w gh else None)"

definition selected_view :: "scm_ext \<Rightarrow> handle \<Rightarrow> bool" where
  "selected_view w h = (case sourceControls w h of Some sc \<Rightarrow> selected sc | None \<Rightarrow> False)"

text \<open>\<open>this._sourceControls.get(h)?.setSelectionState(b)\<close>.\<close>

definition setSelectionState ::
  "handle \<Rightarrow> bool \<Rightarrow> scm_ext \<Rightarrow> scm_ext \<times> 'c provider_effect list" where
  "setSelectionState h b w =
     (case sourceControls w h of
        None \<Rightarrow> (w, [])
      | Some sc \<Rightarrow>
          (let w' = w\<lparr>sourceControls := (sourceControls w)(h \<mapsto> sc\<lparr>selected := b\<rparr>)\<rparr>
           in (w', [SelectionFired h b (selected_view w')])))"

definition ext_setSelectedSourceControl ::
  "handle option \<Rightarrow> scm_ext \<Rightarrow> ext_result promise \<times> scm_ext \<times> 'c provider_effect list" where
  "ext_setSelectedSourceControl sel w =
     (let (w1, e1) = (case sel of Some h \<Rightarrow> setSelectionState h True w | None \<Rightarrow> (w, []));
          (w2, e2) = (case selectedSourceControlHandle w1 of
                        Some p \<Rightarrow> setSelectionState p False w1
                      | None \<Rightarrow> (w1, []))
      in (Resolved Undefined, w2\<lparr>selectedSourceControlHandle := sel\<rparr>, e1 @ e2))"

definition ext_provideOriginalResource ::
  "handle \<Rightarrow> string \<Rightarrow> scm_ext \<Rightarrow> ext_result promise \<times> scm_ext \<times> 'c provider_effect list" where
  "ext_provideOriginalResource h uriComponents w =
     (case sourceControls w h of
        None \<Rightarrow> (Resolved Undefined, w, [])
      | Some sc \<Rightarrow>
          (case quickDiffProvider sc of
             None \<Rightarrow> (Resolved Undefined, w, [])
           | Some f \<Rightarrow> (Pending, w, [])))"

definition ext_onInputBoxValueChange ::
  "handle \<Rightarrow> string \<Rightarrow> scm_ext \<Rightarrow> ext_result promise \<times> scm_ext \<times> 'c provider_effect list" where
  "ext_onInputBoxValueChange h v w =
     (case sourceControls w h of
        None \<Rightarrow> (Resolved Undefined, w, [])
      | Some sc \<Rightarrow>
          (Resolved Undefined,
           w\<lparr>sourceControls := (sourceControls w)(h \<mapsto> sc\<lparr>inputBox := (inputBox sc)\<lparr>boxValue := v\<rparr>\<rparr>)\<rparr>,
           [InputFired h v]))"

definition ext_executeResourceCommand ::
  "handle \<Rightarrow> handle \<Rightarrow> handle \<Rightarrow> bool \<Rightarrow> scm_ext \<Rightarrow>
   ext_result promise \<times> scm_ext \<times> 'c provider_effect list" where
  "ext_executeResourceCommand sch gh h preserveFocus w =
     (case sourceControls w sch of
        None \<Rightarrow> (Resolved Undefined, w, [])
      | Some sc \<Rightarrow>
          (case getResourceGroup w sc gh of
             None \<Rightarrow> (Resolved Undefined, w, [])
           | Some g \<Rightarrow>
               (case group_executeResourceCommand g h preserveFocus of
                  None \<Rightarrow> (Resolved Undefined, w, [])
                | Some (c, args) \<Rightarrow> (Pending, w, [CommandExecuted c args]))))"

definition ext_validateInput ::
  "handle \<Rightarrow> string \<Rightarrow> int \<Rightarrow> scm_ext \<Rightarrow> ext_result promise \<times> scm_ext \<times> 'c provider_effect list" where
  "ext_validateInput h v cursorPosition w =
     (case sourceControls w h of
        None \<Rightarrow> (Resolved Undefined, w, [])
      | Some sc \<Rightarrow>
          (case validateInput (inputBox sc) of
             None \<Rightarrow> (Resolved Undefined, w, [])
           | Some f \<Rightarrow>
               (case f v cursorPosition of
                  Inl err \<Rightarrow> (Rejected err, w, [])
                | Inr None \<Rightarrow> (Resolved Undefined, w, [])
                | Inr (Some r) \<Rightarrow> (Resolved (Validation (message r) (severity r)), w, []))))"

definition ext_handle ::
  "ext_call \<Rightarrow> scm_ext \<Rightarrow> ext_result promise \<times> scm_ext \<times> 'c provider_effect list" where
  "ext_handle call w =
     (case call of
        ProvideOriginalResource h u \<Rightarrow> ext_provideOriginalResource h u w
      | OnInputBoxValueChange h v \<Rightarrow> ext_onInputBoxValueChange h v w
      | ExecuteResourceCommand sch gh h pf \<Rightarrow> ext_executeResourceCommand sch gh h pf w
      | ValidateInput h v c \<Rightarrow> ext_validateInput h v c w
      | SetSelectedSourceControl sel \<Rightarrow> ext_setSelectedSourceControl sel w)"



text \<open>The operations of the plugin API that create and dispose, as one step function.\<close>

datatype api_op =
    CreateSourceControl string string "uri option"
  | CreateResourceGroup handle string string
  | SetResourceStates handle "resource_state list"
  | DisposeGroup handle
  | DisposeSourceControl handle

definition api_step :: "'c externals \<Rightarrow> api_op \<Rightarrow> scm_ext \<Rightarrow> scm_ext \<times> 'c provider_effect list" where
  "api_step ext op w =
     (case op of
        CreateSourceControl ident label rootUri \<Rightarrow> snd (createSourceControl ident label rootUri w)
      | CreateResourceGroup k ident label \<Rightarrow> snd (createResourceGroup ext k ident label w)
      | SetResourceStates gh rs \<Rightarrow> setResourceStates ext gh rs w
      | DisposeGroup gh \<Rightarrow> disposeGroup gh w
      | DisposeSourceControl k \<Rightarrow> disposeSourceControl k w)"

fun api_run :: "'c externals \<Rightarrow> api_op list \<Rightarrow> scm_ext \<Rightarrow> scm_ext \<times> 'c provider_effect list" where
  "api_run ext [] w = (w, [])"
| "api_run ext (op # ops) w =
     (let (w1, e1) = api_step ext op w;
          (w2, e2) = api_run ext ops w1
      in (w2, e1 @ e2))"

section \<open>The mirror side: providers and repositories\<close>

text \<open>
  \<open>PluginScmProvider\<close>. \<open>groups\<close> and \<open>_groupsByHandle\<close> refer to the same group
  objects: the objects are in \<open>groupStore\<close> under a reference, \<open>nextGroupRef\<close> is the
  next free reference.
\<close>

record 'c scm_provider =
  spHandle :: handle
  spContextValue :: string
  spLabel :: string
  spRootUri :: "uri option"
  spFeatures :: "'c provider_features"
  spGroups :: "nat list"
  groupsByHandle :: "handle \<rightharpoonup> nat"
  groupStore :: "nat \<rightharpoonup> 'c mirror_group"
  nextGroupRef :: nat

text \<open>\<open>{...this.features, ...features}\<close>.\<close>

definition merge_features :: "'c provider_features \<Rightarrow> 'c provider_features \<Rightarrow> 'c provider_features" where
  "merge_features old patch =
     \<lparr>hasQuickDiffProvider = spread (hasQuickDiffProvider old) (hasQuickDiffProvider patch),
      featCount = spread (featCount old) (featCount patch),
      featCommitTemplate = spread (featCommitTemplate old) (featCommitTemplate patch),
      featAcceptInputCommand = spread (featAcceptInputCommand old) (featAcceptInputCommand patch),
      featStatusBarCommands = spread (featStatusBarCommands old) (featStatusBarCommands patch)\<rparr>"

definition provider_updateSourceControl ::
  "'c provider_features \<Rightarrow> 'c scm_provider \<Rightarrow> 'c scm_provider \<times> mirror_effect list" where
  "provider_updateSourceControl patch p =
     (let p' = p\<lparr>spFeatures := merge_features (spFeatures p) patch\<rparr>
      in (p',
          [DidChange] @
          (case prop_value (featCommitTemplate patch) of
             Some t \<Rightarrow> [DidChangeCommitTemplate (or_empty (prop_value (featCommitTemplate (spFeatures p'))))]
           | None \<Rightarrow> []) @
          (case prop_value (featStatusBarCommands patch) of
             Some cs \<Rightarrow> [DidChangeStatusBarCommands]
           | None \<Rightarrow> [])))"

fun provider_registerGroups ::
  "(handle \<times> string \<times> string \<times> group_features) list \<Rightarrow> 'c scm_provider \<Rightarrow> 'c scm_provider" where
  "provider_registerGroups [] p = p"
| "provider_registerGroups ((h, ident, label, features) # rest) p =
     provider_registerGroups rest
       (p\<lparr>groupStore := (groupStore p)(nextGroupRef p \<mapsto>
              \<lparr>mgSourceControlHandle = spHandle p, mgHandle = h, mgFeatures = features,
               mgLabel = label, mgId = ident, resources = []\<rparr>),
          groupsByHandle := (groupsByHandle p)(h \<mapsto> nextGroupRef p),
          spGroups := spGroups p @ [nextGroupRef p],
          nextGroupRef := nextGroupRef p + 1\<rparr>)"

text \<open>The group object that a handle stands for.\<close>

definition lookup_group :: "'c scm_provider \<Rightarrow> handle \<Rightarrow> (nat \<times> 'c mirror_group) option" where
  "lookup_group p h =
     (case groupsByHandle p h of
        None \<Rightarrow> None
      | Some r \<Rightarrow> (case groupStore p r of None \<Rightarrow> None | Some mg \<Rightarrow> Some (r, mg)))"

definition provider_updateGroup ::
  "handle \<Rightarrow> group_features \<Rightarrow> 'c scm_provider \<Rightarrow> 'c scm_provider \<times> mirror_effect list" where
  "provider_updateGroup h features p =
     (case lookup_group p h of
        None \<Rightarrow> (p, [])
      | Some (r, mg) \<Rightarrow>
          (p\<lparr>groupStore := (groupStore p)(r \<mapsto>
                mg\<lparr>mgFeatures := \<lparr>featHideWhenEmpty =
                       spread (featHideWhenEmpty (mgFeatures mg)) (featHideWhenEmpty features)\<rparr>\<rparr>)\<rparr>,
           [GroupDidChange h]))"

definition provider_updateGroupLabel ::
  "handle \<Rightarrow> string \<Rightarrow> 'c scm_provider \<Rightarrow> 'c scm_provider \<times> mirror_effect list" where
  "provider_updateGroupLabel h label p =
     (case lookup_group p h of
        None \<Rightarrow> (p, [])
      | Some (r, mg) \<Rightarrow>
          (p\<lparr>groupStore := (groupStore p)(r \<mapsto> mg\<lparr>mgLabel := label\<rparr>)\<rparr>, [GroupDidChange h]))"

text \<open>
  The outer loop of \<open>$spliceGroupResourceStates\<close>:
  \<open>for (const [groupHandle, groupSlices] of splices)\<close>. An element that is an object
  with named fields makes the destructuring throw, before the group is looked up.
\<close>

fun spliceGroups ::
  "'c wire_splices list \<Rightarrow> 'c scm_provider \<Rightarrow>
   'c scm_provider \<times> mirror_effect list \<times> js_error option" where
  "spliceGroups [] p = (p, [], None)"
| "spliceGroups (SplicesObject gh groupSlices # rest) p = (p, [], Some TypeError)"
| "spliceGroups (SplicesTuple gh groupSlices # rest) p =
     (case lookup_group p gh of
        None \<Rightarrow> (let (p', es, err) = spliceGroups rest p in (p', WarnGroupNotFound gh # es, err))
      | Some (r, mg) \<Rightarrow>
          (let (mg', es1, err1) = spliceGroup (spHandle p) gh groupSlices mg;
               p1 = p\<lparr>groupStore := (groupStore p)(r \<mapsto> mg')\<rparr>
           in (case err1 of
                 Some e \<Rightarrow> (p1, es1, Some e)
               | None \<Rightarrow> (let (p', es, err) = spliceGroups rest p1 in (p', es1 @ es, err)))))"

text \<open>\<open>$spliceGroupResourceStates\<close>: the loop, and \<open>_onDidChangeResources.fire()\<close>
  when the loop has not thrown.\<close>

definition provider_spliceGroupResourceStates ::
  "'c wire_splices list \<Rightarrow> 'c scm_provider \<Rightarrow>
   'c scm_provider \<times> mirror_effect list \<times> js_error option" where
  "provider_spliceGroupResourceStates splices p =
     (let (p', es, err) = spliceGroups splices p
      in (p', es @ (case err of None \<Rightarrow> [DidChangeResources] | Some e \<Rightarrow> []), err))"

text \<open>\<open>this.groups.splice(this.groups.indexOf(group), 1)\<close>: an index of \<open>-1\<close> removes
  the last element.\<close>

fun remove_first :: "'a \<Rightarrow> 'a list \<Rightarrow> 'a list" where
  "remove_first x [] = []"
| "remove_first x (y # ys) = (if x = y then ys else y # remove_first x ys)"

definition remove_indexOf :: "'a \<Rightarrow> 'a list \<Rightarrow> 'a list" where
  "remove_indexOf x xs = (if x \<in> set xs then remove_first x xs else butlast xs)"

definition provider_unregisterGroup :: "handle \<Rightarrow> 'c scm_provider \<Rightarrow> 'c scm_provider" where
  "provider_unregisterGroup h p =
     (case lookup_group p h of
        None \<Rightarrow> p
      | Some (r, mg) \<Rightarrow>
          p\<lparr>groupsByHandle := (groupsByHandle p)(h := None),
            spGroups := remove_indexOf r (spGroups p)\<rparr>)"

text \<open>The input of a repository; the repository itself belongs to the SCM service.\<close>

record scm_input =
  inputValue :: string
  inputPlaceholder :: string

record 'c repository =
  provider :: "'c scm_provider"
  input :: scm_input

text \<open>\<open>ScmMainImpl\<close>; \<open>_repositoryDisposables\<close> has the keys of \<open>_repositories\<close>.\<close>

record 'c scm_main =
  repositories :: "handle \<rightharpoonup> 'c repository"

text \<open>A handler of \<open>ScmMainImpl\<close> that looks up the repository and calls a method of
  its provider; the result is the state, the events fired and the error thrown, if any.
  \<open>returns\<close> is the result of a method that cannot throw.\<close>

definition returns :: "'a \<times> 'b \<Rightarrow> 'a \<times> 'b \<times> js_error option" where
  "returns r = (fst r, snd r, None)"

definition on_provider ::
  "handle \<Rightarrow> ('c scm_provider \<Rightarrow> 'c scm_provider \<times> mirror_effect list \<times> js_error option) \<Rightarrow>
   'c scm_main \<Rightarrow> 'c scm_main \<times> mirror_effect list \<times> js_error option" where
  "on_provider h f m =
     (case repositories m h of
        None \<Rightarrow> (m, [], None)
      | Some repo \<Rightarrow>
          (let (p', es, err) = f (provider repo)
           in (m\<lparr>repositories := (repositories m)(h \<mapsto> repo\<lparr>provider := p'\<rparr>)\<rparr>, es, err)))"

definition on_input :: "handle \<Rightarrow> (scm_input \<Rightarrow> scm_input) \<Rightarrow> 'c scm_main \<Rightarrow> 'c scm_main" where
  "on_input h f m =
     (case repositories m h of
        None \<Rightarrow> m
      | Some repo \<Rightarrow> m\<lparr>repositories := (repositories m)(h \<mapsto> repo\<lparr>input := f (input repo)\<rparr>)\<rparr>)"

definition main_handle ::
  "'c main_call \<Rightarrow> 'c scm_main \<Rightarrow> 'c scm_main \<times> mirror_effect list \<times> js_error option" where
  "main_handle call m =
     (case call of
        RegisterSourceControl h ident label rootUri \<Rightarrow>
          (m\<lparr>repositories := (repositories m)(h \<mapsto>
                \<lparr>provider =
                   \<lparr>spHandle = h, spContextValue = ident, spLabel = label, spRootUri = rootUri,
                    spFeatures = \<lparr>hasQuickDiffProvider = NoKey, featCount = NoKey,
                                  featCommitTemplate = NoKey, featAcceptInputCommand = NoKey,
                                  featStatusBarCommands = NoKey\<rparr>,
                    spGroups = [], groupsByHandle = Map.empty, groupStore = Map.empty,
                    nextGroupRef = 0\<rparr>,
                 input = \<lparr>inputValue = [], inputPlaceholder = []\<rparr>\<rparr>)\<rparr>, [], None)
      | UpdateSourceControl h features \<Rightarrow>
          on_provider h (\<lambda>p. returns (provider_updateSourceControl features p)) m
      | UnregisterSourceControl h \<Rightarrow>
          (case repositories m h of
             None \<Rightarrow> (m, [], None)
           | Some repo \<Rightarrow> (m\<lparr>repositories := (repositories m)(h := None)\<rparr>, [], None))
      | RegisterGroups sch gs splices \<Rightarrow>
          on_provider sch (\<lambda>p. provider_spliceGroupResourceStates splices (provider_registerGroups gs p)) m
      | UpdateGroup sch gh features \<Rightarrow>
          on_provider sch (\<lambda>p. returns (provider_updateGroup gh features p)) m
      | UpdateGroupLabel sch gh label \<Rightarrow>
          on_provider sch (\<lambda>p. returns (provider_updateGroupLabel gh label p)) m
      | SpliceResourceStates sch splices \<Rightarrow> on_provider sch (provider_spliceGroupResourceStates splices) m
      | UnregisterGroup sch gh \<Rightarrow> on_provider sch (\<lambda>p. returns (provider_unregisterGroup gh p, [])) m
      | SetInputBoxValue h v \<Rightarrow> (on_input h (\<lambda>i. i\<lparr>inputValue := v\<rparr>) m, [], None)
      | SetInputBoxPlaceholder h v \<Rightarrow> (on_input h (\<lambda>i. i\<lparr>inputPlaceholder := v\<rparr>) m, [], None)
      | SetInputBoxVisibility h visible \<Rightarrow> (m, [], None))"

text \<open>The group handle of the splices of a group, in either shape.\<close>

definition splices_handle :: "'c wire_splices \<Rightarrow> handle" where
  "splices_handle s = (case s of SplicesObject h sl \<Rightarrow> h | SplicesTuple h sl \<Rightarrow> h)"

definition splices_slices :: "'c wire_splices \<Rightarrow> 'c wire_splice list" where
  "splices_slices s = (case s of SplicesObject h sl \<Rightarrow> sl | SplicesTuple h sl \<Rightarrow> sl)"




section \<open>Notions used in the statements and proofs\<close>

text \<open>Applying splices one after the other, in the order of the list.\<close>

fun apply_splices :: "'a splice list \<Rightarrow> 'a list \<Rightarrow> 'a list" where
  "apply_splices [] xs = xs"
| "apply_splices (sp # sps) xs =
     apply_splices sps (fst (array_splice (start sp) (deleteCount sp) (toInsert sp) xs))"

definition map_splice :: "('a \<Rightarrow> 'b) \<Rightarrow> 'a splice \<Rightarrow> 'b splice" where
  "map_splice f sp = Splice (start sp) (deleteCount sp) (map f (toInsert sp))"

definition inserted_items :: "'a splice list \<Rightarrow> 'a list" where
  "inserted_items sps = concat (map toInsert sps)"

definition inserted_count :: "'a splice list \<Rightarrow> nat" where
  "inserted_count sps = sum_list (map (\<lambda>sp. length (toInsert sp)) sps)"

text \<open>Numbering the inserted items of a list of splices from \<open>n\<close> on.\<close>

fun label_items :: "(nat \<Rightarrow> 'a \<Rightarrow> 'b) \<Rightarrow> nat \<Rightarrow> 'a list \<Rightarrow> 'b list" where
  "label_items mk n [] = []"
| "label_items mk n (x # xs) = mk n x # label_items mk (Suc n) xs"

fun label_splices :: "(nat \<Rightarrow> 'a \<Rightarrow> 'b) \<Rightarrow> nat \<Rightarrow> 'a splice list \<Rightarrow> 'b splice list" where
  "label_splices mk n [] = []"
| "label_splices mk n (sp # sps) =
     Splice (start sp) (deleteCount sp) (label_items mk n (toInsert sp))
       # label_splices mk (n + length (toInsert sp)) sps"

text \<open>Splices from the last to the first: each ends where or before the next one to
  its left starts, and the first one ends at or before \<open>b\<close>.\<close>

fun ordered_splices :: "nat \<Rightarrow> 'a splice list \<Rightarrow> bool" where
  "ordered_splices b [] = True"
| "ordered_splices b (sp # sps) = (start sp + deleteCount sp \<le> b \<and> ordered_splices (start sp) sps)"

text \<open>
  What a batch is meant to produce, written without splices: the previous list, whose
  elements are paired with the states they were compared by, is walked along the new
  sorted list; an element that compares equal to the head of the new list is kept, a
  smaller one is dropped, and otherwise the head of the new list is inserted under the
  next number.
\<close>

fun reconcile ::
  "('a \<Rightarrow> 'a \<Rightarrow> int) \<Rightarrow> (nat \<Rightarrow> 'a \<Rightarrow> 'b) \<Rightarrow> nat \<Rightarrow> ('b \<times> 'a) list \<Rightarrow> 'a list \<Rightarrow> 'b list" where
  "reconcile cmp mk n [] after = label_items mk n after"
| "reconcile cmp mk n (l # ls) [] = []"
| "reconcile cmp mk n ((l, b) # ls) (a # after) =
     (if cmp b a = 0 then l # reconcile cmp mk n ls after
      else if cmp b a < 0 then reconcile cmp mk n ls (a # after)
      else mk n a # reconcile cmp mk (Suc n) ((l, b) # ls) after)"

text \<open>
  A splice with its raw resources in the shape with named fields, as \<^verbatim>\<open>scm.ts\<close>
  builds it, and in the positional shape, as \<^verbatim>\<open>scm-main.ts\<close> reads it; and the
  positional shape of a splice of either shape, with the same components. No function of
  the sources turns one shape into the other.
\<close>

definition object_splice :: "'c raw_resource splice \<Rightarrow> 'c wire_splice" where
  "object_splice sp = SpliceObject (start sp) (deleteCount sp) (map ResourceObject (toInsert sp))"

definition tuple_splice :: "'c raw_resource splice \<Rightarrow> 'c wire_splice" where
  "tuple_splice sp = SpliceTuple (start sp) (deleteCount sp) (map ResourceTuple (toInsert sp))"

definition resource_components :: "'c wire_resource \<Rightarrow> 'c raw_resource" where
  "resource_components x = (case x of ResourceObject raw \<Rightarrow> raw | ResourceTuple raw \<Rightarrow> raw)"

definition splice_components :: "'c wire_splice \<Rightarrow> 'c raw_resource splice" where
  "splice_components x =
     (case x of
        SpliceObject s d rs \<Rightarrow> Splice s d (map resource_components rs)
      | SpliceTuple s d rs \<Rightarrow> Splice s d (map resource_components rs))"

definition positional :: "'c wire_splice \<Rightarrow> 'c wire_splice" where
  "positional x = tuple_splice (splice_components x)"

text \<open>The mirror's resource for a state that was sent under a handle.\<close>

definition mirror_of ::
  "'c externals \<Rightarrow> handle \<Rightarrow> handle \<Rightarrow> handle \<times> resource_state \<Rightarrow> 'c scm_resource" where
  "mirror_of ext sch gh = (\<lambda>(h, r). decodeResource sch gh (encodeResource ext h r))"

text \<open>The handles of the snapshot of a group with the states stored under them.\<close>

definition stored :: "group \<Rightarrow> (handle \<times> resource_state) list" where
  "stored g = map (\<lambda>h. (h, the (resourceStatesMap g h))) (handlesSnapshot g)"

text \<open>Two states are linked by a chain of states of which each compares equal to the
  next.\<close>

definition cmp_equiv :: "('a \<Rightarrow> 'a \<Rightarrow> int) \<Rightarrow> 'a \<Rightarrow> 'a \<Rightarrow> bool" where
  "cmp_equiv cmp = rtranclp (\<lambda>x y. cmp x y = 0)"

text \<open>
  A mirror group holds what a provider group has sent: its resources are, in order, the
  resources for the handles of the handle snapshot and the states stored under them; the
  handles are distinct and below the counter; and each stored state is linked to the
  state at its position in the sorted snapshot.
\<close>

definition synced :: "'c externals \<Rightarrow> handle \<Rightarrow> group \<Rightarrow> 'c mirror_group \<Rightarrow> bool" where
  "synced ext sch g mg \<longleftrightarrow>
     resources mg = map (mirror_of ext sch (groupHandle g)) (stored g) \<and>
     distinct (handlesSnapshot g) \<and>
     (\<forall>h \<in> set (handlesSnapshot g). h < resourceHandlePool g \<and> resourceStatesMap g h \<noteq> None) \<and>
     list_all2 (\<lambda>(h, r) x. cmp_equiv (compareResourceStates ext) r x) (stored g) (resourceSnapshot g)"

section \<open>Values for evaluating the model\<close>

text \<open>
  An instance of the parameters: paths and tooltips are compared as plain strings, no
  command argument is below another, the converter hands a command on as it is, a file
  URI has the path it is made of behind a leading slash, its \<open>fsPath\<close> is its path,
  and the sort is the stable insertion sort. The lists that the examples below sort have
  states with different paths; on them the comparator is a consistent one, for which
  every stable sort returns what the insertion sort returns.
\<close>

definition compare_strings :: "string \<Rightarrow> string \<Rightarrow> int" where
  "compare_strings a b = (if a = b then 0 else if a < b then - 1 else 1)"

fun insort_by :: "('a \<Rightarrow> 'a \<Rightarrow> int) \<Rightarrow> 'a \<Rightarrow> 'a list \<Rightarrow> 'a list" where
  "insort_by cmp x [] = [x]"
| "insort_by cmp x (y # ys) = (if cmp x y \<le> 0 then x # y # ys else y # insort_by cmp x ys)"

definition insertion_sort :: "('a \<Rightarrow> 'a \<Rightarrow> int) \<Rightarrow> 'a list \<Rightarrow> 'a list" where
  "insertion_sort cmp xs = foldr (insort_by cmp) xs []"

definition file_uri :: "string \<Rightarrow> uri" where
  "file_uri p =
     \<lparr>uriScheme = ''file'', uriAuthority = [],
      uriPath = (if p \<noteq> [] \<and> hd p = CHR ''/'' then p else CHR ''/'' # p),
      uriQuery = [], uriFragment = []\<rparr>"

definition plain_externals :: "theia_command externals" where
  "plain_externals =
     \<lparr>comparePaths = (\<lambda>a b caseSensitive. compare_strings a b),
      localeCompare = compare_strings,
      jsLess = (\<lambda>a b. False),
      toSafeCommand = (\<lambda>c. c),
      arraySort = insertion_sort,
      uriFile = file_uri,
      uriToString = (\<lambda>u. uriScheme u @ ''://'' @ uriAuthority u @ uriPath u),
      uriFsPath = uriPath\<rparr>"

text \<open>A resource state for a file, bare or decorated; the decoration flags are given
  as the plugin may give them: absent, \<open>false\<close> or \<open>true\<close>.\<close>

definition file_state :: "string \<Rightarrow> resource_state" where
  "file_state p =
     \<lparr>resourceUri = file_uri p, resourceCommand = None, decorations = None, contextValue = None\<rparr>"

definition decorated :: "string \<Rightarrow> bool option \<Rightarrow> bool option \<Rightarrow> resource_state" where
  "decorated p strike fade =
     (file_state p)\<lparr>decorations :=
        Some \<lparr>iconPath = None, strikeThrough = strike, faded = fade, tooltip = None,
              light = None, dark = None\<rparr>\<rparr>"

text \<open>The attached commands of two states compare equal: both are absent, or
  \<open>compareCommands\<close> returns \<open>0\<close>.\<close>

definition commands_compare_equal :: "'c externals \<Rightarrow> resource_state \<Rightarrow> resource_state \<Rightarrow> bool" where
  "commands_compare_equal ext a b =
     (case (resourceCommand a, resourceCommand b) of
        (Some ca, Some cb) \<Rightarrow> compareCommands ext ca cb = 0
      | (None, None) \<Rightarrow> True
      | _ \<Rightarrow> False)"

text \<open>Two source controls created from the initial state, and the second one selected.\<close>

definition demo_run :: "api_op list \<Rightarrow> scm_ext" where
  "demo_run ops = fst (api_run plain_externals ops initial_ext)"

definition two_controls :: scm_ext where
  "two_controls =
     demo_run [CreateSourceControl ''git'' ''Git'' None, CreateSourceControl ''svn'' ''Svn'' None]"

definition select ::
  "handle option \<Rightarrow> scm_ext \<Rightarrow> ext_result promise \<times> scm_ext \<times> theia_command provider_effect list" where
  "select sel w = ext_handle (SetSelectedSourceControl sel) w"

definition second_selected :: scm_ext where
  "second_selected = fst (snd (select (Some 1) two_controls))"

text \<open>The handles of a list that a listener of a selection event finds flagged selected.\<close>

definition selected_among :: "handle list \<Rightarrow> 'c provider_effect \<Rightarrow> handle list" where
  "selected_among hs e = (case e of SelectionFired h b view \<Rightarrow> filter view hs | _ \<Rightarrow> [])"


text \<open>
  One round for one group in which the splices reach the mirror group as the provider
  group has built them: the plugin assigns the declared list, the provider side takes
  the snapshot, and the loop of the mirror side for the group runs on the splices of the
  snapshot. The result is the provider group, the mirror group and the error thrown on
  the mirror side, if any.
\<close>

definition round_as_sent ::
  "'c externals \<Rightarrow> handle \<Rightarrow> resource_state list \<Rightarrow> group \<times> 'c mirror_group \<Rightarrow>
   group \<times> 'c mirror_group \<times> js_error option" where
  "round_as_sent ext sch rs = (\<lambda>(g, mg).
     (let (splices, g') = takeResourceStateSnapshot ext (g\<lparr>resourceStates := rs\<rparr>);
          (mg', es, err) = spliceGroup sch (groupHandle g) splices mg
      in (g', mg', err)))"

text \<open>
  The same round with the splices of the snapshot put into the positional shape before
  the loop of the mirror side runs on them. The sources do not do this: the round says
  what the mirror side makes of the components that the provider side has computed when
  they arrive in the shape that the mirror side reads.
\<close>

definition round_positional ::
  "'c externals \<Rightarrow> handle \<Rightarrow> resource_state list \<Rightarrow> group \<times> 'c mirror_group \<Rightarrow>
   group \<times> 'c mirror_group \<times> js_error option" where
  "round_positional ext sch rs = (\<lambda>(g, mg).
     (let (splices, g') = takeResourceStateSnapshot ext (g\<lparr>resourceStates := rs\<rparr>);
          (mg', es, err) = spliceGroup sch (groupHandle g) (map positional splices) mg
      in (g', mg', err)))"

text \<open>A new group and an empty mirror group; the two after a positional round for the
  declared list of the files \<open>/c\<close>, \<open>/a\<close> and \<open>/b\<close>; and the splices of the provider
  group for the next declared list, the file \<open>/b\<close> alone, in the positional shape.\<close>

definition empty_mirror_group :: "handle \<Rightarrow> handle \<Rightarrow> theia_command mirror_group" where
  "empty_mirror_group sch gh =
     \<lparr>mgSourceControlHandle = sch, mgHandle = gh, mgFeatures = \<lparr>featHideWhenEmpty = KeyUndefined\<rparr>,
      mgLabel = ''Changes'', mgId = ''changes'', resources = []\<rparr>"

definition abc_round :: "group \<times> theia_command mirror_group \<times> js_error option" where
  "abc_round = round_positional plain_externals 0 [file_state ''/c'', file_state ''/a'', file_state ''/b'']
                 (new_group 0 0 ''changes'' ''Changes'', empty_mirror_group 0 0)"

definition abc_sent :: "group \<times> theia_command mirror_group" where
  "abc_sent = (fst abc_round, fst (snd abc_round))"

definition only_b_splices :: "theia_command wire_splice list" where
  "only_b_splices =
     map positional
       (fst (takeResourceStateSnapshot plain_externals ((fst abc_sent)\<lparr>resourceStates := [file_state ''/b'']\<rparr>)))"

text \<open>The state of the file \<open>/a\<close> with a context value: it compares equal to the bare
  state of the file. A positional round for the file \<open>/a\<close>, and a second one in which
  the file is declared with the context value.\<close>

definition staged_a :: resource_state where
  "staged_a = (file_state ''/a'')\<lparr>contextValue := Some ''staged''\<rparr>"

definition a_round :: "group \<times> theia_command mirror_group \<times> js_error option" where
  "a_round = round_positional plain_externals 0 [file_state ''/a'']
               (new_group 0 0 ''changes'' ''Changes'', empty_mirror_group 0 0)"

definition staged_round :: "group \<times> theia_command mirror_group \<times> js_error option" where
  "staged_round = round_positional plain_externals 0 [staged_a] (fst a_round, fst (snd a_round))"

text \<open>Creating several groups of one source control, one call after the other; and the
  message that registers one new group.\<close>

fun createResourceGroups ::
  "'c externals \<Rightarrow> handle \<Rightarrow> (string \<times> string) list \<Rightarrow> scm_ext \<Rightarrow> scm_ext \<times> 'c provider_effect list" where
  "createResourceGroups ext k [] w = (w, [])"
| "createResourceGroups ext k ((ident, label) # rest) w =
     (let (gh, w1, e1) = createResourceGroup ext k ident label w;
          (w2, e2) = createResourceGroups ext k rest w1
      in (w2, e1 @ e2))"

definition register_one :: "handle \<Rightarrow> handle \<times> string \<times> string \<Rightarrow> 'c provider_effect" where
  "register_one sch = (\<lambda>(gh, ident, label).
     Send (RegisterGroups sch [(gh, ident, label, \<lparr>featHideWhenEmpty = KeyUndefined\<rparr>)] []))"

text \<open>A command that is not one of the two trusted ones.\<close>

definition open_change :: theia_command where
  "open_change = \<lparr>command = Some ''git.openChange'', title = Some ''Open'', commandTooltip = None,
                  arguments = Some [JStr ''a'']\<rparr>"

text \<open>The first of the two source controls with one group; the same with the group
  marked as updated, as the listener of the group does before the update runs.\<close>

definition one_group :: scm_ext where
  "one_group = fst (snd (createResourceGroup plain_externals 0 ''changes'' ''Changes'' two_controls
                      :: handle \<times> scm_ext \<times> theia_command provider_effect list))"

definition mark_updated :: "handle \<Rightarrow> handle \<Rightarrow> scm_ext \<Rightarrow> scm_ext" where
  "mark_updated k gh w =
     (case sourceControls w k of
        None \<Rightarrow> w
      | Some sc \<Rightarrow>
          w\<lparr>sourceControls :=
              (sourceControls w)(k \<mapsto> sc\<lparr>updatedResourceGroups := set_add gh (updatedResourceGroups sc)\<rparr>)\<rparr>)"

text \<open>What is sent when two groups are created in a row.\<close>

definition two_groups_effects :: "theia_command provider_effect list" where
  "two_groups_effects =
     snd (createResourceGroups plain_externals 0 [(''index'', ''Staged''), (''changes'', ''Changes'')] two_controls)"

section \<open>Handles in use and counters\<close>

text \<open>The handles of the snapshot of a group are distinct and below the counter of the
  group.\<close>

definition group_ok :: "group \<Rightarrow> bool" where
  "group_ok g \<longleftrightarrow>
     distinct (handlesSnapshot g) \<and> (\<forall>h \<in> set (handlesSnapshot g). h < resourceHandlePool g)"

text \<open>From \<open>g\<close> to \<open>g'\<close> the group is the same object (handle, owner, identifier), its
  counter has not gone down, and a handle of the snapshot of \<open>g'\<close> that is not in the
  snapshot of \<open>g\<close> is at or above the counter of \<open>g\<close>.\<close>

definition group_grows :: "group \<Rightarrow> group \<Rightarrow> bool" where
  "group_grows g g' \<longleftrightarrow>
     groupHandle g' = groupHandle g \<and>
     groupSourceControlHandle g' = groupSourceControlHandle g \<and>
     groupId g' = groupId g \<and>
     resourceHandlePool g \<le> resourceHandlePool g' \<and>
     (\<forall>h \<in> set (handlesSnapshot g'). h \<in> set (handlesSnapshot g) \<or> resourceHandlePool g \<le> h)"

text \<open>The same source control object: handle, identifier, label and root.\<close>

definition same_control :: "source_control \<Rightarrow> source_control \<Rightarrow> bool" where
  "same_control sc sc' \<longleftrightarrow>
     scHandle sc' = scHandle sc \<and> scId sc' = scId sc \<and> scLabel sc' = scLabel sc \<and>
     scRootUri sc' = scRootUri sc"

text \<open>
  The two counters for source controls agree; every source control is registered under
  its own handle, below the counter; every group object is named by its own handle,
  below the counter of the groups, and its resource handles are in order.
\<close>

definition handles_ok :: "scm_ext \<Rightarrow> bool" where
  "handles_ok w \<longleftrightarrow>
     extHandlePool w = sourceControlHandlePool w \<and>
     (\<forall>k sc. sourceControls w k = Some sc \<longrightarrow> k < extHandlePool w \<and> scHandle sc = k) \<and>
     (\<forall>gh g. groupObjects w gh = Some g \<longrightarrow> gh < groupHandlePool w \<and> groupHandle g = gh \<and> group_ok g)"

text \<open>
  From \<open>w\<close> to \<open>w'\<close> no counter has gone down; what had a handle is still the object
  under that handle; and a handle of a source control or of a group that is in use in
  \<open>w'\<close> and was not in \<open>w\<close> is at or above the counter of \<open>w\<close>, so it differs from
  every handle given out before.
\<close>

definition handles_grow :: "scm_ext \<Rightarrow> scm_ext \<Rightarrow> bool" where
  "handles_grow w w' \<longleftrightarrow>
     extHandlePool w \<le> extHandlePool w' \<and>
     sourceControlHandlePool w \<le> sourceControlHandlePool w' \<and>
     groupHandlePool w \<le> groupHandlePool w' \<and>
     (\<forall>k sc. sourceControls w k = Some sc \<longrightarrow>
        (\<exists>sc'. sourceControls w' k = Some sc' \<and> same_control sc sc')) \<and>
     (\<forall>k. sourceControls w' k \<noteq> None \<longrightarrow> sourceControls w k \<noteq> None \<or> extHandlePool w \<le> k) \<and>
     (\<forall>gh g. groupObjects w gh = Some g \<longrightarrow> (\<exists>g'. groupObjects w' gh = Some g' \<and> group_grows g g')) \<and>
     (\<forall>gh. groupObjects w' gh \<noteq> None \<longrightarrow> groupObjects w gh \<noteq> None \<or> groupHandlePool w \<le> gh)"

definition step_ok :: "scm_ext \<Rightarrow> scm_ext \<Rightarrow> bool" where
  "step_ok w w' \<longleftrightarrow> (handles_ok w \<longrightarrow> handles_ok w' \<and> handles_grow w w')"

text \<open>
  The handles that a call on the proxy gives out to the mirror side: the handle of a new
  source control, the handles of new groups, and, for a group, the handles of the raw
  resources that its splices insert, in the order of the message.
\<close>

definition inserted_handles :: "'c wire_splice list \<Rightarrow> handle list" where
  "inserted_handles sps = map rawHandle (inserted_items (map splice_components sps))"

definition group_inserted :: "handle \<Rightarrow> 'c wire_splices list \<Rightarrow> handle list" where
  "group_inserted gh splices =
     concat (map (\<lambda>s. if splices_handle s = gh then inserted_handles (splices_slices s) else []) splices)"

definition issued_controls :: "'c provider_effect \<Rightarrow> handle list" where
  "issued_controls e =
     (case e of
        Send c \<Rightarrow> (case c of RegisterSourceControl h ident label rootUri \<Rightarrow> [h] | _ \<Rightarrow> [])
      | _ \<Rightarrow> [])"

definition issued_groups :: "'c provider_effect \<Rightarrow> handle list" where
  "issued_groups e =
     (case e of
        Send c \<Rightarrow> (case c of RegisterGroups h gs splices \<Rightarrow> map fst gs | _ \<Rightarrow> [])
      | _ \<Rightarrow> [])"

definition issued_resources :: "handle \<Rightarrow> 'c provider_effect \<Rightarrow> handle list" where
  "issued_resources gh e =
     (case e of
        Send c \<Rightarrow>
          (case c of
             RegisterGroups h gs splices \<Rightarrow> group_inserted gh splices
           | SpliceResourceStates h splices \<Rightarrow> group_inserted gh splices
           | _ \<Rightarrow> [])
      | _ \<Rightarrow> [])"

text \<open>The counter of the resource handles of the group named \<open>gh\<close>; a group that
  does not exist yet will start at \<open>0\<close>.\<close>

definition resource_pool :: "scm_ext \<Rightarrow> handle \<Rightarrow> nat" where
  "resource_pool w gh = (case groupObjects w gh of None \<Rightarrow> 0 | Some g \<Rightarrow> resourceHandlePool g)"

text \<open>
  From \<open>w\<close> to \<open>w'\<close> the effects \<open>es\<close> give out, for each kind of handle and in
  this order, exactly the values from the counter of \<open>w\<close> up to the counter of \<open>w'\<close>.
\<close>

definition issues :: "scm_ext \<Rightarrow> 'c provider_effect list \<Rightarrow> scm_ext \<Rightarrow> bool" where
  "issues w es w' \<longleftrightarrow>
     concat (map issued_controls es) = [sourceControlHandlePool w..<sourceControlHandlePool w'] \<and>
     concat (map issued_groups es) = [groupHandlePool w..<groupHandlePool w'] \<and>
     (\<forall>gh. concat (map (issued_resources gh) es) = [resource_pool w gh..<resource_pool w' gh])"

text \<open>No source control has a group waiting for one of the two flushes: the state
  between two calls of the plugin, as both flushes run inside the call that marks a
  group.\<close>

definition quiescent :: "scm_ext \<Rightarrow> bool" where
  "quiescent w \<longleftrightarrow>
     (\<forall>k sc. sourceControls w k = Some sc \<longrightarrow>
        createdResourceGroups sc = [] \<and> updatedResourceGroups sc = [])"

section \<open>The messages of a run\<close>

text \<open>
  A message of one of the two flushes carries a change: \<open>$registerGroups\<close> at least
  one group, \<open>$spliceResourceStates\<close> at least one group with splices; and the
  splices of a group in either message are not an empty list.
\<close>

definition carries_change :: "'c provider_effect \<Rightarrow> bool" where
  "carries_change e =
     (case e of
        Send c \<Rightarrow>
          (case c of
             RegisterGroups h gs splices \<Rightarrow>
               gs \<noteq> [] \<and> list_all (\<lambda>s. splices_slices s \<noteq> []) splices
           | SpliceResourceStates h splices \<Rightarrow>
               splices \<noteq> [] \<and> list_all (\<lambda>s. splices_slices s \<noteq> []) splices
           | _ \<Rightarrow> True)
      | _ \<Rightarrow> True)"

text \<open>
  The calls on the proxy among the effects of the provider side, and the mirror side
  handling a list of calls one after the other: each call is a request of its own, so a
  call that throws does not keep the next one from being handled. The result is the
  state of the mirror side and the outcome of each call.
\<close>

definition sent :: "'c provider_effect list \<Rightarrow> 'c main_call list" where
  "sent es = concat (map (\<lambda>e. case e of Send c \<Rightarrow> [c] | _ \<Rightarrow> []) es)"

fun main_run :: "'c main_call list \<Rightarrow> 'c scm_main \<Rightarrow> 'c scm_main \<times> js_error option list" where
  "main_run [] m = (m, [])"
| "main_run (c # cs) m =
     (let (m1, es, err) = main_handle c m;
          (m2, errs) = main_run cs m1
      in (m2, err # errs))"

definition group_resources :: "'c scm_main \<Rightarrow> handle \<Rightarrow> handle \<Rightarrow> 'c scm_resource list option" where
  "group_resources m sch gh =
     (case repositories m sch of
        None \<Rightarrow> None
      | Some repo \<Rightarrow>
          (case lookup_group (provider repo) gh of
             None \<Rightarrow> None
           | Some (r, mg) \<Rightarrow> Some (resources mg)))"

text \<open>
  A source control with a group whose first resource list is declared; the calls that
  the provider side makes on its proxy in this run, handled by a mirror side that starts
  with no repository; and the run continued with a second list and the disposal of the
  group.
\<close>

definition first_list_ops :: "api_op list" where
  "first_list_ops =
     [CreateSourceControl ''git'' ''Git'' None,
      CreateResourceGroup 0 ''changes'' ''Changes'',
      SetResourceStates 0 [file_state ''/c'', file_state ''/a'', file_state ''/b'']]"

definition first_list_round :: "scm_ext \<times> theia_command scm_main \<times> js_error option list" where
  "first_list_round =
     (let (w, es) = api_run plain_externals first_list_ops initial_ext;
          (m, outcomes) = main_run (sent es) \<lparr>repositories = Map.empty\<rparr>
      in (w, m, outcomes))"

definition lifecycle_ops :: "api_op list" where
  "lifecycle_ops =
     [CreateSourceControl ''git'' ''Git'' None,
      CreateResourceGroup 0 ''changes'' ''Changes'',
      SetResourceStates 0 [file_state ''/c'', file_state ''/a'', file_state ''/b''],
      SetResourceStates 0 [file_state ''/b''],
      DisposeGroup 0]"

section \<open>Splices: numbering, order and the sorted diff\<close>

lemma label_items_append: "label_items mk n (xs @ ys) = label_items mk n xs @ label_items mk (n + length xs) ys"
  by (induction xs arbitrary: n) auto

lemma length_label_items [simp]: "length (label_items mk n xs) = length xs"
  by (induction xs arbitrary: n) auto

lemma label_items_Nil_iff [simp]: "label_items mk n xs = [] \<longleftrightarrow> xs = []"
  by (cases xs) auto

lemma label_splices_append:
  "label_splices mk n (A @ B) = label_splices mk n A @ label_splices mk (n + inserted_count A) B"
  by (induction A arbitrary: n) (auto simp: inserted_count_def add.assoc)

lemma inserted_count_append [simp]: "inserted_count (A @ B) = inserted_count A + inserted_count B"
  by (simp add: inserted_count_def)

lemma label_splices_Nil_iff [simp]: "label_splices mk n R = [] \<longleftrightarrow> R = []"
  by (cases R) auto

lemma label_splices_snoc:
  "label_splices mk n (A @ [sp]) = label_splices mk n A @
     [Splice (start sp) (deleteCount sp) (label_items mk (n + inserted_count A) (toInsert sp))]"
  by (simp add: label_splices_append)

lemma inserted_count_pushSplice:
  "inserted_count (pushSplice s d items R) = inserted_count R + length items"
proof (cases "R = []")
  case True thus ?thesis by (simp add: pushSplice_def inserted_count_def)
next
  case False
  then obtain A sp where R: "R = A @ [sp]" by (metis append_butlast_last_id)
  show ?thesis by (simp add: pushSplice_def R inserted_count_def)
qed

lemma label_pushSplice:
  "label_splices mk n (pushSplice s d items R) =
     pushSplice s d (label_items mk (n + inserted_count R) items) (label_splices mk n R)"
proof (cases "R = []")
  case True thus ?thesis by (simp add: pushSplice_def inserted_count_def)
next
  case False
  then obtain A sp where R: "R = A @ [sp]" by (metis append_butlast_last_id)
  show ?thesis
    by (simp add: pushSplice_def R label_splices_append label_items_append inserted_count_def add.assoc)
qed


lemma splice_id [simp]: "fst (array_splice s 0 [] xs) = xs"
  by (simp add: array_splice_def)

lemma splice_merge:
  "s + d1 \<le> length xs \<Longrightarrow>
   fst (array_splice s (d1 + d2) (i1 @ i2) xs) =
   fst (array_splice s d1 i1 (fst (array_splice (s + d1) d2 i2 xs)))"
  by (simp add: array_splice_def take_add add.assoc min_def)

lemma apply_splices_append [simp]:
  "apply_splices (A @ B) xs = apply_splices B (apply_splices A xs)"
  by (induction A arbitrary: xs) auto

lemma ordered_splices_mono: "ordered_splices b R \<Longrightarrow> b \<le> b' \<Longrightarrow> ordered_splices b' R"
  by (cases R) auto

lemma ordered_label [simp]: "ordered_splices b (rev (label_splices mk n R)) = ordered_splices b (rev R)"
proof (induction R arbitrary: b n rule: rev_induct)
  case Nil show ?case by simp
next
  case (snoc sp R)
  show ?case by (simp add: label_splices_snoc snoc.IH)
qed

lemma apply_prefix:
  "ordered_splices b T \<Longrightarrow> b \<le> length u \<Longrightarrow> apply_splices T (u @ v) = apply_splices T u @ v"
proof (induction T arbitrary: b u v)
  case Nil show ?case by simp
next
  case (Cons sp T)
  from Cons.prems have le: "start sp + deleteCount sp \<le> length u" and ord: "ordered_splices (start sp) T"
    by auto
  have 1: "fst (array_splice (start sp) (deleteCount sp) (toInsert sp) (u @ v))
        = take (start sp) u @ (toInsert sp @ drop (start sp + deleteCount sp) u @ v)"
    using le by (simp add: array_splice_def)
  have 2: "fst (array_splice (start sp) (deleteCount sp) (toInsert sp) u)
        = take (start sp) u @ (toInsert sp @ drop (start sp + deleteCount sp) u)"
    by (simp add: array_splice_def)
  have len: "start sp \<le> length (take (start sp) u)" using le by simp
  show ?case
    by (simp only: apply_splices.simps 1 2 Cons.IH[OF ord len]) simp
qed

lemma ordered_pushSplice:
  "ordered_splices b (rev R) \<Longrightarrow> ordered_splices (b + d) (rev (pushSplice b d items R))"
proof (cases "R = []")
  case True thus ?thesis by (simp add: pushSplice_def)
next
  case False
  then obtain A sp where R: "R = A @ [sp]" by (metis append_butlast_last_id)
  assume "ordered_splices b (rev R)"
  thus ?thesis by (auto simp: pushSplice_def R)
qed

lemma apply_pushSplice:
  assumes "ordered_splices b (rev R)" "b \<le> length w"
  shows "apply_splices (rev (pushSplice b d items R)) w
       = apply_splices (rev R) (fst (array_splice b d items w))"
proof (cases "R = []")
  case True thus ?thesis by (simp add: pushSplice_def)
next
  case False
  then obtain A sp where R: "R = A @ [sp]" by (metis append_butlast_last_id)
  show ?thesis
  proof (cases "d = 0 \<and> items = []")
    case True thus ?thesis by (simp add: pushSplice_def)
  next
    case nz: False
    show ?thesis
    proof (cases "start sp + deleteCount sp = b")
      case True
      hence "start sp + deleteCount sp \<le> length w" using assms by simp
      from splice_merge[OF this, of d "toInsert sp" items] True nz
      show ?thesis by (simp add: pushSplice_def R)
    next
      case False with nz show ?thesis by (simp add: pushSplice_def R)
    qed
  qed
qed

lemma diff_loop_reconcile:
  "ordered_splices bi (rev R) \<Longrightarrow> length u = bi \<Longrightarrow> length v = length before \<Longrightarrow>
   apply_splices (rev (label_splices mk n (sortedDiff_loop cmp bi before after R))) (u @ v)
   = apply_splices (rev (label_splices mk n R)) u
     @ reconcile cmp mk (n + inserted_count R) (zip v before) after"
proof (induction cmp bi before after R arbitrary: u v rule: sortedDiff_loop.induct)
  case (1 cmp bi after R)
  then show ?case 
    by (simp add: label_pushSplice apply_pushSplice array_splice_def apply_prefix[where b=bi and v="label_items mk k after" for k, simplified])
next
  case (2 cmp bi b before R)
  then obtain h v' where v: "v = h # v'" by (cases v) auto
  from 2 show ?case
    by (simp add: label_pushSplice apply_pushSplice array_splice_def v)
next
  case (3 cmp bi b before a after R)
  from "3.prems" obtain h v' where v: "v = h # v'" and lv: "length v' = length before"
    by (cases v) auto
  have ordl: "ordered_splices bi (rev (label_splices mk n R))" using "3.prems" by simp
  show ?case
  proof (cases "cmp b a = 0")
    case True
    have o: "ordered_splices (bi + 1) (rev R)" using "3.prems"(1) by (rule ordered_splices_mono) simp
    have "apply_splices (rev (label_splices mk n (sortedDiff_loop cmp (bi + 1) before after R))) ((u @ [h]) @ v')
        = apply_splices (rev (label_splices mk n R)) (u @ [h]) @ reconcile cmp mk (n + inserted_count R) (zip v' before) after"
      using "3.IH"(1)[OF True o _ lv, of "u @ [h]"] "3.prems" by simp
    moreover have "apply_splices (rev (label_splices mk n R)) (u @ [h]) = apply_splices (rev (label_splices mk n R)) u @ [h]"
      using apply_prefix[OF ordl, of u "[h]"] "3.prems" by simp
    ultimately show ?thesis using True by (simp add: v)
  next
    case ne: False
    show ?thesis
    proof (cases "cmp b a < 0")
      case True
      let ?R' = "pushSplice bi 1 [] R"
      have o: "ordered_splices (bi + 1) (rev ?R')" using ordered_pushSplice[OF "3.prems"(1)] .
      have "apply_splices (rev (label_splices mk n (sortedDiff_loop cmp (bi + 1) before (a # after) ?R'))) ((u @ [h]) @ v')
        = apply_splices (rev (label_splices mk n ?R')) (u @ [h]) @ reconcile cmp mk (n + inserted_count ?R') (zip v' before) (a # after)"
        using "3.IH"(2)[OF ne True o _ lv, of "u @ [h]"] "3.prems" by simp
      moreover have "apply_splices (rev (label_splices mk n ?R')) (u @ [h]) = apply_splices (rev (label_splices mk n R)) u"
        using "3.prems" ordl by (simp add: label_pushSplice apply_pushSplice array_splice_def)
      ultimately show ?thesis using True ne by (simp add: v inserted_count_pushSplice)
    next
      case False
      let ?R' = "pushSplice bi 0 [a] R"
      have o: "ordered_splices bi (rev ?R')" using ordered_pushSplice[OF "3.prems"(1), of 0 "[a]"] by simp
      have "apply_splices (rev (label_splices mk n (sortedDiff_loop cmp bi (b # before) after ?R'))) (u @ v)
        = apply_splices (rev (label_splices mk n ?R')) u @ reconcile cmp mk (n + inserted_count ?R') (zip v (b # before)) after"
        using "3.IH"(3)[OF ne False o "3.prems"(2,3)] .
      moreover have "apply_splices (rev (label_splices mk n ?R')) u = apply_splices (rev (label_splices mk n R)) u @ [mk (n + inserted_count R) a]"
        using "3.prems" ordl apply_prefix[OF ordl, of u "[mk (n + inserted_count R) a]"]
        by (simp add: label_pushSplice apply_pushSplice array_splice_def)
      ultimately show ?thesis using False ne by (simp add: v inserted_count_pushSplice)
    qed
  qed
qed

lemma sortedDiff_reconcile:
  "length L = length before \<Longrightarrow>
   apply_splices (rev (label_splices mk n (sortedDiff before after cmp))) L
   = reconcile cmp mk n (zip L before) after"
  using diff_loop_reconcile[of 0 "[]" "[]" L before mk n cmp after]
  by (simp add: sortedDiff_def inserted_count_def)

section \<open>The snapshot of a group\<close>

lemma mset_array_sort [simp]: "mset (array_sort ext cmp xs) = mset xs"
  by (simp add: array_sort_def Let_def)

lemma length_array_sort [simp]: "length (array_sort ext cmp xs) = length xs"
  using mset_array_sort[of ext cmp xs] by (metis size_mset)

lemma array_sort_Nil [simp]: "array_sort ext cmp [] = []"
  by (simp add: array_sort_def Let_def)

lemma map_splice_sel [simp]:
  "start (map_splice f sp) = start sp" "deleteCount (map_splice f sp) = deleteCount sp"
  "toInsert (map_splice f sp) = map f (toInsert sp)"
  by (simp_all add: map_splice_def)

lemma inserted_items_simps [simp]:
  "inserted_items [] = []" "inserted_items (sp # T) = toInsert sp @ inserted_items T"
  by (simp_all add: inserted_items_def)

lemma label_items_map: "label_items (\<lambda>k r. f (mk k r)) n xs = map f (label_items mk n xs)"
  by (induction xs arbitrary: n) auto

lemma label_splices_map:
  "label_splices (\<lambda>k r. f (mk k r)) n D = map (map_splice f) (label_splices mk n D)"
  by (induction D arbitrary: n) (auto simp: map_splice_def label_items_map)

lemma array_splice_map:
  "fst (array_splice s d (map f items) (map f xs)) = map f (fst (array_splice s d items xs))"
  by (simp add: array_splice_def take_map drop_map)

lemma apply_splices_map:
  "apply_splices (map (map_splice f) T) (map f xs) = map f (apply_splices T xs)"
  by (induction T arbitrary: xs) (auto simp: map_splice_def array_splice_map)

lemma set_apply_splices: "set (apply_splices T xs) \<subseteq> set xs \<union> set (inserted_items T)"
proof (induction T arbitrary: xs)
  case Nil show ?case by simp
next
  case (Cons sp T)
  have "set (fst (array_splice (start sp) (deleteCount sp) (toInsert sp) xs)) \<subseteq> set xs \<union> set (toInsert sp)"
    by (auto simp: array_splice_def dest: in_set_takeD in_set_dropD)
  with Cons.IH[of "fst (array_splice (start sp) (deleteCount sp) (toInsert sp) xs)"]
  show ?case by (auto simp: inserted_items_def)
qed

lemma map_fst_label_items: "map fst (label_items Pair n xs) = [n..<n + length xs]"
  by (induction xs arbitrary: n) (auto simp: upt_rec)

lemma label_items_fst: "label_items (\<lambda>k r. k) n xs = [n..<n + length xs]"
  by (induction xs arbitrary: n) (auto simp: upt_rec)

lemma inserted_labels:
  "inserted_items (label_splices (\<lambda>k r. k) n D) = [n..<n + inserted_count D]"
proof (induction D arbitrary: n)
  case Nil show ?case by (simp add: inserted_items_def inserted_count_def)
next
  case (Cons sp D)
  have "[n..<n + length (toInsert sp)] @ [n + length (toInsert sp)..<n + length (toInsert sp) + inserted_count D]
      = [n..<n + (length (toInsert sp) + inserted_count D)]"
    by (metis add.assoc le_add1 upt_add_eq_append)
  with Cons.IH[of "n + length (toInsert sp)"] show ?case
    by (simp add: inserted_items_def inserted_count_def label_items_fst)
qed

lemma mset_inserted_rev: "mset (inserted_items (rev T)) = mset (inserted_items T)"
  by (induction T) (auto simp: inserted_items_def)

lemma insertResource_fst:
  "fst (insertResource ext r g) = (encodeResource ext (resourceHandlePool g) r, resourceHandlePool g)"
  by (simp add: insertResource_def Let_def)

lemma insertResource_snd:
  "resourceHandlePool (snd (insertResource ext r g)) = Suc (resourceHandlePool g)"
  "handlesSnapshot (snd (insertResource ext r g)) = handlesSnapshot g"
  "resourceSnapshot (snd (insertResource ext r g)) = resourceSnapshot g"
  "resourceStates (snd (insertResource ext r g)) = resourceStates g"
  "groupHandle (snd (insertResource ext r g)) = groupHandle g"
  "resourceStatesMap (snd (insertResource ext r g)) = (resourceStatesMap g)(resourceHandlePool g \<mapsto> r)"
  by (simp_all add: insertResource_def Let_def split: option.splits)

lemma insertResources_fst:
  "fst (insertResources ext rs g) = label_items (\<lambda>k r. (encodeResource ext k r, k)) (resourceHandlePool g) rs"
  by (induction rs arbitrary: g) (simp_all add: split_beta insertResource_fst insertResource_snd)

lemma insertResources_snd:
  "resourceHandlePool (snd (insertResources ext rs g)) = resourceHandlePool g + length rs"
  "handlesSnapshot (snd (insertResources ext rs g)) = handlesSnapshot g"
  "resourceSnapshot (snd (insertResources ext rs g)) = resourceSnapshot g"
  "resourceStates (snd (insertResources ext rs g)) = resourceStates g"
  "groupHandle (snd (insertResources ext rs g)) = groupHandle g"
  by (induction rs arbitrary: g; simp add: split_beta insertResource_snd)+

lemma insertResources_map_old:
  "h < resourceHandlePool g \<Longrightarrow>
   resourceStatesMap (snd (insertResources ext rs g)) h = resourceStatesMap g h"
  by (induction rs arbitrary: g) (simp_all add: split_beta insertResource_snd)

lemma insertResources_map_new:
  "(k, r) \<in> set (label_items Pair (resourceHandlePool g) rs) \<Longrightarrow>
   resourceStatesMap (snd (insertResources ext rs g)) k = Some r"
proof (induction rs arbitrary: g)
  case Nil thus ?case by simp
next
  case (Cons a rs)
  let ?g1 = "snd (insertResource ext a g)"
  from Cons.prems consider "(k, r) = (resourceHandlePool g, a)"
    | "(k, r) \<in> set (label_items Pair (resourceHandlePool ?g1) rs)"
    by (auto simp: insertResource_snd)
  thus ?case
  proof cases
    case 1
    thus ?thesis using insertResources_map_old[of k ?g1 ext rs]
      by (simp add: split_beta insertResource_snd)
  next
    case 2
    from Cons.IH[OF 2] show ?thesis by (simp add: split_beta)
  qed
qed

lemma handleSplices_fst:
  "fst (handleSplices ext D g) = label_splices (\<lambda>k r. (encodeResource ext k r, k)) (resourceHandlePool g) D"
  by (induction D arbitrary: g) (simp_all add: split_beta insertResources_fst insertResources_snd)

lemma handleSplices_snd:
  "resourceHandlePool (snd (handleSplices ext D g)) = resourceHandlePool g + inserted_count D"
  "handlesSnapshot (snd (handleSplices ext D g)) = handlesSnapshot g"
  "resourceSnapshot (snd (handleSplices ext D g)) = resourceSnapshot g"
  "resourceStates (snd (handleSplices ext D g)) = resourceStates g"
  "groupHandle (snd (handleSplices ext D g)) = groupHandle g"
  by (induction D arbitrary: g; simp add: split_beta insertResources_snd inserted_count_def)+

lemma handleSplices_map_old:
  "h < resourceHandlePool g \<Longrightarrow>
   resourceStatesMap (snd (handleSplices ext D g)) h = resourceStatesMap g h"
  by (induction D arbitrary: g) (simp_all add: split_beta insertResources_snd insertResources_map_old)

lemma handleSplices_map_new:
  "(k, r) \<in> set (inserted_items (label_splices Pair (resourceHandlePool g) D)) \<Longrightarrow>
   resourceStatesMap (snd (handleSplices ext D g)) k = Some r"
proof (induction D arbitrary: g)
  case Nil thus ?case by (simp add: inserted_items_def)
next
  case (Cons sp D)
  let ?g1 = "snd (insertResources ext (toInsert sp) g)"
  from Cons.prems consider "(k, r) \<in> set (label_items Pair (resourceHandlePool g) (toInsert sp))"
    | "(k, r) \<in> set (inserted_items (label_splices Pair (resourceHandlePool ?g1) D))"
    by (auto simp: insertResources_snd inserted_items_def)
  thus ?case
  proof cases
    case 1
    hence "k \<in> set (map fst (label_items Pair (resourceHandlePool g) (toInsert sp)))"
      by (metis fst_conv image_eqI set_map)
    hence "k < resourceHandlePool ?g1" by (simp add: map_fst_label_items insertResources_snd)
    thus ?thesis using insertResources_map_new[OF 1, of ext] handleSplices_map_old[of k ?g1 ext D]
      by (simp add: split_beta)
  next
    case 2
    from Cons.IH[OF 2] show ?thesis by (simp add: split_beta)
  qed
qed

lemma deleteHandles_spec:
  "handlesSnapshot (deleteHandles hs g) = handlesSnapshot g"
  "resourceHandlePool (deleteHandles hs g) = resourceHandlePool g"
  "resourceSnapshot (deleteHandles hs g) = resourceSnapshot g"
  "resourceStates (deleteHandles hs g) = resourceStates g"
  "groupHandle (deleteHandles hs g) = groupHandle g"
  "resourceStatesMap (deleteHandles hs g) h = (if h \<in> set hs then None else resourceStatesMap g h)"
  "resourceStatesCommandsMap (deleteHandles hs g) h = (if h \<in> set hs then None else resourceStatesCommandsMap g h)"
  by (induction hs arbitrary: g; simp)+

lemma spliceHandles_spec:
  "distinct (handlesSnapshot g @ inserted_items (map (map_splice snd) T)) \<Longrightarrow>
   handlesSnapshot (spliceHandles T g) = apply_splices (map (map_splice snd) T) (handlesSnapshot g) \<and>
   distinct (handlesSnapshot (spliceHandles T g)) \<and>
   resourceHandlePool (spliceHandles T g) = resourceHandlePool g \<and>
   resourceSnapshot (spliceHandles T g) = resourceSnapshot g \<and>
   resourceStates (spliceHandles T g) = resourceStates g \<and>
   groupHandle (spliceHandles T g) = groupHandle g \<and>
   (\<forall>h \<in> set (handlesSnapshot (spliceHandles T g)).
      resourceStatesMap (spliceHandles T g) h = resourceStatesMap g h \<and>
      resourceStatesCommandsMap (spliceHandles T g) h = resourceStatesCommandsMap g h)"
proof (induction T arbitrary: g)
  case Nil thus ?case by simp
next
  case (Cons sp T)
  let ?cur = "handlesSnapshot g"
  let ?ins = "map snd (toInsert sp)"
  let ?cur' = "fst (array_splice (start sp) (deleteCount sp) ?ins ?cur)"
  let ?del = "snd (array_splice (start sp) (deleteCount sp) ?ins ?cur)"
  let ?g1 = "deleteHandles ?del (g\<lparr>handlesSnapshot := ?cur'\<rparr>)"
  let ?rest = "inserted_items (map (map_splice snd) T)"
  from Cons.prems have d: "distinct (?cur @ ?ins @ ?rest)"
    by simp
  have cur_split: "?cur = take (start sp) ?cur @ ?del @ drop (start sp + deleteCount sp) ?cur"
    by (simp add: array_splice_def) (metis add.commute append_take_drop_id drop_drop)
  have d1: "distinct (?cur' @ ?rest)" and disj: "set ?del \<inter> (set ?cur' \<union> set ?rest) = {}"
  proof -
    from d have "distinct ((take (start sp) ?cur @ ?del @ drop (start sp + deleteCount sp) ?cur) @ ?ins @ ?rest)"
      using cur_split by simp
    thus "distinct (?cur' @ ?rest)" "set ?del \<inter> (set ?cur' \<union> set ?rest) = {}"
      by (auto simp: array_splice_def)
  qed
  have hs1: "handlesSnapshot ?g1 = ?cur'" by (simp add: deleteHandles_spec)
  have step: "spliceHandles (sp # T) g = spliceHandles T ?g1" by (simp add: split_beta)
  from d1 have dd: "distinct (handlesSnapshot ?g1 @ ?rest)" by (simp add: hs1)
  note ih = Cons.IH[OF dd]
  have IH1: "handlesSnapshot (spliceHandles T ?g1) = apply_splices (map (map_splice snd) T) ?cur'"
    using ih hs1 by simp
  have IH2: "distinct (handlesSnapshot (spliceHandles T ?g1))" using ih by blast
  have IH3: "resourceHandlePool (spliceHandles T ?g1) = resourceHandlePool ?g1"
    "resourceSnapshot (spliceHandles T ?g1) = resourceSnapshot ?g1"
    "resourceStates (spliceHandles T ?g1) = resourceStates ?g1"
    "groupHandle (spliceHandles T ?g1) = groupHandle ?g1"
    using ih by blast+
  have IH7: "\<And>h. h \<in> set (handlesSnapshot (spliceHandles T ?g1)) \<Longrightarrow>
      resourceStatesMap (spliceHandles T ?g1) h = resourceStatesMap ?g1 h \<and>
      resourceStatesCommandsMap (spliceHandles T ?g1) h = resourceStatesCommandsMap ?g1 h"
    using ih by blast
  have sub: "set (handlesSnapshot (spliceHandles T ?g1)) \<subseteq> set ?cur' \<union> set ?rest"
    using set_apply_splices[of "map (map_splice snd) T" ?cur'] IH1 by simp
  have keep: "\<And>h. h \<in> set (handlesSnapshot (spliceHandles T ?g1)) \<Longrightarrow>
      resourceStatesMap ?g1 h = resourceStatesMap g h \<and>
      resourceStatesCommandsMap ?g1 h = resourceStatesCommandsMap g h"
    using sub disj by (auto simp: deleteHandles_spec)
  show ?case unfolding step
  proof (intro conjI ballI)
    show "handlesSnapshot (spliceHandles T ?g1) = apply_splices (map (map_splice snd) (sp # T)) ?cur"
      using IH1 by simp
    show "distinct (handlesSnapshot (spliceHandles T ?g1))" by (rule IH2)
    show "resourceHandlePool (spliceHandles T ?g1) = resourceHandlePool g"
      using IH3(1) by (simp add: deleteHandles_spec)
    show "resourceSnapshot (spliceHandles T ?g1) = resourceSnapshot g"
      using IH3(2) by (simp add: deleteHandles_spec)
    show "resourceStates (spliceHandles T ?g1) = resourceStates g"
      using IH3(3) by (simp add: deleteHandles_spec)
    show "groupHandle (spliceHandles T ?g1) = groupHandle g"
      using IH3(4) by (simp add: deleteHandles_spec)
  next
    fix h assume h: "h \<in> set (handlesSnapshot (spliceHandles T ?g1))"
    show "resourceStatesMap (spliceHandles T ?g1) h = resourceStatesMap g h"
      using IH7[OF h] keep[OF h] by simp
    show "resourceStatesCommandsMap (spliceHandles T ?g1) h = resourceStatesCommandsMap g h"
      using IH7[OF h] keep[OF h] by simp
  qed
qed

section \<open>A round of snapshot and splice\<close>

lemma decodeResources_tuples [simp]:
  "decodeResources sch gh (map ResourceTuple rs) = Inr (map (decodeResource sch gh) rs)"
  by (induction rs) simp_all

lemma applyGroupSlices_tuples:
  "applyGroupSlices sch gh (map tuple_splice T) mg
   = (mg\<lparr>resources := apply_splices (map (map_splice (decodeResource sch gh)) T) (resources mg)\<rparr>,
      map (\<lambda>sp. DidSplice gh (start sp) (deleteCount sp) (length (toInsert sp))) T,
      None)"
  by (induction T arbitrary: mg) (simp_all add: tuple_splice_def mirror_group_splice_def)

lemma applyGroupSlices_tuple:
  "applyGroupSlices sch gh (tuple_splice sp # rest) mg
   = (let (mg', es, err) =
            applyGroupSlices sch gh rest
              (mirror_group_splice (start sp) (deleteCount sp) (map (decodeResource sch gh) (toInsert sp)) mg)
      in (mg', DidSplice gh (start sp) (deleteCount sp) (length (toInsert sp)) # es, err))"
  by (simp add: tuple_splice_def)

lemma positional_object [simp]: "positional (object_splice sp) = tuple_splice sp"
  by (simp add: positional_def object_splice_def splice_components_def resource_components_def comp_def)

lemma positional_tuple [simp]: "positional (tuple_splice sp) = tuple_splice sp"
  by (simp add: positional_def tuple_splice_def splice_components_def resource_components_def comp_def)

lemma spliceGroup_tuples:
  "spliceGroup sch gh (map tuple_splice T) mg
   = (mg\<lparr>resources := apply_splices (rev (map (map_splice (decodeResource sch gh)) T)) (resources mg)\<rparr>,
      map (\<lambda>sp. DidSplice gh (start sp) (deleteCount sp) (length (toInsert sp))) (rev T),
      None)"
  using applyGroupSlices_tuples[of sch gh "rev T" mg] by (simp add: spliceGroup_def rev_map)

lemma map_splice_fun:
  "(\<lambda>sp. Splice (start sp) (deleteCount sp) (map f (toInsert sp))) = map_splice f"
  by (simp add: map_splice_def fun_eq_iff)

lemma takeSnapshot_fst:
  "fst (takeResourceStateSnapshot ext g)
   = map object_splice
       (label_splices (encodeResource ext) (resourceHandlePool g)
          (sortedDiff (resourceSnapshot g) (array_sort ext (compareResourceStates ext) (resourceStates g))
             (compareResourceStates ext)))"
proof -
  have "(\<lambda>sp. SpliceObject (start sp) (deleteCount sp) (map (\<lambda>i. ResourceObject (fst i)) (toInsert sp)))
      = object_splice \<circ> map_splice (fst :: 'a raw_resource \<times> handle \<Rightarrow> 'a raw_resource)"
    by (simp add: fun_eq_iff object_splice_def map_splice_def comp_def)
  thus ?thesis
    using label_splices_map[of fst "\<lambda>k r. (encodeResource ext k r, k)"]
    by (simp add: takeResourceStateSnapshot_def Let_def split_beta handleSplices_fst flip: map_map)
qed

lemma reconcile_rel:
  "list_all2 (\<lambda>l y. (\<exists>k. l = mk k y) \<or> (\<exists>x. (l, x) \<in> set lx \<and> cmp x y = 0))
     (reconcile cmp mk n lx ys) ys"
proof (induction cmp mk n lx ys rule: reconcile.induct)
  case (1 cmp mk n after)
  have "list_all2 (\<lambda>l y. \<exists>k. l = mk k y) (label_items mk n after) after"
    by (induction after arbitrary: n) auto
  thus ?case by (auto elim: list_all2_mono)
next
  case (2 cmp mk n l ls) show ?case by simp
next
  case (3 cmp mk n l b ls a after)
  show ?case
  proof (cases "cmp b a = 0")
    case True
    with 3(1)[OF True] show ?thesis by (auto elim!: list_all2_mono)
  next
    case ne: False
    show ?thesis
    proof (cases "cmp b a < 0")
      case True
      with ne 3(2)[OF ne True] show ?thesis by (auto elim!: list_all2_mono)
    next
      case False
      with ne 3(3)[OF ne False] show ?thesis by (auto elim!: list_all2_mono)
    qed
  qed
qed

lemma length_reconcile: "length (reconcile cmp mk n lx ys) = length ys"
  using reconcile_rel[of mk lx cmp n ys] by (rule list_all2_lengthD)

lemma snapshot_step:
  fixes B :: "resource_state list"
  assumes syn: "synced ext sch g mg"
  defines "res \<equiv> takeResourceStateSnapshot ext (g\<lparr>resourceStates := B\<rparr>)"
  shows "synced ext sch (snd res) (fst (spliceGroup sch (groupHandle g) (map positional (fst res)) mg))"
    and "snd (snd (spliceGroup sch (groupHandle g) (map positional (fst res)) mg)) = None"
    and "resourceSnapshot (snd res) = array_sort ext (compareResourceStates ext) B"
    and "groupHandle (snd res) = groupHandle g"
    and "resourceHandlePool g \<le> resourceHandlePool (snd res)"
proof -
  let ?cmp = "compareResourceStates ext"
  let ?g0 = "g\<lparr>resourceStates := B\<rparr>"
  let ?ys = "array_sort ext ?cmp B"
  let ?xs = "resourceSnapshot g"
  let ?n = "resourceHandlePool g"
  let ?hs = "handlesSnapshot g"
  let ?D = "sortedDiff ?xs ?ys ?cmp"
  let ?S = "fst (handleSplices ext ?D ?g0)"
  let ?g1 = "snd (handleSplices ext ?D ?g0)"
  let ?g2 = "spliceHandles (rev ?S) ?g1"
  let ?L = "stored g"
  let ?P = "label_splices Pair ?n ?D"
  let ?L' = "apply_splices (rev ?P) ?L"
  have res2: "snd res = ?g2\<lparr>resourceSnapshot := ?ys\<rparr>"
    by (simp add: res_def takeResourceStateSnapshot_def Let_def split_beta)
  have res1: "map positional (fst res) = map tuple_splice (map (map_splice fst) ?S)"
    using label_splices_map[of fst "\<lambda>k r. (encodeResource ext k r, k)" ?n ?D]
    by (simp add: res_def takeSnapshot_fst handleSplices_fst comp_def)
  note res = res2
  have S: "?S = label_splices (\<lambda>k r. (encodeResource ext k r, k)) ?n ?D"
    by (simp add: handleSplices_fst)
  have Ssnd: "map (map_splice snd) ?S = map (map_splice fst) ?P"
    unfolding S using label_splices_map[of snd "\<lambda>k r. (encodeResource ext k r, k)" ?n ?D]
      label_splices_map[of fst Pair ?n ?D] by simp
  have Sfst: "map (map_splice (decodeResource sch (groupHandle g))) (map (map_splice fst) ?S)
      = map (map_splice (mirror_of ext sch (groupHandle g))) ?P"
    unfolding S using label_splices_map[of fst "\<lambda>k r. (encodeResource ext k r, k)" ?n ?D]
      label_splices_map[of "decodeResource sch (groupHandle g)" "\<lambda>k r. encodeResource ext k r" ?n ?D]
      label_splices_map[of "mirror_of ext sch (groupHandle g)" Pair ?n ?D]
    by (simp add: mirror_of_def)
  from syn have res_mg: "resources mg = map (mirror_of ext sch (groupHandle g)) ?L"
    and dist: "distinct ?hs"
    and bound: "\<And>h. h \<in> set ?hs \<Longrightarrow> h < ?n \<and> resourceStatesMap g h \<noteq> None"
    and rel: "list_all2 (\<lambda>(h, r) x. cmp_equiv ?cmp r x) ?L ?xs"
    by (auto simp: synced_def)
  have hsL: "?hs = map fst ?L" by (simp add: stored_def comp_def)
  have lenL: "length ?L = length ?xs" using rel by (rule list_all2_lengthD)
  have L': "?L' = reconcile ?cmp Pair ?n (zip ?L ?xs) ?ys"
    by (rule sortedDiff_reconcile[OF lenL])
  \<comment> \<open>the handles\<close>
  have labs: "inserted_items (map (map_splice fst) ?P) = [?n..<?n + inserted_count ?D]"
    using label_splices_map[of fst Pair ?n ?D] inserted_labels[of ?n ?D] by simp
  have revS: "map (map_splice snd) (rev ?S) = rev (map (map_splice fst) ?P)"
    by (simp only: rev_map[symmetric] Ssnd)
  have "mset (inserted_items (map (map_splice snd) (rev ?S))) = mset [?n..<?n + inserted_count ?D]"
    unfolding revS mset_inserted_rev labs ..
  hence dl: "distinct (inserted_items (map (map_splice snd) (rev ?S)))"
    and sl: "set (inserted_items (map (map_splice snd) (rev ?S))) = {?n..<?n + inserted_count ?D}"
    by (metis distinct_upt mset_eq_imp_distinct_iff, metis mset_eq_setD set_upt)
  have bound1: "\<And>h. h \<in> set ?hs \<Longrightarrow> h < ?n" using bound by blast
  have "set ?hs \<inter> {?n..<?n + inserted_count ?D} = {}" using bound1 by fastforce
  hence d0: "distinct (handlesSnapshot ?g1 @ inserted_items (map (map_splice snd) (rev ?S)))"
    using dist dl sl by (simp add: handleSplices_snd)
  note sh = spliceHandles_spec[OF d0]
  have am: "apply_splices (rev (map (map_splice f) ?P)) (map f ?L) = map f ?L'" for f :: "handle \<times> resource_state \<Rightarrow> 'z"
    by (simp only: rev_map apply_splices_map)
  have "handlesSnapshot ?g2 = apply_splices (map (map_splice snd) (rev ?S)) (handlesSnapshot ?g1)"
    using sh by blast
  hence hs2: "handlesSnapshot ?g2 = map fst ?L'"
    unfolding revS using am[of fst] by (simp add: handleSplices_snd hsL)
  have dist2: "distinct (handlesSnapshot ?g2)" using sh by blast
  have pool2: "resourceHandlePool ?g2 = ?n + inserted_count ?D"
    using sh by (simp add: handleSplices_snd)
  have gh2: "groupHandle ?g2 = groupHandle g" using sh by (simp add: handleSplices_snd)
  \<comment> \<open>the stored states\<close>
  have inL': "\<And>h r. (h, r) \<in> set ?L' \<Longrightarrow> h < ?n + inserted_count ?D \<and> resourceStatesMap ?g1 h = Some r"
  proof -
    fix h r assume "(h, r) \<in> set ?L'"
    with set_apply_splices[of "rev ?P" ?L]
    consider "(h, r) \<in> set ?L" | "(h, r) \<in> set (inserted_items (rev ?P))" by auto
    thus "h < ?n + inserted_count ?D \<and> resourceStatesMap ?g1 h = Some r"
    proof cases
      case 1
      hence "h \<in> set ?hs" "r = the (resourceStatesMap g h)" by (auto simp: stored_def)
      with bound[of h] handleSplices_map_old[of h ?g0 ext ?D] show ?thesis by auto
    next
      case 2
      hence in2: "(h, r) \<in> set (inserted_items ?P)"
        using mset_inserted_rev[of ?P] by (metis mset_eq_setD)
      hence "h \<in> set (inserted_items (map (map_splice fst) ?P))"
        by (auto simp: inserted_items_def intro!: bexI[of _ "(h, r)"] image_eqI[of _ _ "(h, r)"]) 
      hence "h < ?n + inserted_count ?D" by (simp add: labs)
      moreover have "resourceStatesMap ?g1 h = Some r"
        using handleSplices_map_new[of h r ?g0 ?D ext] in2 by simp
      ultimately show ?thesis by simp
    qed
  qed
  have stored2: "stored (?g2\<lparr>resourceSnapshot := ?ys\<rparr>) = ?L'"
  proof -
    have "\<And>p. p \<in> set ?L' \<Longrightarrow> (fst p, the (resourceStatesMap ?g2 (fst p))) = p"
    proof -
      fix p assume p: "p \<in> set ?L'"
      hence "fst p \<in> set (handlesSnapshot ?g2)" by (simp add: hs2)
      hence "resourceStatesMap ?g2 (fst p) = resourceStatesMap ?g1 (fst p)" using sh by blast
      also have "\<dots> = Some (snd p)" using inL'[of "fst p" "snd p"] p by simp
      finally show "(fst p, the (resourceStatesMap ?g2 (fst p))) = p" by simp
    qed
    thus ?thesis by (simp add: stored_def hs2 comp_def map_idI)
  qed
  \<comment> \<open>the mirror\<close>
  have mir: "resources (fst (spliceGroup sch (groupHandle g) (map positional (fst res)) mg))
      = map (mirror_of ext sch (groupHandle g)) ?L'"
    using am[of "mirror_of ext sch (groupHandle g)"]
    by (simp add: res1 spliceGroup_tuples res_mg Sfst del: map_map)
  \<comment> \<open>the relation to the new snapshot\<close>
  have rel2: "list_all2 (\<lambda>(h, r) x. cmp_equiv ?cmp r x) ?L' ?ys"
  proof -
    have "list_all2 (\<lambda>l y. (\<exists>k. l = Pair k y) \<or> (\<exists>x. (l, x) \<in> set (zip ?L ?xs) \<and> ?cmp x y = 0)) ?L' ?ys"
      unfolding L' by (rule reconcile_rel)
    moreover have "\<And>l x. (l, x) \<in> set (zip ?L ?xs) \<Longrightarrow> cmp_equiv ?cmp (snd l) x"
      using rel by (auto simp: list_all2_iff)
    moreover have "\<And>r x y. cmp_equiv ?cmp r x \<Longrightarrow> ?cmp x y = 0 \<Longrightarrow> cmp_equiv ?cmp r y"
      unfolding cmp_equiv_def by (rule rtranclp.rtrancl_into_rtrancl)
    moreover have "\<And>y. cmp_equiv ?cmp y y" by (simp add: cmp_equiv_def)
    ultimately show ?thesis
      by (fastforce elim!: list_all2_mono)
  qed
  show "snd (snd (spliceGroup sch (groupHandle g) (map positional (fst res)) mg)) = None"
    by (simp add: res1 spliceGroup_tuples del: map_map)
  show "synced ext sch (snd res) (fst (spliceGroup sch (groupHandle g) (map positional (fst res)) mg))"
    unfolding synced_def
  proof (intro conjI ballI)
    show "resources (fst (spliceGroup sch (groupHandle g) (map positional (fst res)) mg))
        = map (mirror_of ext sch (groupHandle (snd res))) (stored (snd res))"
      using mir by (simp add: res stored2 gh2)
    show "distinct (handlesSnapshot (snd res))" using dist2 by (simp add: res)
    show "list_all2 (\<lambda>(h, r) x. cmp_equiv ?cmp r x) (stored (snd res)) (resourceSnapshot (snd res))"
      using rel2 by (simp add: res stored2)
  next
    fix h assume "h \<in> set (handlesSnapshot (snd res))"
    hence h2: "h \<in> set (handlesSnapshot ?g2)" by (simp add: res)
    then obtain r where hr: "(h, r) \<in> set ?L'" by (auto simp: hs2)
    have "resourceStatesMap ?g2 h = resourceStatesMap ?g1 h" using sh h2 by blast
    with inL'[OF hr] show "h < resourceHandlePool (snd res)" "resourceStatesMap (snd res) h \<noteq> None"
      by (simp_all add: res pool2)
  qed
  show "resourceSnapshot (snd res) = ?ys" by (simp add: res)
  show "groupHandle (snd res) = groupHandle g" by (simp add: res gh2)
  show "?n \<le> resourceHandlePool (snd res)" by (simp add: res pool2)
qed

section \<open>The order on resource states: decorations\<close>

lemma compare_decorated:
  assumes "comparePaths ext (uriFsPath ext (resourceUri a)) (uriFsPath ext (resourceUri b)) (Some True) = 0"
    and "commands_compare_equal ext a b"
    and "decorations a = Some da" and "decorations b = Some db"
  shows "compareResourceStates ext a b = compareResourceStatesDecorations ext da db"
  using assms
  by (auto simp: compareResourceStates_def compareStateDecorations_def commands_compare_equal_def
        Let_def split: option.splits)

lemma decorated_facts:
  "comparePaths plain_externals (uriFsPath plain_externals (resourceUri (decorated p s f)))
     (uriFsPath plain_externals (resourceUri (decorated p s' f'))) (Some True) = 0"
  "commands_compare_equal plain_externals (decorated p s f) (decorated p s' f')"
  "decorations (decorated p s f)
     = Some \<lparr>iconPath = None, strikeThrough = s, faded = f, tooltip = None, light = None, dark = None\<rparr>"
  by (simp_all add: plain_externals_def compare_strings_def decorated_def file_state_def
        commands_compare_equal_def)

lemma compare_decorated_plain:
  "compareResourceStates plain_externals (decorated p s f) (decorated p s' f')
   = (if s \<noteq> s' then (if truthy s then 1 else - 1)
      else if f \<noteq> f' then (if truthy f then 1 else - 1) else 0)"
  unfolding compare_decorated[OF decorated_facts(1,2,3,3)]
  by (simp add: compareResourceStatesDecorations_def compareResourceThemableDecorations_def
        compareLight_def compareDark_def icon_falsy_def Let_def)

text \<open>
  C4 (amended). For two resource states whose paths compare equal and whose commands
  compare equal, and which both carry decorations: a state whose \<open>strikeThrough\<close> flag
  is \<open>true\<close> orders after one whose flag is not \<open>true\<close>; when the two
  \<open>strikeThrough\<close> values are identical (both absent, both \<open>false\<close> or both
  \<open>true\<close>), a state whose \<open>faded\<close> flag is \<open>true\<close> orders after one whose flag
  is not \<open>true\<close>; when the \<open>strikeThrough\<close> values are identical, the \<open>faded\<close>
  values are identical and the tooltips differ, the result is that of \<open>localeCompare\<close>
  on the tooltips, an absent one read as the empty string; and when all three are
  identical, a difference of the icon paths decides. Nothing is said here about two
  flags that differ without either being \<open>true\<close> (an absent one against \<open>false\<close>).
\<close>

theorem decorations_break_ties:
  assumes "comparePaths ext (uriFsPath ext (resourceUri a)) (uriFsPath ext (resourceUri b)) (Some True) = 0"
    and "commands_compare_equal ext a b"
    and "decorations a = Some da" and "decorations b = Some db"
  shows "(truthy (strikeThrough da) \<and> \<not> truthy (strikeThrough db) \<longrightarrow> compareResourceStates ext a b = 1) \<and>
         (\<not> truthy (strikeThrough da) \<and> truthy (strikeThrough db) \<longrightarrow> compareResourceStates ext a b = - 1) \<and>
         (strikeThrough da = strikeThrough db \<and> truthy (faded da) \<and> \<not> truthy (faded db)
            \<longrightarrow> compareResourceStates ext a b = 1) \<and>
         (strikeThrough da = strikeThrough db \<and> \<not> truthy (faded da) \<and> truthy (faded db)
            \<longrightarrow> compareResourceStates ext a b = - 1) \<and>
         (strikeThrough da = strikeThrough db \<and> faded da = faded db \<and> tooltip da \<noteq> tooltip db
            \<longrightarrow> compareResourceStates ext a b
                = localeCompare ext (or_empty (tooltip da)) (or_empty (tooltip db))) \<and>
         (strikeThrough da = strikeThrough db \<and> faded da = faded db \<and> tooltip da = tooltip db \<and>
          compareResourceThemableDecorations ext da db \<noteq> 0
            \<longrightarrow> compareResourceStates ext a b = compareResourceThemableDecorations ext da db)"
  unfolding compare_decorated[OF assms]
  by (auto simp: compareResourceStatesDecorations_def truthy_def Let_def)

theorem decorations_break_ties_witness:
  "comparePaths plain_externals (uriFsPath plain_externals (resourceUri (decorated ''/a'' (Some True) None)))
     (uriFsPath plain_externals (resourceUri (decorated ''/a'' None (Some True)))) (Some True) = 0 \<and>
   commands_compare_equal plain_externals (decorated ''/a'' (Some True) None) (decorated ''/a'' None (Some True)) \<and>
   compareResourceStates plain_externals (decorated ''/a'' (Some True) None) (decorated ''/a'' None (Some True)) = 1 \<and>
   compareResourceStates plain_externals (decorated ''/a'' None (Some True)) (decorated ''/a'' (Some True) None) = - 1 \<and>
   compareResourceStates plain_externals (decorated ''/a'' (Some False) (Some True)) (decorated ''/a'' (Some False) None) = 1 \<and>
   compareResourceStates plain_externals (decorated ''/a'' (Some False) None) (decorated ''/a'' (Some False) (Some True)) = - 1"
proof -
  note f = decorated_facts
  note f1 = f(1)[of "''/a''" "Some True" None None "Some True"] f(2)[of "''/a''" "Some True" None None "Some True"]
  note f2 = f(1)[of "''/a''" None "Some True" "Some True" None] f(2)[of "''/a''" None "Some True" "Some True" None]
  note f3 = f(1)[of "''/a''" "Some False" "Some True" "Some False" None]
    f(2)[of "''/a''" "Some False" "Some True" "Some False" None]
  note f4 = f(1)[of "''/a''" "Some False" None "Some False" "Some True"]
    f(2)[of "''/a''" "Some False" None "Some False" "Some True"]
  from decorations_break_ties[OF f1 f(3) f(3)] decorations_break_ties[OF f2 f(3) f(3)]
    decorations_break_ties[OF f3 f(3) f(3)] decorations_break_ties[OF f4 f(3) f(3)] f1
  show ?thesis by (simp add: truthy_def)
qed

text \<open>
  C4, as stated, fails: of two states with the same path and no command, the one with
  the strike-through decoration compares greater, so it is sorted after the other, and
  so does a faded one against one that is not faded. And "equal strike-through" cannot
  be read as "neither is struck through": for a faded state without the flag
  \<open>strikeThrough\<close> and a state that is not faded and has the flag \<open>false\<close>, the
  function returns \<open>-1\<close> whichever comes first.
\<close>

theorem strikeThrough_orders_after:
  "compareResourceStates plain_externals
     (decorated ''/a'' (Some True) (Some False)) (decorated ''/a'' (Some False) (Some False)) = 1 \<and>
   compareResourceStates plain_externals
     (decorated ''/a'' (Some False) (Some True)) (decorated ''/a'' (Some False) (Some False)) = 1 \<and>
   compareResourceStates plain_externals
     (decorated ''/a'' None (Some True)) (decorated ''/a'' (Some False) (Some False)) = - 1 \<and>
   compareResourceStates plain_externals
     (decorated ''/a'' (Some False) (Some False)) (decorated ''/a'' None (Some True)) = - 1"
  by (simp add: compare_decorated_plain truthy_def)

section \<open>Selection\<close>

lemma two_controls_simps:
  "sourceControls two_controls 0 \<noteq> None" "sourceControls two_controls 1 \<noteq> None"
  "sourceControls two_controls 7 = None"
  by (simp_all add: two_controls_def demo_run_def api_step_def createSourceControl_def initial_ext_def Let_def)

lemma second_selected_simps:
  "sourceControls second_selected 0 \<noteq> None" "sourceControls second_selected 1 \<noteq> None"
  "sourceControls second_selected 7 = None"
  "selectedSourceControlHandle second_selected = Some 1"
  "selected_view second_selected 1" "\<not> selected_view second_selected 0"
  by (simp_all add: second_selected_def select_def ext_handle_def ext_setSelectedSourceControl_def
        setSelectionState_def selected_view_def two_controls_def demo_run_def api_step_def
        createSourceControl_def initial_ext_def Let_def)

text \<open>
  C5 (amended). For two distinct registered source controls \<open>x\<close> and \<open>y\<close> of which
  \<open>y\<close> is the recorded selection, \<open>$setSelectedSourceControl(x)\<close> fires exactly
  two selection events: first \<open>true\<close> on \<open>x\<close>, then \<open>false\<close> on \<open>y\<close>. A
  listener of either event finds \<open>x\<close> flagged selected, so none finds no control
  selected; a listener of the first event finds \<open>y\<close> still flagged as it was before,
  and a listener of the second finds it cleared. Afterwards \<open>x\<close> is recorded and
  flagged, \<open>y\<close> is not flagged.
\<close>

theorem select_other_control:
  assumes "sourceControls w x = Some scx" and "sourceControls w y = Some scy" and "x \<noteq> y"
    and "selectedSourceControlHandle w = Some y"
  shows "\<exists>v1 v2 w'.
           ext_setSelectedSourceControl (Some x) w
             = (Resolved Undefined, w', [SelectionFired x True v1, SelectionFired y False v2]) \<and>
           v1 x \<and> (v1 y \<longleftrightarrow> selected scy) \<and> v2 x \<and> \<not> v2 y \<and>
           selectedSourceControlHandle w' = Some x \<and> selected_view w' x \<and> \<not> selected_view w' y"
  using assms
  by (simp add: ext_setSelectedSourceControl_def setSelectionState_def selected_view_def Let_def)

theorem select_other_control_witness:
  "selectedSourceControlHandle second_selected = Some 1 \<and>
   (\<exists>v1 v2 w'. select (Some 0) second_selected
        = (Resolved Undefined, w', [SelectionFired 0 True v1, SelectionFired 1 False v2]) \<and>
      v1 0 \<and> v2 0 \<and> \<not> v2 1 \<and> selectedSourceControlHandle w' = Some 0)"
proof -
  obtain scx scy where h: "sourceControls second_selected 0 = Some scx"
      "sourceControls second_selected 1 = Some scy"
    using second_selected_simps(1,2) by auto
  have s: "selectedSourceControlHandle second_selected = Some 1" by (rule second_selected_simps)
  from select_other_control[OF h _ s, where ?'a = theia_command] s show ?thesis
    by (simp add: select_def ext_handle_def) blast
qed

text \<open>
  C5, as stated, fails in its last part: when the first of two controls is selected
  while the second is, a listener of the first event finds both flagged selected.
\<close>

theorem two_selected_at_first_notification:
  "map (selected_among [0, 1]) (snd (snd (select (Some 0) second_selected))) = [[0, 1], [0]]"
  by (simp add: selected_among_def second_selected_def select_def ext_handle_def ext_setSelectedSourceControl_def
        setSelectionState_def selected_view_def two_controls_def demo_run_def api_step_def
        createSourceControl_def initial_ext_def Let_def)

text \<open>
  C10. When \<open>$setSelectedSourceControl\<close> is called with the handle \<open>h\<close> that is
  already recorded as selected, the source control \<open>h\<close> gets the event \<open>true\<close> and
  then the event \<open>false\<close>; after the call its flag is false and \<open>h\<close> is still the
  recorded handle.
\<close>

theorem reselect_same_control:
  assumes "sourceControls w h = Some sc" and "selectedSourceControlHandle w = Some h"
  shows "\<exists>v1 v2 w'.
           ext_setSelectedSourceControl (Some h) w
             = (Resolved Undefined, w', [SelectionFired h True v1, SelectionFired h False v2]) \<and>
           \<not> selected_view w' h \<and> selectedSourceControlHandle w' = Some h"
  using assms
  by (simp add: ext_setSelectedSourceControl_def setSelectionState_def selected_view_def Let_def)

theorem reselect_same_control_witness:
  "selectedSourceControlHandle second_selected = Some 1 \<and>
   (\<exists>v1 v2 w'. select (Some 1) second_selected
        = (Resolved Undefined, w', [SelectionFired 1 True v1, SelectionFired 1 False v2]) \<and>
      \<not> selected_view w' 1 \<and> selectedSourceControlHandle w' = Some 1)"
proof -
  obtain sc where h: "sourceControls second_selected 1 = Some sc"
    using second_selected_simps(2) by auto
  have s: "selectedSourceControlHandle second_selected = Some 1" by (rule second_selected_simps)
  from reselect_same_control[OF h s, where ?'a = theia_command] s show ?thesis
    by (simp add: select_def ext_handle_def)
qed

section \<open>Calls with a handle that is not registered\<close>

lemma on_provider_missing: "repositories m h = None \<Longrightarrow> on_provider h f m = (m, [], None)"
  by (simp add: on_provider_def)







section \<open>The mirror follows the snapshots\<close>

lemma file_path [simp]: "uriPath (file_uri (CHR ''/'' # p)) = CHR ''/'' # p"
  by (simp add: file_uri_def)

lemma cmp_file [simp]:
  "compareResourceStates plain_externals (file_state p) (file_state q)
   = compare_strings (uriPath (file_uri p)) (uriPath (file_uri q))"
  by (simp add: compareResourceStates_def compareStateDecorations_def plain_externals_def file_state_def
        Let_def)

lemma cmp_staged [simp]: "compareResourceStates plain_externals (file_state ''/a'') staged_a = 0"
  by (simp add: compareResourceStates_def compareStateDecorations_def plain_externals_def file_state_def
        staged_a_def compare_strings_def Let_def)

lemma mset_insort_by: "mset (insort_by cmp x xs) = add_mset x (mset xs)"
  by (induction xs) auto

lemma mset_insertion_sort: "mset (insertion_sort cmp xs) = mset xs"
  by (induction xs) (simp_all add: insertion_sort_def mset_insort_by)

lemma plain_sort [simp]: "array_sort plain_externals cmp xs = insertion_sort cmp xs"
  by (simp add: array_sort_def plain_externals_def mset_insertion_sort)

lemma resHandle_decode [simp]: "resHandle (decodeResource sch gh raw) = rawHandle raw"
  by (simp add: decodeResource_def Let_def)

lemma rawHandle_encode [simp]: "rawHandle (encodeResource ext h r) = h"
  by (simp add: encodeResource_def Let_def)

lemma resHandle_mirror_of [simp]: "resHandle (mirror_of ext sch gh (h, r)) = h"
  by (simp add: mirror_of_def decodeResource_def encodeResource_def Let_def)

lemma resContextValue_mirror_of [simp]:
  "resContextValue (mirror_of ext sch gh (h, r))
   = (if or_empty (contextValue r) = [] then None else Some (or_empty (contextValue r)))"
  by (simp add: mirror_of_def decodeResource_def encodeResource_def Let_def)

lemma round_positional_step:
  assumes "synced ext sch g mg"
  shows "synced ext sch (fst (round_positional ext sch B (g, mg))) (fst (snd (round_positional ext sch B (g, mg))))"
    and "snd (snd (round_positional ext sch B (g, mg))) = None"
    and "resourceSnapshot (fst (round_positional ext sch B (g, mg))) = array_sort ext (compareResourceStates ext) B"
    and "groupHandle (fst (round_positional ext sch B (g, mg))) = groupHandle g"
  using snapshot_step[OF assms, of B] by (simp_all add: round_positional_def split_beta)

lemma synced_resources:
  assumes "synced ext sch g mg"
  shows "map resHandle (resources mg) = handlesSnapshot g"
    and "list_all2 (\<lambda>res x. \<exists>h r. res = mirror_of ext sch (groupHandle g) (h, r) \<and>
                      cmp_equiv (compareResourceStates ext) r x)
           (resources mg) (resourceSnapshot g)"
proof -
  from assms have r: "resources mg = map (mirror_of ext sch (groupHandle g)) (stored g)"
    and l: "list_all2 (\<lambda>(h, r) x. cmp_equiv (compareResourceStates ext) r x) (stored g) (resourceSnapshot g)"
    by (simp_all add: synced_def)
  show "map resHandle (resources mg) = handlesSnapshot g"
    by (simp add: r stored_def comp_def)
  from l show "list_all2 (\<lambda>res x. \<exists>h r. res = mirror_of ext sch (groupHandle g) (h, r) \<and>
                      cmp_equiv (compareResourceStates ext) r x)
           (resources mg) (resourceSnapshot g)"
    unfolding r list_all2_map1 by (rule list_all2_mono) auto
qed

lemma synced_new: "synced ext sch (new_group gh sch' ident label) (empty_mirror_group sch'' gh')"
  by (simp add: synced_def new_group_def empty_mirror_group_def stored_def)

lemma abc_synced: "synced plain_externals 0 (fst abc_sent) (snd abc_sent)"
  unfolding abc_sent_def abc_round_def fst_conv snd_conv by (rule round_positional_step(1)[OF synced_new])

lemma abc_sorted:
  "insertion_sort (compareResourceStates plain_externals) [file_state ''/c'', file_state ''/a'', file_state ''/b'']
   = [file_state ''/a'', file_state ''/b'', file_state ''/c'']"
  by (simp add: insertion_sort_def compare_strings_def)

lemma abc_snapshot: "resourceSnapshot (fst abc_sent) = [file_state ''/a'', file_state ''/b'', file_state ''/c'']"
  unfolding abc_sent_def abc_round_def fst_conv
  by (simp add: round_positional_step(3)[OF synced_new] abc_sorted)

lemma abc_handles: "map resHandle (resources (snd abc_sent)) = [0, 1, 2]"
proof -
  have D: "sortedDiff [] [file_state ''/a'', file_state ''/b'', file_state ''/c''] (compareResourceStates plain_externals)
      = [Splice 0 0 [file_state ''/a'', file_state ''/b'', file_state ''/c'']]"
    by (simp add: sortedDiff_def pushSplice_def)
  have n: "resourceSnapshot (new_group 0 0 ''changes'' ''Changes'') = []"
    "resourceHandlePool (new_group 0 0 ''changes'' ''Changes'') = 0"
    "groupHandle (new_group 0 0 ''changes'' ''Changes'') = 0"
    by (simp_all add: new_group_def)
  have "map positional (fst (takeResourceStateSnapshot plain_externals
          ((new_group 0 0 ''changes'' ''Changes'')\<lparr>resourceStates := [file_state ''/c'', file_state ''/a'', file_state ''/b'']\<rparr>)))
      = map tuple_splice [Splice 0 0 [encodeResource plain_externals 0 (file_state ''/a''),
            encodeResource plain_externals 1 (file_state ''/b''), encodeResource plain_externals 2 (file_state ''/c'')]]"
    by (simp add: takeSnapshot_fst n abc_sorted D eval_nat_numeral)
  thus ?thesis
    unfolding abc_sent_def abc_round_def round_positional_def
    by (simp add: split_beta n spliceGroup_def applyGroupSlices_tuple mirror_group_splice_def
          array_splice_def empty_mirror_group_def)
qed

lemma only_b: "only_b_splices = map tuple_splice [Splice 0 1 [], Splice 2 1 []]"
proof -
  have D: "sortedDiff [file_state ''/a'', file_state ''/b'', file_state ''/c''] [file_state ''/b'']
     (compareResourceStates plain_externals) = [Splice 0 1 [], Splice 2 1 []]"
    by (simp add: sortedDiff_def pushSplice_def compare_strings_def)
  show ?thesis
    by (simp add: only_b_splices_def takeSnapshot_fst abc_snapshot insertion_sort_def D)
qed

text \<open>
  C1 (amended). The mirror side applies the splices of a batch from the last to the
  first, not from left to right against the list as the splices before have left it.
  This is the reading that fits the splices of the provider side, whose start indices
  refer to the list before the batch. When the splices that the provider side has
  computed reach the mirror group in the positional shape that the mirror side reads,
  the batches keep the mirror group in step with its provider group: when the mirror
  holds what the provider has sent for a declared list \<open>A\<close>, and the list is changed
  to \<open>B\<close> and then to \<open>C\<close>, then neither batch throws, and after the two batches the
  mirror's list has the handles of the provider's handle snapshot, in order, and as many
  elements as \<open>C\<close>, and its element at each position is the resource for a
  state that is linked to the state at that position of the sorted \<open>C\<close> by a chain of
  states comparing equal (the state itself when it was inserted by the last batch).
  Nothing is said here about splices that reach the mirror side in the shape with named
  fields.
\<close>

theorem mirror_follows_snapshots:
  assumes "synced ext sch g mg"
  shows "(let (g1, mg1, err1) = round_positional ext sch B (g, mg);
              (g2, mg2, err2) = round_positional ext sch C (g1, mg1)
          in err1 = None \<and> err2 = None \<and>
             synced ext sch g2 mg2 \<and>
             resourceSnapshot g2 = array_sort ext (compareResourceStates ext) C \<and>
             map resHandle (resources mg2) = handlesSnapshot g2 \<and>
             length (resources mg2) = length C \<and>
             list_all2 (\<lambda>res x. \<exists>h r. res = mirror_of ext sch (groupHandle g) (h, r) \<and>
                                  cmp_equiv (compareResourceStates ext) r x)
               (resources mg2) (array_sort ext (compareResourceStates ext) C)) \<and>
         spliceGroup sch' gh (map tuple_splice T) mg'
           = (mg'\<lparr>resources :=
                    apply_splices (rev (map (map_splice (decodeResource sch' gh)) T)) (resources mg')\<rparr>,
              map (\<lambda>sp. DidSplice gh (start sp) (deleteCount sp) (length (toInsert sp))) (rev T),
              None)"
proof (rule conjI)
  obtain g1 mg1 err1 where p1: "round_positional ext sch B (g, mg) = (g1, mg1, err1)"
    by (metis prod.exhaust)
  obtain g2 mg2 err2 where p2: "round_positional ext sch C (g1, mg1) = (g2, mg2, err2)"
    by (metis prod.exhaust)
  from round_positional_step[OF assms, of B] p1 have s1: "synced ext sch g1 mg1" and e1: "err1 = None"
    and h1: "groupHandle g1 = groupHandle g"
    by simp_all
  from round_positional_step[OF s1, of C] p2 have s2: "synced ext sch g2 mg2" and e2: "err2 = None"
    and r2: "resourceSnapshot g2 = array_sort ext (compareResourceStates ext) C"
    and h2: "groupHandle g2 = groupHandle g1"
    by simp_all
  from synced_resources[OF s2] have m: "map resHandle (resources mg2) = handlesSnapshot g2"
    and l: "list_all2 (\<lambda>res x. \<exists>h r. res = mirror_of ext sch (groupHandle g) (h, r) \<and>
                                 cmp_equiv (compareResourceStates ext) r x)
              (resources mg2) (array_sort ext (compareResourceStates ext) C)"
    by (simp_all add: r2 h1 h2)
  have "length (resources mg2) = length (array_sort ext (compareResourceStates ext) C)"
    using l by (rule list_all2_lengthD)
  hence "length (resources mg2) = length C" by simp
  with s2 r2 m l e1 e2
  show "let (g1, mg1, err1) = round_positional ext sch B (g, mg);
            (g2, mg2, err2) = round_positional ext sch C (g1, mg1)
        in err1 = None \<and> err2 = None \<and>
           synced ext sch g2 mg2 \<and>
           resourceSnapshot g2 = array_sort ext (compareResourceStates ext) C \<and>
           map resHandle (resources mg2) = handlesSnapshot g2 \<and>
           length (resources mg2) = length C \<and>
           list_all2 (\<lambda>res x. \<exists>h r. res = mirror_of ext sch (groupHandle g) (h, r) \<and>
                                cmp_equiv (compareResourceStates ext) r x)
             (resources mg2) (array_sort ext (compareResourceStates ext) C)"
    by (simp add: p1 p2)
next
  show "spliceGroup sch' gh (map tuple_splice T) mg'
           = (mg'\<lparr>resources :=
                    apply_splices (rev (map (map_splice (decodeResource sch' gh)) T)) (resources mg')\<rparr>,
              map (\<lambda>sp. DidSplice gh (start sp) (deleteCount sp) (length (toInsert sp))) (rev T),
              None)"
    by (rule spliceGroup_tuples)
qed

theorem mirror_follows_snapshots_witness:
  "synced plain_externals 0 (fst abc_sent) (snd abc_sent) \<and>
   (let (g1, mg1, err1) = round_positional plain_externals 0 [file_state ''/b''] abc_sent;
        (g2, mg2, err2) = round_positional plain_externals 0 [file_state ''/d'', file_state ''/b''] (g1, mg1)
    in err1 = None \<and> err2 = None \<and>
       synced plain_externals 0 g2 mg2 \<and>
       resourceSnapshot g2 = [file_state ''/b'', file_state ''/d''] \<and>
       map resHandle (resources mg2) = handlesSnapshot g2 \<and>
       length (resources mg2) = 2)"
proof -
  have s: "insertion_sort (compareResourceStates plain_externals) [file_state ''/d'', file_state ''/b'']
      = [file_state ''/b'', file_state ''/d'']"
    by (simp add: insertion_sort_def compare_strings_def)
  obtain g1 mg1 err1 where p1: "round_positional plain_externals 0 [file_state ''/b''] abc_sent = (g1, mg1, err1)"
    by (metis prod.exhaust)
  obtain g2 mg2 err2 where p2:
    "round_positional plain_externals 0 [file_state ''/d'', file_state ''/b''] (g1, mg1) = (g2, mg2, err2)"
    by (metis prod.exhaust)
  from mirror_follows_snapshots[OF abc_synced, of "[file_state ''/b'']" "[file_state ''/d'', file_state ''/b'']",
      THEN conjunct1]
  have "err1 = None \<and> err2 = None \<and> synced plain_externals 0 g2 mg2 \<and>
       resourceSnapshot g2 = [file_state ''/b'', file_state ''/d''] \<and>
       map resHandle (resources mg2) = handlesSnapshot g2 \<and>
       length (resources mg2) = 2"
    by (simp add: p1 p2 s eval_nat_numeral)
  with abc_synced show ?thesis by (simp add: p1 p2)
qed

text \<open>
  C1, as stated, fails. Left-to-right sequential application of the splices of a batch
  gives another list: for the sent list \<open>/a, /b, /c\<close> and the next declared list \<open>/b\<close>
  the splices are "delete one at 0" and "delete one at 2"; the mirror ends with the
  resource of handle \<open>1\<close>, the sequential reading with those of handles \<open>1\<close> and \<open>2\<close>.
  And the mirror does not end with exactly the new list: when the file \<open>/a\<close> is
  declared again with a context value, the new state compares equal to the old one, there
  is no splice, and the mirror keeps the resource without the context value.
\<close>

theorem sequential_reading_differs:
  "map resHandle (resources (fst (spliceGroup 0 0 only_b_splices (snd abc_sent)))) = [1] \<and>
   map resHandle (resources (fst (spliceGroup_sequential 0 0 only_b_splices (snd abc_sent)))) = [1, 2] \<and>
   fst (takeResourceStateSnapshot plain_externals ((fst a_round)\<lparr>resourceStates := [staged_a]\<rparr>)) = [] \<and>
   map contextValue (resourceSnapshot (fst staged_round)) = [Some ''staged''] \<and>
   map resContextValue (resources (fst (snd staged_round))) = [None]"
proof -
  have 1: "map resHandle (resources (fst (spliceGroup 0 0 only_b_splices (snd abc_sent)))) = [1]"
    using abc_handles
    by (simp add: only_b spliceGroup_def applyGroupSlices_tuple mirror_group_splice_def array_splice_def
          take_map drop_map flip: take_map drop_map)
  have 2: "map resHandle (resources (fst (spliceGroup_sequential 0 0 only_b_splices (snd abc_sent)))) = [1, 2]"
    using abc_handles
    by (simp add: only_b spliceGroup_sequential_def applyGroupSlices_tuple mirror_group_splice_def
          array_splice_def take_map drop_map flip: take_map drop_map)
  have n: "resourceSnapshot (new_group 0 0 ''changes'' ''Changes'') = []"
    "resourceHandlePool (new_group 0 0 ''changes'' ''Changes'') = 0"
    "groupHandle (new_group 0 0 ''changes'' ''Changes'') = 0"
    by (simp_all add: new_group_def)
  have sa: "synced plain_externals 0 (fst a_round) (fst (snd a_round))"
    unfolding a_round_def by (rule round_positional_step(1)[OF synced_new])
  have snap: "resourceSnapshot (fst a_round) = [file_state ''/a'']"
    unfolding a_round_def by (simp add: round_positional_step(3)[OF synced_new] insertion_sort_def)
  have D0: "sortedDiff [] [file_state ''/a''] (compareResourceStates plain_externals) = [Splice 0 0 [file_state ''/a'']]"
    by (simp add: sortedDiff_def pushSplice_def)
  have res_a: "resources (fst (snd a_round)) = [mirror_of plain_externals 0 0 (0, file_state ''/a'')]"
    unfolding a_round_def round_positional_def
    by (simp add: split_beta takeSnapshot_fst n insertion_sort_def D0 spliceGroup_def applyGroupSlices_tuple
          mirror_group_splice_def array_splice_def empty_mirror_group_def mirror_of_def)
  have D: "sortedDiff [file_state ''/a''] [staged_a] (compareResourceStates plain_externals) = []"
    by (simp add: sortedDiff_def pushSplice_def)
  have 3: "fst (takeResourceStateSnapshot plain_externals ((fst a_round)\<lparr>resourceStates := [staged_a]\<rparr>)) = []"
    by (simp add: takeSnapshot_fst snap insertion_sort_def D)
  have 4: "map contextValue (resourceSnapshot (fst staged_round)) = [Some ''staged'']"
    unfolding staged_round_def
    by (simp add: round_positional_step(3)[OF sa] insertion_sort_def staged_a_def)
  have 5: "map resContextValue (resources (fst (snd staged_round))) = [None]"
    unfolding staged_round_def round_positional_def
    by (simp add: split_beta 3 spliceGroup_def res_a file_state_def or_empty_def)
  from 1 2 3 4 5 show ?thesis by simp
qed

section \<open>Commands of resource states\<close>

text \<open>
  C9. A resource state that carries a command is encoded under the next handle of its
  group. If the identifier of the command is \<open>theia.open\<close> or \<open>theia.diff\<close>, the
  encoded resource carries the descriptor that the command converter makes of it, and a
  disposable is kept under the handle. Any other command does not cross: the encoded
  resource has no command, the command is kept under the handle, and
  \<open>$executeResourceCommand\<close> with that handle runs it with its own arguments followed by
  the \<open>preserveFocus\<close> flag; once the handle is deleted it runs nothing. The mirror
  side hands the command of the encoded resource on as it is.
\<close>

theorem commands_cross_by_kind:
  assumes "resourceCommand r = Some c"
  shows "let ((raw, h), g') = insertResource ext r g
         in h = resourceHandlePool g \<and> rawHandle raw = h \<and>
            resCommand (decodeResource sch gh raw) = rawCommand raw \<and>
            (trusted_command c \<longrightarrow>
               rawCommand raw = Some (toSafeCommand ext c) \<and>
               h \<in> resourceStatesDisposablesMap g' \<and>
               resourceStatesCommandsMap g' = resourceStatesCommandsMap g) \<and>
            (\<not> trusted_command c \<longrightarrow>
               rawCommand raw = None \<and>
               group_executeResourceCommand g' h preserveFocus
                 = Some (command c, (case arguments c of None \<Rightarrow> [] | Some as \<Rightarrow> as) @ [JBool preserveFocus]) \<and>
               group_executeResourceCommand (deleteHandles [h] g') h preserveFocus = None)"
  using assms
  by (simp add: insertResource_def encodeResource_def decodeResource_def group_executeResourceCommand_def Let_def)

theorem commands_cross_by_kind_witness:
  "(resourceCommand ((file_state ''a'')\<lparr>resourceCommand := Some open_change\<rparr>) = Some open_change \<and>
   \<not> trusted_command open_change \<and>
   (let ((raw, h), g') = insertResource plain_externals ((file_state ''a'')\<lparr>resourceCommand := Some open_change\<rparr>)
                           (new_group 0 0 ''changes'' ''Changes'')
    in h = 0 \<and> rawCommand raw = None \<and>
       group_executeResourceCommand g' h True = Some (Some ''git.openChange'', [JStr ''a'', JBool True]))) \<and>
   (resourceCommand ((file_state ''a'')\<lparr>resourceCommand := Some (open_change\<lparr>command := Some ''theia.open''\<rparr>)\<rparr>)
     = Some (open_change\<lparr>command := Some ''theia.open''\<rparr>) \<and>
   trusted_command (open_change\<lparr>command := Some ''theia.open''\<rparr>) \<and>
   (let ((raw, h), g') = insertResource plain_externals
          ((file_state ''a'')\<lparr>resourceCommand := Some (open_change\<lparr>command := Some ''theia.open''\<rparr>)\<rparr>)
          (new_group 0 0 ''changes'' ''Changes'')
    in rawCommand raw = Some (open_change\<lparr>command := Some ''theia.open''\<rparr>) \<and>
       group_executeResourceCommand g' h True = None))"
proof -
  have untrusted:
    "resourceCommand ((file_state ''a'')\<lparr>resourceCommand := Some open_change\<rparr>) = Some open_change \<and>
   \<not> trusted_command open_change \<and>
   (let ((raw, h), g') = insertResource plain_externals ((file_state ''a'')\<lparr>resourceCommand := Some open_change\<rparr>)
                           (new_group 0 0 ''changes'' ''Changes'')
    in h = 0 \<and> rawCommand raw = None \<and>
       group_executeResourceCommand g' h True = Some (Some ''git.openChange'', [JStr ''a'', JBool True]))"
  proof -
    have h: "resourceCommand ((file_state ''a'')\<lparr>resourceCommand := Some open_change\<rparr>) = Some open_change"
      by simp
    have t: "\<not> trusted_command open_change" by (simp add: trusted_command_def open_change_def)
    obtain raw h' g' where X: "insertResource plain_externals ((file_state ''a'')\<lparr>resourceCommand := Some open_change\<rparr>)
                (new_group 0 0 ''changes'' ''Changes'') = ((raw, h'), g')"
      by (metis prod.exhaust)
    from commands_cross_by_kind[OF h, of plain_externals "new_group 0 0 ''changes'' ''Changes''" 0 0 True] t
    have a: "h' = resourceHandlePool (new_group 0 0 ''changes'' ''Changes'')"
      "rawCommand raw = None"
      "group_executeResourceCommand g' h' True
         = Some (command open_change, (case arguments open_change of None \<Rightarrow> [] | Some as \<Rightarrow> as) @ [JBool True])"
      unfolding X by auto
    have b: "resourceHandlePool (new_group 0 0 ''changes'' ''Changes'') = 0" by (simp add: new_group_def)
    have c: "command open_change = Some ''git.openChange''" "arguments open_change = Some [JStr ''a'']"
      by (simp_all add: open_change_def)
    from h t a show ?thesis unfolding X by (simp add: b c)
  qed
  have trusted:
    "resourceCommand ((file_state ''a'')\<lparr>resourceCommand := Some (open_change\<lparr>command := Some ''theia.open''\<rparr>)\<rparr>)
     = Some (open_change\<lparr>command := Some ''theia.open''\<rparr>) \<and>
   trusted_command (open_change\<lparr>command := Some ''theia.open''\<rparr>) \<and>
   (let ((raw, h), g') = insertResource plain_externals
          ((file_state ''a'')\<lparr>resourceCommand := Some (open_change\<lparr>command := Some ''theia.open''\<rparr>)\<rparr>)
          (new_group 0 0 ''changes'' ''Changes'')
    in rawCommand raw = Some (open_change\<lparr>command := Some ''theia.open''\<rparr>) \<and>
       group_executeResourceCommand g' h True = None)"
  proof -
    let ?c = "open_change\<lparr>command := Some ''theia.open''\<rparr>"
    have h: "resourceCommand ((file_state ''a'')\<lparr>resourceCommand := Some ?c\<rparr>) = Some ?c" by simp
    have t: "trusted_command ?c" by (simp add: trusted_command_def)
    obtain raw h' g' where X: "insertResource plain_externals ((file_state ''a'')\<lparr>resourceCommand := Some ?c\<rparr>)
                (new_group 0 0 ''changes'' ''Changes'') = ((raw, h'), g')"
      by (metis prod.exhaust)
    from commands_cross_by_kind[OF h, of plain_externals "new_group 0 0 ''changes'' ''Changes''" 0 0 True] t
    have a: "rawCommand raw = Some (toSafeCommand plain_externals ?c)"
      "resourceStatesCommandsMap g' = resourceStatesCommandsMap (new_group 0 0 ''changes'' ''Changes'')"
      unfolding X by auto
    have b: "toSafeCommand plain_externals ?c = ?c" by (simp add: plain_externals_def)
    have c: "resourceStatesCommandsMap (new_group 0 0 ''changes'' ''Changes'') = Map.empty" by (simp add: new_group_def)
    from h t a show ?thesis unfolding X by (simp add: b c group_executeResourceCommand_def)
  qed
  from untrusted trusted show ?thesis by (rule conjI)
qed

section \<open>The two flushes of a source control\<close>

lemma deleteHandles_fields [simp]:
  "groupHandle (deleteHandles hs g) = groupHandle g"
  "resourceHandlePool (deleteHandles hs g) = resourceHandlePool g"
  "updateListener (deleteHandles hs g) = updateListener g"
  "createdListener (deleteHandles hs g) = createdListener g"
  "disposeListener (deleteHandles hs g) = disposeListener g"
  by (induction hs arbitrary: g; simp)+

lemma spliceHandles_fields [simp]:
  "groupHandle (spliceHandles T g) = groupHandle g"
  "resourceHandlePool (spliceHandles T g) = resourceHandlePool g"
  "updateListener (spliceHandles T g) = updateListener g"
  "createdListener (spliceHandles T g) = createdListener g"
  "disposeListener (spliceHandles T g) = disposeListener g"
  by (induction T arbitrary: g; simp add: split_beta)+

lemma insertResources_fields [simp]:
  "updateListener (snd (insertResources ext rs g)) = updateListener g"
  "createdListener (snd (insertResources ext rs g)) = createdListener g"
  "disposeListener (snd (insertResources ext rs g)) = disposeListener g"
  by (induction rs arbitrary: g; simp add: split_beta insertResource_def Let_def split: option.splits)+

lemma handleSplices_fields [simp]:
  "updateListener (snd (handleSplices ext D g)) = updateListener g"
  "createdListener (snd (handleSplices ext D g)) = createdListener g"
  "disposeListener (snd (handleSplices ext D g)) = disposeListener g"
  by (induction D arbitrary: g; simp add: split_beta)+

lemma takeSnapshot_fields [simp]:
  "groupHandle (snd (takeResourceStateSnapshot ext g)) = groupHandle g"
  "updateListener (snd (takeResourceStateSnapshot ext g)) = updateListener g"
  "createdListener (snd (takeResourceStateSnapshot ext g)) = createdListener g"
  "disposeListener (snd (takeResourceStateSnapshot ext g)) = disposeListener g"
  by (simp_all add: takeResourceStateSnapshot_def Let_def split_beta handleSplices_snd)

lemma takeSnapshot_nothing:
  "resourceStates g = [] \<Longrightarrow> resourceSnapshot g = [] \<Longrightarrow> takeResourceStateSnapshot ext g = ([], g)"
  by (simp add: takeResourceStateSnapshot_def Let_def sortedDiff_def pushSplice_def)

lemma two_controls_git:
  "\<exists>sc. sourceControls two_controls 0 = Some sc \<and> scHandle sc = 0 \<and> createdResourceGroups sc = [] \<and>
        updatedResourceGroups sc = [] \<and> groups sc = []"
  "groupHandlePool two_controls = 0"
  by (simp_all add: two_controls_def demo_run_def api_step_def createSourceControl_def initial_ext_def Let_def)

lemma createResourceGroup_new:
  assumes "sourceControls w k = Some sc" and "createdResourceGroups sc = []"
  shows "\<exists>w' sc' g'. createResourceGroup ext k ident label w
           = (groupHandlePool w, w', [register_one (scHandle sc) (groupHandlePool w, ident, label)]) \<and>
         sourceControls w' k = Some sc' \<and> scHandle sc' = scHandle sc \<and>
         createdResourceGroups sc' = [] \<and> updatedResourceGroups sc' = updatedResourceGroups sc \<and>
         groupHandlePool w' = groupHandlePool w + 1 \<and>
         groupObjects w' (groupHandlePool w) = Some g' \<and> groupOwner w' (groupHandlePool w) = Some k \<and>
         updateListener g' \<and> groupHandle g' = groupHandlePool w \<and>
         resourceStates g' = [] \<and> resourceSnapshot g' = [] \<and> resourceHandlePool g' = 0"
proof -
  let ?g = "(new_group (groupHandlePool w) (scHandle sc) ident label)\<lparr>createdListener := True\<rparr>"
  have "takeResourceStateSnapshot ext (?g\<lparr>createdListener := False, updateListener := True, disposeListener := True\<rparr>)
      = ([], ?g\<lparr>createdListener := False, updateListener := True, disposeListener := True\<rparr>)"
    by (rule takeSnapshot_nothing) (simp_all add: new_group_def)
  thus ?thesis using assms
    by (simp add: createResourceGroup_def eventuallyAddResourceGroups_def Let_def set_add_def
          register_one_def new_group_def group_features_of_def prop_of_def)
qed

lemma createResourceGroups_effects:
  assumes "sourceControls w k = Some sc" and "createdResourceGroups sc = []"
  shows "snd (createResourceGroups ext k specs w)
       = map (register_one (scHandle sc)) (zip [groupHandlePool w..<groupHandlePool w + length specs] specs)"
  using assms
proof (induction specs arbitrary: w sc)
  case Nil show ?case by simp
next
  case (Cons spec specs)
  obtain ident label where spec: "spec = (ident, label)" by (cases spec)
  from createResourceGroup_new[OF Cons.prems, of ext ident label]
  obtain w' sc' where c: "createResourceGroup ext k ident label w
           = (groupHandlePool w, w', [register_one (scHandle sc) (groupHandlePool w, ident, label)])"
    and s: "sourceControls w' k = Some sc'" "createdResourceGroups sc' = []"
    and e: "scHandle sc' = scHandle sc" "groupHandlePool w' = groupHandlePool w + 1"
    by blast
  have u: "[groupHandlePool w..<groupHandlePool w + length (spec # specs)]
      = groupHandlePool w # [groupHandlePool w'..<groupHandlePool w' + length specs]"
    by (simp add: e upt_rec)
  show ?case
    unfolding u using Cons.IH[OF s] by (simp add: spec c e split_beta)
qed

lemma eventuallyUpdate_nothing_marked:
  assumes "sourceControls w k = Some sc" and "updatedResourceGroups sc = []"
  shows "eventuallyUpdateResourceStates ext k w = (w, [])"
proof -
  have "sc\<lparr>updatedResourceGroups := []\<rparr> = sc" using assms(2) by simp
  thus ?thesis using assms by (simp add: eventuallyUpdateResourceStates_def map_upd_triv)
qed

lemma setResourceStates_effects:
  assumes "sourceControls w k = Some sc" and "updatedResourceGroups sc = []"
    and "groupObjects w gh = Some g" and "updateListener g" and "groupOwner w gh = Some k"
  shows "snd (setResourceStates ext gh rs w)
       = (let sp = fst (takeResourceStateSnapshot ext (g\<lparr>resourceStates := rs\<rparr>))
          in if sp = [] then [] else [Send (SpliceResourceStates (scHandle sc) [SplicesObject (groupHandle g) sp])])"
  using assms
  by (simp add: setResourceStates_def eventuallyUpdateResourceStates_def set_add_def Let_def split_beta)

lemma updateLoop_nothing:
  "distinct ghs \<Longrightarrow>
   (\<forall>gh \<in> set ghs. \<forall>g. groupObjects w gh = Some g \<longrightarrow> fst (takeResourceStateSnapshot ext g) = []) \<Longrightarrow>
   snd (updateResourceStates_loop ext ghs w splices) = splices"
proof (induction ghs arbitrary: w)
  case Nil show ?case by simp
next
  case (Cons gh ghs)
  show ?case
  proof (cases "groupObjects w gh")
    case None
    with Cons show ?thesis by simp
  next
    case (Some g)
    let ?w' = "w\<lparr>groupObjects := (groupObjects w)(gh \<mapsto> snd (takeResourceStateSnapshot ext g))\<rparr>"
    from Cons.prems Some have e: "fst (takeResourceStateSnapshot ext g) = []" by simp
    have "\<forall>gh' \<in> set ghs. \<forall>g. groupObjects ?w' gh' = Some g \<longrightarrow> fst (takeResourceStateSnapshot ext g) = []"
      using Cons.prems by auto
    with Cons.IH[of ?w'] Cons.prems(1) have "snd (updateResourceStates_loop ext ghs ?w' splices) = splices"
      by simp
    thus ?thesis using Some e by (simp add: split_beta)
  qed
qed

lemma addLoop_keeps_control:
  "sourceControls w k = Some sc \<Longrightarrow>
   \<exists>sc'. sourceControls (fst (addResourceGroups_loop ext k ghs w gs splices)) k = Some sc' \<and>
         scHandle sc' = scHandle sc"
proof (induction ghs arbitrary: w sc gs splices)
  case Nil thus ?case by simp
next
  case (Cons gh ghs)
  show ?case
  proof (cases "groupObjects w gh")
    case None
    with Cons.IH[OF Cons.prems] Cons.prems show ?thesis by simp
  next
    case (Some g)
    let ?g2 = "snd (takeResourceStateSnapshot ext (g\<lparr>createdListener := False, updateListener := True, disposeListener := True\<rparr>))"
    let ?sc' = "sc\<lparr>groups := set_add (groupHandle ?g2) (groups sc)\<rparr>"
    let ?w' = "w\<lparr>groupObjects := (groupObjects w)(gh \<mapsto> ?g2), sourceControls := (sourceControls w)(k \<mapsto> ?sc')\<rparr>"
    have "sourceControls ?w' k = Some ?sc'" by simp
    from Cons.IH[OF this] show ?thesis using Some Cons.prems by (simp add: split_beta Let_def)
  qed
qed

lemma eventuallyAdd_one_message:
  assumes "sourceControls w k = Some sc"
  shows "\<exists>gs splices. snd (eventuallyAddResourceGroups ext k w) = [Send (RegisterGroups (scHandle sc) gs splices)]"
proof -
  obtain w1 gs splices where l: "addResourceGroups_loop ext k (createdResourceGroups sc) w [] [] = (w1, gs, splices)"
    by (metis prod.exhaust)
  from addLoop_keeps_control[OF assms, of ext "createdResourceGroups sc" "[]" "[]"] l
  obtain sc' where "sourceControls w1 k = Some sc'" "scHandle sc' = scHandle sc" by auto
  thus ?thesis using assms l by (simp add: eventuallyAddResourceGroups_def)
qed

lemma eventuallyAdd_nothing_created:
  assumes "sourceControls w k = Some sc" and "createdResourceGroups sc = []"
  shows "snd (eventuallyAddResourceGroups ext k w) = [Send (RegisterGroups (scHandle sc) [] [])]"
  using assms by (simp add: eventuallyAddResourceGroups_def)

lemma one_group_facts:
  "\<exists>sc g. sourceControls one_group 0 = Some sc \<and> scHandle sc = 0 \<and>
          createdResourceGroups sc = [] \<and> updatedResourceGroups sc = [] \<and>
          groupHandlePool one_group = 1 \<and>
          groupObjects one_group 0 = Some g \<and> groupOwner one_group 0 = Some 0 \<and>
          updateListener g \<and> groupHandle g = 0 \<and>
          resourceStates g = [] \<and> resourceSnapshot g = [] \<and> resourceHandlePool g = 0"
proof -
  from two_controls_git obtain sc where sc: "sourceControls two_controls 0 = Some sc" "scHandle sc = 0"
    "createdResourceGroups sc = []" "updatedResourceGroups sc = []" by blast
  from createResourceGroup_new[OF sc(1,3), of plain_externals "''changes''" "''Changes''"]
  show ?thesis
    unfolding one_group_def by (auto simp: sc two_controls_git(2))
qed

lemma first_state_splices:
  assumes "resourceSnapshot g = []" and "resourceHandlePool g = 0"
  shows "fst (takeResourceStateSnapshot plain_externals (g\<lparr>resourceStates := [file_state ''a'']\<rparr>))
       = [SpliceObject 0 0 [ResourceObject (encodeResource plain_externals 0 (file_state ''a''))]]"
  using assms by (simp add: takeSnapshot_fst insertion_sort_def sortedDiff_def pushSplice_def object_splice_def)

text \<open>
  C2 (amended). The two coalescing operations of a source control run inside the call
  that schedules them. With nothing pending before: creating \<open>N\<close> groups in a row sends
  \<open>N\<close> \<open>$registerGroups\<close> messages, the \<open>i\<close>-th carrying the \<open>i\<close>-th group alone and no
  splices; assigning the resource states of a registered group sends one
  \<open>$spliceResourceStates\<close> message that covers this group alone, or none when the
  splice set is empty; and running the update again with no group marked sends nothing
  and changes nothing.
\<close>

theorem flushes_run_at_once:
  assumes "sourceControls w k = Some sc" and "createdResourceGroups sc = []"
    and "updatedResourceGroups sc = []"
  shows "snd (createResourceGroups ext k specs w)
           = map (register_one (scHandle sc))
               (zip [groupHandlePool w..<groupHandlePool w + length specs] specs) \<and>
         (groupObjects w gh = Some g \<and> updateListener g \<and> groupOwner w gh = Some k \<longrightarrow>
            snd (setResourceStates ext gh rs w)
              = (let sp = fst (takeResourceStateSnapshot ext (g\<lparr>resourceStates := rs\<rparr>))
                 in if sp = [] then []
                    else [Send (SpliceResourceStates (scHandle sc) [SplicesObject (groupHandle g) sp])])) \<and>
         eventuallyUpdateResourceStates ext k w = (w, [])"
  using createResourceGroups_effects[OF assms(1,2)] setResourceStates_effects[OF assms(1,3)]
    eventuallyUpdate_nothing_marked[OF assms(1,3)]
  by blast

theorem flushes_run_at_once_witness:
  "(\<exists>sc. sourceControls one_group 0 = Some sc \<and> createdResourceGroups sc = [] \<and>
         updatedResourceGroups sc = []) \<and>
   (\<exists>g. groupObjects one_group 0 = Some g \<and> updateListener g) \<and> groupOwner one_group 0 = Some 0 \<and>
   snd (createResourceGroups plain_externals 0 [(''index'', ''Staged'')] one_group)
     = [Send (RegisterGroups 0 [(1, ''index'', ''Staged'', \<lparr>featHideWhenEmpty = KeyUndefined\<rparr>)] [])] \<and>
   snd (setResourceStates plain_externals 0 [file_state ''a''] one_group)
     = [Send (SpliceResourceStates 0
               [SplicesObject 0
                  [SpliceObject 0 0 [ResourceObject (encodeResource plain_externals 0 (file_state ''a''))]]])] \<and>
   eventuallyUpdateResourceStates plain_externals 0 one_group = (one_group, [])"
proof -
  from one_group_facts obtain sc g where f: "sourceControls one_group 0 = Some sc" "scHandle sc = 0"
    "createdResourceGroups sc = []" "updatedResourceGroups sc = []" "groupHandlePool one_group = 1"
    "groupObjects one_group 0 = Some g" "groupOwner one_group 0 = Some 0"
    "updateListener g" "groupHandle g = 0" "resourceSnapshot g = []" "resourceHandlePool g = 0"
    by blast
  from flushes_run_at_once[OF f(1,3,4), of plain_externals "[(''index'', ''Staged'')]" 0 g "[file_state ''a'']"]
    f first_state_splices[OF f(10,11)]
  show ?thesis by (simp add: register_one_def)
qed

text \<open>
  C2, as stated, fails: two groups created in a row give two \<open>$registerGroups\<close>
  messages, each with one group.
\<close>

theorem two_groups_two_messages:
  "two_groups_effects
   = [Send (RegisterGroups 0 [(0, ''index'', ''Staged'', \<lparr>featHideWhenEmpty = KeyUndefined\<rparr>)] []),
      Send (RegisterGroups 0 [(1, ''changes'', ''Changes'', \<lparr>featHideWhenEmpty = KeyUndefined\<rparr>)] [])]"
proof -
  from two_controls_git obtain sc where sc: "sourceControls two_controls 0 = Some sc" "scHandle sc = 0"
    "createdResourceGroups sc = []" by blast
  have "[0..<2] = [0, 1::nat]" by (simp add: upt_rec)
  with createResourceGroups_effects[OF sc(1,3), of plain_externals "[(''index'', ''Staged''), (''changes'', ''Changes'')]"]
  show ?thesis by (simp add: two_groups_effects_def sc(2) two_controls_git(2) register_one_def)
qed

lemma marked_facts:
  "\<exists>sc g. sourceControls (mark_updated 0 0 one_group) 0 = Some sc \<and> scHandle sc = 0 \<and>
          createdResourceGroups sc = [] \<and> updatedResourceGroups sc = [0] \<and>
          groupObjects (mark_updated 0 0 one_group) 0 = Some g \<and>
          resourceStates g = [] \<and> resourceSnapshot g = []"
  using one_group_facts by (auto simp: mark_updated_def set_add_def)

lemma eventuallyUpdate_nothing:
  assumes "sourceControls w k = Some sc" and "distinct (updatedResourceGroups sc)"
    and "\<forall>gh \<in> set (updatedResourceGroups sc). \<forall>g. groupObjects w gh = Some g \<longrightarrow>
           fst (takeResourceStateSnapshot ext g) = []"
  shows "snd (eventuallyUpdateResourceStates ext k w) = []"
proof -
  have "snd (updateResourceStates_loop ext (updatedResourceGroups sc) w []) = []"
    using updateLoop_nothing[of "updatedResourceGroups sc" w ext "[]"] assms(2,3) by blast
  thus ?thesis using assms(1) by (simp add: eventuallyUpdateResourceStates_def split_beta)
qed

lemma updateLoop_nonempty:
  "list_all (\<lambda>s. splices_slices s \<noteq> []) splices \<Longrightarrow>
   list_all (\<lambda>s. splices_slices s \<noteq> []) (snd (updateResourceStates_loop ext ghs w splices))"
  by (induction ghs arbitrary: w splices)
     (auto simp: split_beta splices_slices_def split: option.splits)

lemma addLoop_nonempty:
  "list_all (\<lambda>s. splices_slices s \<noteq> []) splices \<Longrightarrow>
   list_all (\<lambda>s. splices_slices s \<noteq> []) (snd (snd (addResourceGroups_loop ext k ghs w gs splices)))"
  by (induction ghs arbitrary: w gs splices)
     (auto simp: split_beta Let_def splices_slices_def split: option.splits)

lemma addLoop_groups_stay:
  "gs \<noteq> [] \<Longrightarrow> fst (snd (addResourceGroups_loop ext k ghs w gs splices)) \<noteq> []"
  by (induction ghs arbitrary: w gs splices) (auto simp: split_beta Let_def split: option.splits)

lemma addLoop_pending:
  "gh \<in> set ghs \<Longrightarrow> groupObjects w gh \<noteq> None \<Longrightarrow> sourceControls w k \<noteq> None \<Longrightarrow>
   fst (snd (addResourceGroups_loop ext k ghs w gs splices)) \<noteq> []"
proof (induction ghs arbitrary: w gs splices)
  case Nil thus ?case by simp
next
  case (Cons x ghs)
  from Cons.prems(3) obtain sc where sc: "sourceControls w k = Some sc" by auto
  show ?case
  proof (cases "groupObjects w x")
    case None
    with Cons.prems have "gh \<in> set ghs" by auto
    from Cons.IH[OF this Cons.prems(2,3)] None show ?thesis by simp
  next
    case (Some g)
    thus ?thesis using sc by (simp add: split_beta Let_def addLoop_groups_stay)
  qed
qed

lemma carries_createSourceControl:
  "list_all carries_change (snd (snd (createSourceControl ident label rootUri w)))"
  by (simp add: createSourceControl_def carries_change_def Let_def)

lemma carries_createResourceGroup:
  "list_all carries_change (snd (snd (createResourceGroup ext k ident label w)))"
proof (cases "sourceControls w k")
  case None thus ?thesis by (simp add: createResourceGroup_def)
next
  case (Some sc)
  let ?gh = "groupHandlePool w"
  let ?g = "(new_group ?gh (scHandle sc) ident label)\<lparr>createdListener := True\<rparr>"
  let ?sc1 = "sc\<lparr>createdResourceGroups := set_add ?gh (createdResourceGroups sc)\<rparr>"
  let ?w1 = "w\<lparr>groupHandlePool := ?gh + 1,
                groupObjects := (groupObjects w)(?gh \<mapsto> ?g),
                groupOwner := (groupOwner w)(?gh \<mapsto> k),
                sourceControls := (sourceControls w)(k \<mapsto> ?sc1)\<rparr>"
  let ?L = "addResourceGroups_loop ext k (createdResourceGroups ?sc1) ?w1 [] []"
  have pending: "?gh \<in> set (createdResourceGroups ?sc1)" by (simp add: set_add_def)
  have gs: "fst (snd ?L) \<noteq> []"
    by (rule addLoop_pending[OF pending]) simp_all
  have sp: "list_all (\<lambda>s. splices_slices s \<noteq> []) (snd (snd ?L))"
    by (rule addLoop_nonempty) simp
  have "snd (eventuallyAddResourceGroups ext k ?w1) = []
      \<or> (\<exists>h. snd (eventuallyAddResourceGroups ext k ?w1) = [Send (RegisterGroups h (fst (snd ?L)) (snd (snd ?L)))])"
    by (simp add: eventuallyAddResourceGroups_def split_beta split: option.splits)
  hence "list_all carries_change (snd (eventuallyAddResourceGroups ext k ?w1))"
    using gs sp by (auto simp: carries_change_def)
  thus ?thesis using Some by (simp add: createResourceGroup_def Let_def split_beta)
qed

lemma carries_eventuallyUpdate:
  "list_all carries_change (snd (eventuallyUpdateResourceStates ext k w))"
  using updateLoop_nonempty[of "[]" ext _ w]
  by (simp add: eventuallyUpdateResourceStates_def split_beta carries_change_def split: option.splits)

lemma carries_setResourceStates:
  "list_all carries_change (snd (setResourceStates ext gh rs w))"
  by (simp add: setResourceStates_def Let_def carries_eventuallyUpdate split: option.splits)

lemma carries_disposeGroup:
  "list_all carries_change (snd (disposeGroup gh w :: scm_ext \<times> 'c provider_effect list))"
  by (simp add: disposeGroup_def Let_def carries_change_def split: option.splits)

lemma carries_disposeGroups:
  "list_all carries_change (snd (disposeGroups ghs w :: scm_ext \<times> 'c provider_effect list))"
  by (induction ghs arbitrary: w) (simp_all add: split_beta carries_disposeGroup)

lemma carries_disposeSourceControl:
  "list_all carries_change (snd (disposeSourceControl k w :: scm_ext \<times> 'c provider_effect list))"
  by (simp add: disposeSourceControl_def split_beta carries_disposeGroups carries_change_def
        split: option.splits)

lemma carries_api_step: "list_all carries_change (snd (api_step ext op w))"
  by (cases op)
     (simp_all add: api_step_def carries_createSourceControl carries_createResourceGroup
        carries_setResourceStates carries_disposeGroup carries_disposeSourceControl)

lemma carries_api_run: "list_all carries_change (snd (api_run ext ops w))"
  by (induction ops arbitrary: w) (simp_all add: split_beta carries_api_step)

text \<open>
  C3. A flush of the updated groups in which the splice set of every marked group is
  empty sends nothing. The flush of the created groups runs only inside
  \<open>createResourceGroup\<close>, where the new group is pending, so it never runs on an empty
  change set. Over every sequence of calls of the plugin API, from whatever state, every
  \<open>$registerGroups\<close> message carries at least one group, every
  \<open>$spliceResourceStates\<close> message carries the splices of at least one group, and the
  splices of a group in a message are never an empty list: no flush sends a message for
  an empty change set.
\<close>

theorem empty_flush_sends_nothing:
  "(sourceControls w k = Some sc \<and> distinct (updatedResourceGroups sc) \<and>
    (\<forall>gh \<in> set (updatedResourceGroups sc). \<forall>g. groupObjects w gh = Some g \<longrightarrow>
         fst (takeResourceStateSnapshot ext g) = [])
      \<longrightarrow> snd (eventuallyUpdateResourceStates ext k w) = []) \<and>
   list_all carries_change (snd (api_run ext ops v)) \<and>
   (sourceControls w0 k0 \<noteq> None \<longrightarrow>
      (\<exists>h gs splices. snd (snd (createResourceGroup ext k0 ident label w0))
                        = [Send (RegisterGroups h gs splices)] \<and> gs \<noteq> []))"
proof (intro conjI impI)
  assume a: "sourceControls w k = Some sc \<and> distinct (updatedResourceGroups sc) \<and>
    (\<forall>gh \<in> set (updatedResourceGroups sc). \<forall>g. groupObjects w gh = Some g \<longrightarrow>
         fst (takeResourceStateSnapshot ext g) = [])"
  thus "snd (eventuallyUpdateResourceStates ext k w) = []"
    using eventuallyUpdate_nothing[of w k sc ext] by blast
next
  show "list_all carries_change (snd (api_run ext ops v))" by (rule carries_api_run)
next
  assume "sourceControls w0 k0 \<noteq> None"
  then obtain sc0 where sc0: "sourceControls w0 k0 = Some sc0" by auto
  let ?gh = "groupHandlePool w0"
  let ?sc1 = "sc0\<lparr>createdResourceGroups := set_add ?gh (createdResourceGroups sc0)\<rparr>"
  let ?w1 = "w0\<lparr>groupHandlePool := ?gh + 1,
                groupObjects := (groupObjects w0)(?gh \<mapsto> (new_group ?gh (scHandle sc0) ident label)\<lparr>createdListener := True\<rparr>),
                groupOwner := (groupOwner w0)(?gh \<mapsto> k0),
                sourceControls := (sourceControls w0)(k0 \<mapsto> ?sc1)\<rparr>"
  have s1: "sourceControls ?w1 k0 = Some ?sc1" by simp
  from eventuallyAdd_one_message[OF s1, of ext]
  obtain gs splices where m: "snd (eventuallyAddResourceGroups ext k0 ?w1)
      = [Send (RegisterGroups (scHandle ?sc1) gs splices)]" by blast
  hence e: "snd (snd (createResourceGroup ext k0 ident label w0)) = [Send (RegisterGroups (scHandle ?sc1) gs splices)]"
    using sc0 by (simp add: createResourceGroup_def Let_def split_beta)
  from carries_createResourceGroup[of ext k0 ident label w0] e have "gs \<noteq> []"
    by (simp add: carries_change_def)
  with e show "\<exists>h gs splices. snd (snd (createResourceGroup ext k0 ident label w0))
                        = [Send (RegisterGroups h gs splices)] \<and> gs \<noteq> []"
    by blast
qed

theorem empty_flush_sends_nothing_witness:
  "(\<exists>sc. sourceControls (mark_updated 0 0 one_group) 0 = Some sc \<and>
         updatedResourceGroups sc = [0] \<and> createdResourceGroups sc = []) \<and>
   (\<exists>g. groupObjects (mark_updated 0 0 one_group) 0 = Some g \<and>
        fst (takeResourceStateSnapshot plain_externals g) = []) \<and>
   snd (eventuallyUpdateResourceStates plain_externals 0 (mark_updated 0 0 one_group)) = [] \<and>
   list_all carries_change (snd (api_run plain_externals lifecycle_ops initial_ext)) \<and>
   sourceControls two_controls 0 \<noteq> None \<and>
   (\<exists>h gs splices. snd (snd (createResourceGroup plain_externals 0 ''changes'' ''Changes'' two_controls))
                    = [Send (RegisterGroups h gs splices)] \<and> gs \<noteq> [])"
proof -
  from marked_facts obtain sc g where f: "sourceControls (mark_updated 0 0 one_group) 0 = Some sc"
    "scHandle sc = 0" "createdResourceGroups sc = []" "updatedResourceGroups sc = [0]"
    "groupObjects (mark_updated 0 0 one_group) 0 = Some g" "resourceStates g = []" "resourceSnapshot g = []"
    by blast
  have e: "fst (takeResourceStateSnapshot plain_externals g) = []"
    by (simp add: takeSnapshot_nothing[OF f(6,7)])
  from empty_flush_sends_nothing[of "mark_updated 0 0 one_group" 0 sc plain_externals lifecycle_ops initial_ext
      two_controls 0 "''changes''" "''Changes''"] f e two_controls_simps(1)
  show ?thesis by simp
qed

section \<open>Handles are not reused\<close>

lemma group_grows_refl [simp]: "group_grows g g"
  by (simp add: group_grows_def)

lemma group_grows_trans: "group_grows a b \<Longrightarrow> group_grows b c \<Longrightarrow> group_grows a c"
  unfolding group_grows_def by (metis le_trans)

lemma same_control_refl [simp]: "same_control sc sc"
  by (simp add: same_control_def)

lemma same_control_trans: "same_control a b \<Longrightarrow> same_control b c \<Longrightarrow> same_control a c"
  by (simp add: same_control_def)

lemma handles_grow_refl [simp]: "handles_grow w w"
  by (simp add: handles_grow_def)

lemma handles_grow_trans:
  assumes "handles_grow a b" and "handles_grow b c"
  shows "handles_grow a c"
  unfolding handles_grow_def
proof (intro conjI allI impI)
  show "extHandlePool a \<le> extHandlePool c" "sourceControlHandlePool a \<le> sourceControlHandlePool c"
    "groupHandlePool a \<le> groupHandlePool c"
    using assms by (auto simp: handles_grow_def)
next
  fix k sc assume "sourceControls a k = Some sc"
  thus "\<exists>sc'. sourceControls c k = Some sc' \<and> same_control sc sc'"
    using assms unfolding handles_grow_def by (metis same_control_trans)
next
  fix k assume "sourceControls c k \<noteq> None"
  thus "sourceControls a k \<noteq> None \<or> extHandlePool a \<le> k"
    using assms unfolding handles_grow_def by (metis le_trans)
next
  fix gh g assume "groupObjects a gh = Some g"
  thus "\<exists>g'. groupObjects c gh = Some g' \<and> group_grows g g'"
    using assms unfolding handles_grow_def by (metis group_grows_trans)
next
  fix gh assume "groupObjects c gh \<noteq> None"
  thus "groupObjects a gh \<noteq> None \<or> groupHandlePool a \<le> gh"
    using assms unfolding handles_grow_def by (metis le_trans)
qed

lemma step_ok_refl [simp]: "step_ok w w"
  by (simp add: step_ok_def)

lemma step_ok_trans: "step_ok a b \<Longrightarrow> step_ok b c \<Longrightarrow> step_ok a c"
  unfolding step_ok_def using handles_grow_trans by blast

lemma deleteHandles_identity [simp]:
  "groupSourceControlHandle (deleteHandles hs g) = groupSourceControlHandle g"
  "groupId (deleteHandles hs g) = groupId g"
  by (induction hs arbitrary: g; simp)+

lemma spliceHandles_identity [simp]:
  "groupSourceControlHandle (spliceHandles T g) = groupSourceControlHandle g"
  "groupId (spliceHandles T g) = groupId g"
  by (induction T arbitrary: g; simp add: split_beta)+

lemma insertResources_identity [simp]:
  "groupSourceControlHandle (snd (insertResources ext rs g)) = groupSourceControlHandle g"
  "groupId (snd (insertResources ext rs g)) = groupId g"
  by (induction rs arbitrary: g; simp add: split_beta insertResource_def Let_def split: option.splits)+

lemma handleSplices_identity [simp]:
  "groupSourceControlHandle (snd (handleSplices ext D g)) = groupSourceControlHandle g"
  "groupId (snd (handleSplices ext D g)) = groupId g"
  by (induction D arbitrary: g; simp add: split_beta)+

lemma spliceHandles_handles:
  "handlesSnapshot (spliceHandles T g) = apply_splices (map (map_splice snd) T) (handlesSnapshot g)"
  by (induction T arbitrary: g) (simp_all add: split_beta deleteHandles_spec)

lemma takeSnapshot_grows: "group_grows g (snd (takeResourceStateSnapshot ext g))"
  and takeSnapshot_ok: "group_ok g \<Longrightarrow> group_ok (snd (takeResourceStateSnapshot ext g))"
  and takeSnapshot_kept:
    "group_ok g \<Longrightarrow> h \<in> set (handlesSnapshot (snd (takeResourceStateSnapshot ext g))) \<Longrightarrow>
     h < resourceHandlePool g \<Longrightarrow>
     h \<in> set (handlesSnapshot g) \<and>
     resourceStatesMap (snd (takeResourceStateSnapshot ext g)) h = resourceStatesMap g h"
proof -
  let ?cmp = "compareResourceStates ext"
  let ?D = "sortedDiff (resourceSnapshot g) (array_sort ext ?cmp (resourceStates g)) ?cmp"
  let ?n = "resourceHandlePool g"
  let ?hs = "handlesSnapshot g"
  let ?S = "fst (handleSplices ext ?D g)"
  let ?g1 = "snd (handleSplices ext ?D g)"
  let ?g2 = "spliceHandles (rev ?S) ?g1"
  have snd: "snd (takeResourceStateSnapshot ext g) = ?g2\<lparr>resourceSnapshot := array_sort ext ?cmp (resourceStates g)\<rparr>"
    by (simp add: takeResourceStateSnapshot_def Let_def split_beta)
  have Ssnd: "map (map_splice snd) ?S = label_splices (\<lambda>k r. k) ?n ?D"
    using label_splices_map[of snd "\<lambda>k r. (encodeResource ext k r, k)" ?n ?D]
    by (simp add: handleSplices_fst)
  have revS: "map (map_splice snd) (rev ?S) = rev (label_splices (\<lambda>k r. k) ?n ?D)"
    by (simp only: rev_map[symmetric] Ssnd)
  have "mset (inserted_items (map (map_splice snd) (rev ?S))) = mset [?n..<?n + inserted_count ?D]"
    unfolding revS mset_inserted_rev inserted_labels ..
  hence dl: "distinct (inserted_items (map (map_splice snd) (rev ?S)))"
    and sl: "set (inserted_items (map (map_splice snd) (rev ?S))) = {?n..<?n + inserted_count ?D}"
    by (metis distinct_upt mset_eq_imp_distinct_iff, metis mset_eq_setD set_upt)
  have hs2: "handlesSnapshot ?g2 = apply_splices (map (map_splice snd) (rev ?S)) ?hs"
    by (simp add: spliceHandles_handles handleSplices_snd)
  have pool2: "resourceHandlePool ?g2 = ?n + inserted_count ?D"
    by (simp add: handleSplices_snd)
  have sub: "set (handlesSnapshot ?g2) \<subseteq> set ?hs \<union> {?n..<?n + inserted_count ?D}"
    using set_apply_splices[of "map (map_splice snd) (rev ?S)" ?hs] by (simp add: hs2 sl)
  show "group_grows g (snd (takeResourceStateSnapshot ext g))"
    using sub by (auto simp: group_grows_def snd pool2 handleSplices_snd)
  {
    assume ok: "group_ok g"
    hence "set ?hs \<inter> {?n..<?n + inserted_count ?D} = {}" by (fastforce simp: group_ok_def)
    hence d0: "distinct (handlesSnapshot ?g1 @ inserted_items (map (map_splice snd) (rev ?S)))"
      using ok dl sl by (simp add: handleSplices_snd group_ok_def)
    note sh = spliceHandles_spec[OF d0]
    from sh have "distinct (handlesSnapshot ?g2)" by blast
    moreover have "\<forall>h \<in> set (handlesSnapshot ?g2). h < ?n + inserted_count ?D"
      using sub ok by (fastforce simp: group_ok_def)
    ultimately show "group_ok (snd (takeResourceStateSnapshot ext g))"
      by (simp add: group_ok_def snd handleSplices_snd)
    assume h: "h \<in> set (handlesSnapshot (snd (takeResourceStateSnapshot ext g)))" and lt: "h < ?n"
    from h have h2: "h \<in> set (handlesSnapshot ?g2)" by (simp add: snd)
    with sub lt have "h \<in> set ?hs" by auto
    moreover from sh h2 have "resourceStatesMap ?g2 h = resourceStatesMap ?g1 h" by blast
    moreover have "resourceStatesMap ?g1 h = resourceStatesMap g h"
      using lt by (rule handleSplices_map_old)
    ultimately show "h \<in> set (handlesSnapshot g) \<and>
        resourceStatesMap (snd (takeResourceStateSnapshot ext g)) h = resourceStatesMap g h"
      by (simp add: snd)
  }
qed

lemma step_group:
  assumes "groupObjects w gh = Some g" and "group_grows g g'" and "group_ok g \<Longrightarrow> group_ok g'"
  shows "step_ok w (w\<lparr>groupObjects := (groupObjects w)(gh \<mapsto> g')\<rparr>)"
  using assms unfolding step_ok_def handles_ok_def handles_grow_def
  by (auto simp: group_grows_def)

lemma step_control:
  assumes "sourceControls w k = Some sc" and "same_control sc sc'"
  shows "step_ok w (w\<lparr>sourceControls := (sourceControls w)(k \<mapsto> sc')\<rparr>)"
  using assms unfolding step_ok_def handles_ok_def handles_grow_def
  by (auto simp: same_control_def)

lemma step_group_control:
  assumes "groupObjects w gh = Some g" and "group_grows g g'" and "group_ok g \<Longrightarrow> group_ok g'"
    and "sourceControls w k = Some sc" and "same_control sc sc'"
  shows "step_ok w (w\<lparr>groupObjects := (groupObjects w)(gh \<mapsto> g'),
                      sourceControls := (sourceControls w)(k \<mapsto> sc')\<rparr>)"
  using assms unfolding step_ok_def handles_ok_def handles_grow_def
  by (auto simp: group_grows_def same_control_def)

lemma flags_grow:
  "group_grows g (g\<lparr>createdListener := a, updateListener := b, disposeListener := c\<rparr>)"
  "group_grows g (g\<lparr>resourceStates := rs\<rparr>)"
  "group_grows g (g\<lparr>disposed := d\<rparr>)"
  "group_grows g (g\<lparr>disposed := d, updateListener := b\<rparr>)"
  by (simp_all add: group_grows_def)

lemma flags_ok:
  "group_ok (g\<lparr>createdListener := a, updateListener := b, disposeListener := c\<rparr>) = group_ok g"
  "group_ok (g\<lparr>resourceStates := rs\<rparr>) = group_ok g"
  "group_ok (g\<lparr>disposed := d\<rparr>) = group_ok g"
  "group_ok (g\<lparr>disposed := d, updateListener := b\<rparr>) = group_ok g"
  by (simp_all add: group_ok_def)

lemma step_createSourceControl:
  "step_ok w (fst (snd (createSourceControl ident label rootUri w)))"
  unfolding step_ok_def handles_ok_def handles_grow_def createSourceControl_def Let_def
  by (auto simp: less_Suc_eq) (metis less_irrefl_nat)

lemma step_addLoop: "step_ok w (fst (addResourceGroups_loop ext k ghs w gs splices))"
proof (induction ghs arbitrary: w gs splices)
  case Nil show ?case by simp
next
  case (Cons gh ghs)
  show ?case
  proof (cases "groupObjects w gh")
    case None thus ?thesis using Cons.IH by simp
  next
    case g: (Some g)
    show ?thesis
    proof (cases "sourceControls w k")
      case None thus ?thesis using Cons.IH g by simp
    next
      case sc: (Some sc)
      let ?g1 = "g\<lparr>createdListener := False, updateListener := True, disposeListener := True\<rparr>"
      let ?g2 = "snd (takeResourceStateSnapshot ext ?g1)"
      let ?w' = "w\<lparr>groupObjects := (groupObjects w)(gh \<mapsto> ?g2),
                    sourceControls := (sourceControls w)(k \<mapsto> sc\<lparr>groups := set_add (groupHandle ?g2) (groups sc)\<rparr>)\<rparr>"
      have gr: "group_grows g ?g2"
        using group_grows_trans[OF flags_grow(1) takeSnapshot_grows] .
      have ok: "group_ok g \<Longrightarrow> group_ok ?g2"
        using takeSnapshot_ok[of ?g1 ext] by (simp add: flags_ok)
      have "step_ok w ?w'" by (rule step_group_control[OF g gr ok sc]) (simp_all add: same_control_def)
      from step_ok_trans[OF this Cons.IH] show ?thesis using g sc by (simp add: split_beta Let_def)
    qed
  qed
qed

lemma step_eventuallyAdd: "step_ok w (fst (eventuallyAddResourceGroups ext k w))"
proof (cases "sourceControls w k")
  case None thus ?thesis by (simp add: eventuallyAddResourceGroups_def)
next
  case (Some sc)
  let ?w1 = "fst (addResourceGroups_loop ext k (createdResourceGroups sc) w [] [])"
  have 1: "step_ok w ?w1" by (rule step_addLoop)
  show ?thesis
  proof (cases "sourceControls ?w1 k")
    case None thus ?thesis using Some 1 by (simp add: eventuallyAddResourceGroups_def split_beta)
  next
    case sc1: (Some sc1)
    have "step_ok ?w1 (?w1\<lparr>sourceControls := (sourceControls ?w1)(k \<mapsto> sc1\<lparr>createdResourceGroups := []\<rparr>)\<rparr>)"
      by (rule step_control[OF sc1]) (simp add: same_control_def)
    from step_ok_trans[OF 1 this] show ?thesis using Some sc1
      by (simp add: eventuallyAddResourceGroups_def split_beta)
  qed
qed

lemma group_ok_new: "group_ok ((new_group gh sch ident label)\<lparr>createdListener := True\<rparr>)"
  by (simp add: group_ok_def new_group_def)

lemma step_createResourceGroup: "step_ok w (fst (snd (createResourceGroup ext k ident label w)))"
proof (cases "sourceControls w k")
  case None thus ?thesis by (simp add: createResourceGroup_def)
next
  case (Some sc)
  let ?gh = "groupHandlePool w"
  let ?g = "(new_group ?gh (scHandle sc) ident label)\<lparr>createdListener := True\<rparr>"
  let ?w1 = "w\<lparr>groupHandlePool := ?gh + 1,
                groupObjects := (groupObjects w)(?gh \<mapsto> ?g),
                groupOwner := (groupOwner w)(?gh \<mapsto> k),
                sourceControls :=
                  (sourceControls w)(k \<mapsto> sc\<lparr>createdResourceGroups := set_add ?gh (createdResourceGroups sc)\<rparr>)\<rparr>"
  have gh: "groupHandle ?g = ?gh" by (simp add: new_group_def)
  have 1: "step_ok w ?w1"
    unfolding step_ok_def handles_ok_def handles_grow_def using Some group_ok_new[of ?gh "scHandle sc" ident label] gh
    by (auto simp: less_Suc_eq same_control_def)
  have 2: "step_ok ?w1 (fst (eventuallyAddResourceGroups ext k ?w1))" by (rule step_eventuallyAdd)
  from step_ok_trans[OF 1 2] show ?thesis using Some
    by (simp add: createResourceGroup_def Let_def split_beta)
qed

lemma step_updateLoop: "step_ok w (fst (updateResourceStates_loop ext ghs w splices))"
proof (induction ghs arbitrary: w splices)
  case Nil show ?case by simp
next
  case (Cons gh ghs)
  show ?case
  proof (cases "groupObjects w gh")
    case None thus ?thesis using Cons.IH by simp
  next
    case g: (Some g)
    let ?g' = "snd (takeResourceStateSnapshot ext g)"
    have "step_ok w (w\<lparr>groupObjects := (groupObjects w)(gh \<mapsto> ?g')\<rparr>)"
      by (rule step_group[OF g takeSnapshot_grows takeSnapshot_ok])
    from step_ok_trans[OF this Cons.IH] show ?thesis using g by (simp add: split_beta)
  qed
qed

lemma updateLoop_controls:
  "sourceControls (fst (updateResourceStates_loop ext ghs w splices)) = sourceControls w"
  by (induction ghs arbitrary: w splices) (simp_all add: split_beta split: option.splits)

lemma step_eventuallyUpdate: "step_ok w (fst (eventuallyUpdateResourceStates ext k w))"
proof (cases "sourceControls w k")
  case None thus ?thesis by (simp add: eventuallyUpdateResourceStates_def)
next
  case (Some sc)
  let ?w1 = "fst (updateResourceStates_loop ext (updatedResourceGroups sc) w [])"
  have 1: "step_ok w ?w1" by (rule step_updateLoop)
  have "sourceControls ?w1 k = Some sc" using Some by (simp add: updateLoop_controls)
  hence 2: "step_ok ?w1 (?w1\<lparr>sourceControls := (sourceControls ?w1)(k \<mapsto> sc\<lparr>updatedResourceGroups := []\<rparr>)\<rparr>)"
    by (rule step_control) (simp add: same_control_def)
  from step_ok_trans[OF 1 2] show ?thesis using Some
    by (simp add: eventuallyUpdateResourceStates_def split_beta)
qed

lemma step_setResourceStates: "step_ok w (fst (setResourceStates ext gh rs w))"
proof (cases "groupObjects w gh")
  case None thus ?thesis by (simp add: setResourceStates_def)
next
  case g: (Some g)
  let ?w1 = "w\<lparr>groupObjects := (groupObjects w)(gh \<mapsto> g\<lparr>resourceStates := rs\<rparr>)\<rparr>"
  have 1: "step_ok w ?w1"
    by (rule step_group[OF g flags_grow(2)]) (simp add: flags_ok)
  show ?thesis
  proof (cases "updateListener g")
    case False thus ?thesis using g 1 by (simp add: setResourceStates_def)
  next
    case True
    show ?thesis
    proof (cases "groupOwner w gh")
      case None thus ?thesis using g 1 True by (simp add: setResourceStates_def)
    next
      case k: (Some k)
      show ?thesis
      proof (cases "sourceControls w k")
        case None thus ?thesis using g 1 True k by (simp add: setResourceStates_def)
      next
        case sc: (Some sc)
        let ?w2 = "?w1\<lparr>sourceControls :=
                     (sourceControls ?w1)(k \<mapsto> sc\<lparr>updatedResourceGroups := set_add gh (updatedResourceGroups sc)\<rparr>)\<rparr>"
        have "sourceControls ?w1 k = Some sc" using sc by simp
        hence 2: "step_ok ?w1 ?w2" by (rule step_control) (simp add: same_control_def)
        have 3: "step_ok ?w2 (fst (eventuallyUpdateResourceStates ext k ?w2))" by (rule step_eventuallyUpdate)
        from step_ok_trans[OF 1 step_ok_trans[OF 2 3]] show ?thesis using g True k sc
          by (simp add: setResourceStates_def)
      qed
    qed
  qed
qed

lemma step_disposeGroup:
  "step_ok w (fst (disposeGroup gh w :: scm_ext \<times> 'c provider_effect list))"
proof (cases "groupObjects w gh")
  case None thus ?thesis by (simp add: disposeGroup_def)
next
  case g: (Some g)
  let ?w0 = "w\<lparr>groupObjects := (groupObjects w)(gh \<mapsto> g\<lparr>disposed := True\<rparr>)\<rparr>"
  have 0: "step_ok w ?w0" by (rule step_group[OF g flags_grow(3)]) (simp add: flags_ok)
  show ?thesis
  proof (cases "groupOwner w gh")
    case None thus ?thesis using g 0 by (simp add: disposeGroup_def)
  next
    case k: (Some k)
    show ?thesis
    proof (cases "sourceControls w k")
      case None thus ?thesis using g 0 k by (simp add: disposeGroup_def)
    next
      case sc: (Some sc)
      let ?sc1 = "if createdListener g then sc\<lparr>createdResourceGroups := removeAll gh (createdResourceGroups sc)\<rparr> else sc"
      have sc0: "sourceControls ?w0 k = Some sc" using sc by simp
      have g0: "groupObjects ?w0 gh = Some (g\<lparr>disposed := True\<rparr>)" by simp
      show ?thesis
      proof (cases "disposeListener g")
        case False
        have "step_ok ?w0 (?w0\<lparr>sourceControls := (sourceControls ?w0)(k \<mapsto> ?sc1)\<rparr>)"
          by (rule step_control[OF sc0]) (simp add: same_control_def)
        from step_ok_trans[OF 0 this] show ?thesis using g k sc False
          by (simp add: disposeGroup_def Let_def)
      next
        case True
        let ?sc2 = "?sc1\<lparr>updatedResourceGroups := removeAll gh (updatedResourceGroups ?sc1),
                          groups := removeAll (groupHandle g) (groups ?sc1)\<rparr>"
        have "step_ok ?w0 (?w0\<lparr>groupObjects := (groupObjects ?w0)(gh \<mapsto> g\<lparr>disposed := True, updateListener := False\<rparr>),
                               sourceControls := (sourceControls ?w0)(k \<mapsto> ?sc2)\<rparr>)"
          by (rule step_group_control[OF g0 _ _ sc0]) (simp_all add: group_grows_def group_ok_def same_control_def)
        from step_ok_trans[OF 0 this] show ?thesis using g k sc True
          by (simp add: disposeGroup_def Let_def)
      qed
    qed
  qed
qed

lemma step_disposeGroups:
  "step_ok w (fst (disposeGroups ghs w :: scm_ext \<times> 'c provider_effect list))"
proof (induction ghs arbitrary: w)
  case Nil show ?case by simp
next
  case (Cons gh ghs)
  from step_ok_trans[OF step_disposeGroup[of w gh, where ?'c = 'c] Cons.IH]
  show ?case by (simp add: split_beta)
qed

lemma step_disposeSourceControl:
  "step_ok w (fst (disposeSourceControl k w :: scm_ext \<times> 'c provider_effect list))"
  using step_disposeGroups[where ?'c = 'c]
  by (simp add: disposeSourceControl_def split_beta split: option.splits)

lemma step_api: "step_ok w (fst (api_step ext op w))"
  by (cases op)
     (simp_all add: api_step_def step_createSourceControl step_createResourceGroup
        step_setResourceStates step_disposeGroup step_disposeSourceControl)

lemma handles_ok_initial: "handles_ok initial_ext"
  by (simp add: handles_ok_def initial_ext_def)

subsection \<open>The handles given out\<close>

lemma inserted_items_map: "inserted_items (map (map_splice f) T) = map f (inserted_items T)"
  by (induction T) simp_all

lemma splice_components_object [simp]: "splice_components (object_splice sp) = sp"
  by (simp add: splice_components_def object_splice_def resource_components_def comp_def)

lemma takeSnapshot_pool:
  "resourceHandlePool (snd (takeResourceStateSnapshot ext g))
   = resourceHandlePool g +
     inserted_count (sortedDiff (resourceSnapshot g)
       (array_sort ext (compareResourceStates ext) (resourceStates g)) (compareResourceStates ext))"
  by (simp add: takeResourceStateSnapshot_def Let_def split_beta handleSplices_snd)

lemma takeSnapshot_inserted:
  "inserted_handles (fst (takeResourceStateSnapshot ext g))
   = [resourceHandlePool g..<resourceHandlePool (snd (takeResourceStateSnapshot ext g))]"
proof -
  let ?D = "sortedDiff (resourceSnapshot g)
       (array_sort ext (compareResourceStates ext) (resourceStates g)) (compareResourceStates ext)"
  let ?n = "resourceHandlePool g"
  have "inserted_handles (fst (takeResourceStateSnapshot ext g))
      = map rawHandle (inserted_items (label_splices (encodeResource ext) ?n ?D))"
    by (simp add: inserted_handles_def takeSnapshot_fst comp_def)
  also have "\<dots> = inserted_items (map (map_splice rawHandle) (label_splices (encodeResource ext) ?n ?D))"
    by (simp add: inserted_items_map)
  also have "\<dots> = inserted_items (label_splices (\<lambda>k r. k) ?n ?D)"
    using label_splices_map[of rawHandle "encodeResource ext" ?n ?D] by simp
  also have "\<dots> = [?n..<?n + inserted_count ?D]" by (rule inserted_labels)
  finally show ?thesis by (simp add: takeSnapshot_pool)
qed

lemma issues_same:
  assumes "sourceControlHandlePool w' = sourceControlHandlePool w"
    and "groupHandlePool w' = groupHandlePool w"
    and "\<And>gh. resource_pool w' gh = resource_pool w gh"
    and "concat (map issued_controls es) = []" and "concat (map issued_groups es) = []"
    and "\<And>gh. concat (map (issued_resources gh) es) = []"
  shows "issues w es w'"
  using assms by (simp add: issues_def)

lemma grow_pools:
  assumes "handles_grow a b"
  shows "resource_pool a gh \<le> resource_pool b gh"
proof (cases "groupObjects a gh")
  case None thus ?thesis by (simp add: resource_pool_def)
next
  case (Some g)
  with assms obtain g' where "groupObjects b gh = Some g'" "group_grows g g'"
    unfolding handles_grow_def by blast
  thus ?thesis using Some by (simp add: resource_pool_def group_grows_def)
qed

lemma issues_trans:
  assumes "issues a e1 b" and "issues b e2 c" and "handles_grow a b" and "handles_grow b c"
  shows "issues a (e1 @ e2) c"
proof -
  have u: "i \<le> j \<Longrightarrow> j \<le> k \<Longrightarrow> [i..<j] @ [j..<k] = [i..<k]" for i j k :: nat
    by (metis le_Suc_ex upt_add_eq_append)
  from assms(3,4) have m: "sourceControlHandlePool a \<le> sourceControlHandlePool b"
    "sourceControlHandlePool b \<le> sourceControlHandlePool c"
    "groupHandlePool a \<le> groupHandlePool b" "groupHandlePool b \<le> groupHandlePool c"
    by (simp_all add: handles_grow_def)
  show ?thesis
    using assms(1,2) u[OF m(1,2)] u[OF m(3,4)] u[OF grow_pools[OF assms(3)] grow_pools[OF assms(4)]]
    by (simp add: issues_def)
qed

lemma issues_createSourceControl:
  "issues w (snd (snd (createSourceControl ident label rootUri w)))
     (fst (snd (createSourceControl ident label rootUri w)))"
  by (simp add: issues_def createSourceControl_def Let_def issued_controls_def issued_groups_def
        issued_resources_def resource_pool_def)

lemma quiescent_createSourceControl:
  "quiescent w \<Longrightarrow> quiescent (fst (snd (createSourceControl ident label rootUri w)))"
  by (simp add: quiescent_def createSourceControl_def Let_def)

lemma createResourceGroup_frame:
  assumes "sourceControls w k = Some sc" and "createdResourceGroups sc = []"
  shows "sourceControlHandlePool (fst (snd (createResourceGroup ext k ident label w))) = sourceControlHandlePool w"
    and "groupHandlePool (fst (snd (createResourceGroup ext k ident label w))) = groupHandlePool w + 1"
    and "\<And>k'. k' \<noteq> k \<Longrightarrow>
           sourceControls (fst (snd (createResourceGroup ext k ident label w))) k' = sourceControls w k'"
    and "\<exists>sc'. sourceControls (fst (snd (createResourceGroup ext k ident label w))) k = Some sc' \<and>
               createdResourceGroups sc' = [] \<and> updatedResourceGroups sc' = updatedResourceGroups sc"
    and "\<And>gh'. gh' \<noteq> groupHandlePool w \<Longrightarrow>
           groupObjects (fst (snd (createResourceGroup ext k ident label w))) gh' = groupObjects w gh'"
    and "resource_pool (fst (snd (createResourceGroup ext k ident label w))) (groupHandlePool w) = 0"
    and "snd (snd (createResourceGroup ext k ident label w))
           = [register_one (scHandle sc) (groupHandlePool w, ident, label)]"
proof -
  let ?g = "(new_group (groupHandlePool w) (scHandle sc) ident label)\<lparr>createdListener := True\<rparr>"
  have t: "takeResourceStateSnapshot ext (?g\<lparr>createdListener := False, updateListener := True, disposeListener := True\<rparr>)
      = ([], ?g\<lparr>createdListener := False, updateListener := True, disposeListener := True\<rparr>)"
    by (rule takeSnapshot_nothing) (simp_all add: new_group_def)
  note d = createResourceGroup_def eventuallyAddResourceGroups_def Let_def set_add_def
          register_one_def new_group_def group_features_of_def prop_of_def resource_pool_def
  show "sourceControlHandlePool (fst (snd (createResourceGroup ext k ident label w))) = sourceControlHandlePool w"
    using t assms by (simp add: d)
  show "groupHandlePool (fst (snd (createResourceGroup ext k ident label w))) = groupHandlePool w + 1"
    using t assms by (simp add: d)
  show "\<And>k'. k' \<noteq> k \<Longrightarrow>
           sourceControls (fst (snd (createResourceGroup ext k ident label w))) k' = sourceControls w k'"
    using t assms by (simp add: d)
  show "\<exists>sc'. sourceControls (fst (snd (createResourceGroup ext k ident label w))) k = Some sc' \<and>
               createdResourceGroups sc' = [] \<and> updatedResourceGroups sc' = updatedResourceGroups sc"
    using t assms by (simp add: d)
  show "\<And>gh'. gh' \<noteq> groupHandlePool w \<Longrightarrow>
           groupObjects (fst (snd (createResourceGroup ext k ident label w))) gh' = groupObjects w gh'"
    using t assms by (simp add: d)
  show "resource_pool (fst (snd (createResourceGroup ext k ident label w))) (groupHandlePool w) = 0"
    using t assms by (simp add: d)
  show "snd (snd (createResourceGroup ext k ident label w))
           = [register_one (scHandle sc) (groupHandlePool w, ident, label)]"
    using t assms by (simp add: d)
qed

lemma op_createResourceGroup:
  assumes "handles_ok w" and "quiescent w"
  shows "quiescent (fst (snd (createResourceGroup ext k ident label w)))"
    and "issues w (snd (snd (createResourceGroup ext k ident label w)))
           (fst (snd (createResourceGroup ext k ident label w)))"
proof -
  let ?w' = "fst (snd (createResourceGroup ext k ident label w))"
  let ?es = "snd (snd (createResourceGroup ext k ident label w))"
  have "quiescent ?w' \<and> issues w ?es ?w'"
  proof (cases "sourceControls w k")
    case None
    thus ?thesis using assms(2) by (simp add: createResourceGroup_def issues_def)
  next
    case (Some sc)
    with assms(2) have c: "createdResourceGroups sc = []" and u: "updatedResourceGroups sc = []"
      by (auto simp: quiescent_def)
    note f = createResourceGroup_frame[OF Some c, where ext = ext and ident = ident and label = label]
    have q: "quiescent ?w'"
      unfolding quiescent_def
    proof (intro allI impI)
      fix k' sc' assume a: "sourceControls ?w' k' = Some sc'"
      show "createdResourceGroups sc' = [] \<and> updatedResourceGroups sc' = []"
      proof (cases "k' = k")
        case True
        with f(4) a u show ?thesis by auto
      next
        case False
        with f(3)[of k'] a assms(2) show ?thesis by (auto simp: quiescent_def)
      qed
    qed
    have "groupObjects w (groupHandlePool w) = Some g \<Longrightarrow> False" for g
      using assms(1) unfolding handles_ok_def by (metis less_irrefl_nat)
    hence fresh: "groupObjects w (groupHandlePool w) = None" by (metis not_Some_eq)
    have rp: "resource_pool ?w' gh = resource_pool w gh" for gh
    proof (cases "gh = groupHandlePool w")
      case True
      thus ?thesis using f(6) fresh by (simp add: resource_pool_def)
    next
      case False
      from f(5)[OF this] show ?thesis by (simp add: resource_pool_def)
    qed
    have "issues w ?es ?w'"
      by (simp add: issues_def f(1,2,7) rp register_one_def issued_controls_def issued_groups_def
            issued_resources_def group_inserted_def)
    with q show ?thesis by simp
  qed
  thus "quiescent ?w'" and "issues w ?es ?w'" by simp_all
qed

lemma setResourceStates_state:
  assumes "sourceControls w k = Some sc" and "updatedResourceGroups sc = []"
    and "groupObjects w gh = Some g" and "updateListener g" and "groupOwner w gh = Some k"
  shows "fst (setResourceStates ext gh rs w)
       = w\<lparr>groupObjects := (groupObjects w)(gh \<mapsto> snd (takeResourceStateSnapshot ext (g\<lparr>resourceStates := rs\<rparr>))),
            sourceControls := (sourceControls w)(k \<mapsto> sc\<lparr>updatedResourceGroups := []\<rparr>)\<rparr>"
  using assms
  by (simp add: setResourceStates_def eventuallyUpdateResourceStates_def set_add_def Let_def split_beta)

lemma op_setResourceStates:
  assumes "handles_ok w" and "quiescent w"
  shows "quiescent (fst (setResourceStates ext gh rs w))"
    and "issues w (snd (setResourceStates ext gh rs w)) (fst (setResourceStates ext gh rs w))"
proof -
  let ?w' = "fst (setResourceStates ext gh rs w)"
  let ?es = "snd (setResourceStates ext gh rs w)"
  have "quiescent ?w' \<and> issues w ?es ?w'"
  proof (cases "groupObjects w gh")
    case None
    thus ?thesis using assms(2) by (simp add: setResourceStates_def issues_def)
  next
    case g: (Some g)
    let ?w1 = "w\<lparr>groupObjects := (groupObjects w)(gh \<mapsto> g\<lparr>resourceStates := rs\<rparr>)\<rparr>"
    have q1: "quiescent ?w1" using assms(2) by (simp add: quiescent_def)
    have i1: "issues w [] ?w1" using g by (simp add: issues_def resource_pool_def)
    show ?thesis
    proof (cases "updateListener g \<and> groupOwner w gh \<noteq> None \<and> sourceControls w (the (groupOwner w gh)) \<noteq> None")
      case False
      hence "setResourceStates ext gh rs w = (?w1, [])"
        using g by (auto simp: setResourceStates_def Let_def split: option.splits)
      thus ?thesis using q1 i1 by simp
    next
      case True
      then obtain k sc where l: "updateListener g" and k: "groupOwner w gh = Some k"
        and sc: "sourceControls w k = Some sc" by auto
      from sc assms(2) have u: "updatedResourceGroups sc = []" and c: "createdResourceGroups sc = []"
        by (auto simp: quiescent_def)
      let ?g' = "snd (takeResourceStateSnapshot ext (g\<lparr>resourceStates := rs\<rparr>))"
      let ?sp = "fst (takeResourceStateSnapshot ext (g\<lparr>resourceStates := rs\<rparr>))"
      note st = setResourceStates_state[OF sc u g l k, of ext rs]
      have es: "?es = (if ?sp = [] then [] else [Send (SpliceResourceStates (scHandle sc) [SplicesObject (groupHandle g) ?sp])])"
        using setResourceStates_effects[OF sc u g l k, of ext rs] by (simp add: Let_def)
      have gh: "groupHandle g = gh" using assms(1) g by (auto simp: handles_ok_def)
      have ins: "inserted_handles ?sp = [resourceHandlePool g..<resourceHandlePool ?g']"
        using takeSnapshot_inserted[of ext "g\<lparr>resourceStates := rs\<rparr>"] by simp
      have q: "quiescent ?w'"
        unfolding st using assms(2) u c by (auto simp: quiescent_def)
      have ir: "concat (map (issued_resources gh') ?es) = [resource_pool w gh'..<resource_pool ?w' gh']" for gh'
      proof (cases "gh' = gh")
        case True
        have "concat (map (issued_resources gh) ?es) = inserted_handles ?sp"
          by (simp add: es issued_resources_def group_inserted_def splices_handle_def splices_slices_def gh
                inserted_handles_def)
        thus ?thesis using True g by (simp add: ins st resource_pool_def)
      next
        case False
        have "concat (map (issued_resources gh') ?es) = []"
          using False by (simp add: es issued_resources_def group_inserted_def splices_handle_def gh)
        thus ?thesis using False by (simp add: st resource_pool_def)
      qed
      have "issues w ?es ?w'"
        unfolding issues_def
      proof (intro conjI allI)
        show "concat (map issued_controls ?es) = [sourceControlHandlePool w..<sourceControlHandlePool ?w']"
          by (simp add: es st issued_controls_def)
        show "concat (map issued_groups ?es) = [groupHandlePool w..<groupHandlePool ?w']"
          by (simp add: es st issued_groups_def)
        show "concat (map (issued_resources gh') ?es) = [resource_pool w gh'..<resource_pool ?w' gh']" for gh'
          by (rule ir)
      qed
      with q show ?thesis by simp
    qed
  qed
  thus "quiescent ?w'" and "issues w ?es ?w'" by simp_all
qed

lemma issued_unregister [simp]:
  "issued_controls (Send (UnregisterSourceControl h) :: 'c provider_effect) = []"
  "issued_groups (Send (UnregisterSourceControl h) :: 'c provider_effect) = []"
  "issued_resources gh (Send (UnregisterSourceControl h) :: 'c provider_effect) = []"
  by (simp_all add: issued_controls_def issued_groups_def issued_resources_def)

lemma disposeGroup_pools [simp]:
  "sourceControlHandlePool (fst (disposeGroup gh w :: scm_ext \<times> 'c provider_effect list)) = sourceControlHandlePool w"
  "groupHandlePool (fst (disposeGroup gh w :: scm_ext \<times> 'c provider_effect list)) = groupHandlePool w"
  "resource_pool (fst (disposeGroup gh w :: scm_ext \<times> 'c provider_effect list)) gh' = resource_pool w gh'"
  by (simp_all add: disposeGroup_def Let_def resource_pool_def split: option.splits)

lemma disposeGroup_issued [simp]:
  "concat (map issued_controls (snd (disposeGroup gh w :: scm_ext \<times> 'c provider_effect list))) = []"
  "concat (map issued_groups (snd (disposeGroup gh w :: scm_ext \<times> 'c provider_effect list))) = []"
  "concat (map (issued_resources gh') (snd (disposeGroup gh w :: scm_ext \<times> 'c provider_effect list))) = []"
  by (simp_all add: disposeGroup_def Let_def issued_controls_def issued_groups_def issued_resources_def
        split: option.splits)

lemma quiescent_disposeGroup:
  "quiescent w \<Longrightarrow> quiescent (fst (disposeGroup gh w :: scm_ext \<times> 'c provider_effect list))"
  by (auto simp: quiescent_def disposeGroup_def Let_def split: option.splits if_splits)

lemma disposeGroups_pools [simp]:
  "sourceControlHandlePool (fst (disposeGroups ghs w :: scm_ext \<times> 'c provider_effect list)) = sourceControlHandlePool w"
  "groupHandlePool (fst (disposeGroups ghs w :: scm_ext \<times> 'c provider_effect list)) = groupHandlePool w"
  "resource_pool (fst (disposeGroups ghs w :: scm_ext \<times> 'c provider_effect list)) gh' = resource_pool w gh'"
  by (induction ghs arbitrary: w; simp add: split_beta)+

lemma disposeGroups_issued [simp]:
  "concat (map issued_controls (snd (disposeGroups ghs w :: scm_ext \<times> 'c provider_effect list))) = []"
  "concat (map issued_groups (snd (disposeGroups ghs w :: scm_ext \<times> 'c provider_effect list))) = []"
  "concat (map (issued_resources gh') (snd (disposeGroups ghs w :: scm_ext \<times> 'c provider_effect list))) = []"
  by (induction ghs arbitrary: w; simp add: split_beta)+

lemma quiescent_disposeGroups:
  "quiescent w \<Longrightarrow> quiescent (fst (disposeGroups ghs w :: scm_ext \<times> 'c provider_effect list))"
  by (induction ghs arbitrary: w) (simp_all add: split_beta quiescent_disposeGroup)

lemma quiescent_disposeSourceControl:
  "quiescent w \<Longrightarrow> quiescent (fst (disposeSourceControl k w :: scm_ext \<times> 'c provider_effect list))"
  by (simp add: disposeSourceControl_def split_beta quiescent_disposeGroups split: option.splits)

lemma issues_disposeSourceControl:
  "issues w (snd (disposeSourceControl k w :: scm_ext \<times> 'c provider_effect list))
     (fst (disposeSourceControl k w :: scm_ext \<times> 'c provider_effect list))"
proof (cases "sourceControls w k")
  case None thus ?thesis by (simp add: disposeSourceControl_def issues_def)
next
  case (Some sc)
  show ?thesis
    by (rule issues_same) (simp_all add: Some disposeSourceControl_def split_beta del: concat_eq_Nil_conv)
qed

lemma op_api_step:
  assumes "handles_ok w" and "quiescent w"
  shows "quiescent (fst (api_step ext op w))"
    and "issues w (snd (api_step ext op w)) (fst (api_step ext op w))"
proof -
  have "quiescent (fst (api_step ext op w)) \<and> issues w (snd (api_step ext op w)) (fst (api_step ext op w))"
  proof (cases op)
    case (CreateSourceControl ident label rootUri)
    thus ?thesis using assms(2)
      by (simp add: api_step_def quiescent_createSourceControl issues_createSourceControl)
  next
    case (CreateResourceGroup k ident label)
    thus ?thesis
      using op_createResourceGroup[OF assms, where ext = ext and k = k and ident = ident and label = label]
      by (simp add: api_step_def)
  next
    case (SetResourceStates gh rs)
    thus ?thesis
      using op_setResourceStates[OF assms, where ext = ext and gh = gh and rs = rs]
      by (simp add: api_step_def)
  next
    case (DisposeGroup gh)
    thus ?thesis using assms(2)
      by (simp add: api_step_def quiescent_disposeGroup issues_def)
  next
    case (DisposeSourceControl k)
    thus ?thesis using assms(2)
      by (simp add: api_step_def quiescent_disposeSourceControl issues_disposeSourceControl)
  qed
  thus "quiescent (fst (api_step ext op w))"
    and "issues w (snd (api_step ext op w)) (fst (api_step ext op w))" by simp_all
qed

lemma run_issues:
  assumes "handles_ok w" and "quiescent w"
  shows "handles_ok (fst (api_run ext ops w)) \<and> quiescent (fst (api_run ext ops w)) \<and>
         handles_grow w (fst (api_run ext ops w)) \<and>
         issues w (snd (api_run ext ops w)) (fst (api_run ext ops w))"
  using assms
proof (induction ops arbitrary: w)
  case Nil thus ?case by (simp add: issues_def)
next
  case (Cons op ops)
  let ?w1 = "fst (api_step ext op w)"
  from step_api[of w ext op] Cons.prems(1) have ok1: "handles_ok ?w1" and gr1: "handles_grow w ?w1"
    by (simp_all add: step_ok_def)
  note q1 = op_api_step(1)[OF Cons.prems, of ext op] and i1 = op_api_step(2)[OF Cons.prems, of ext op]
  from Cons.IH[OF ok1 q1] have ih: "handles_ok (fst (api_run ext ops ?w1))"
    "quiescent (fst (api_run ext ops ?w1))" "handles_grow ?w1 (fst (api_run ext ops ?w1))"
    "issues ?w1 (snd (api_run ext ops ?w1)) (fst (api_run ext ops ?w1))"
    by simp_all
  show ?case
    using ih(1,2) handles_grow_trans[OF gr1 ih(3)] issues_trans[OF i1 ih(4) gr1 ih(3)]
    by (simp add: split_beta)
qed

lemma quiescent_initial: "quiescent initial_ext"
  by (simp add: quiescent_def initial_ext_def)

lemma fresh_handles:
  assumes "handles_ok w"
  shows "sourceControls w (extHandlePool w) = None \<and> groupObjects w (groupHandlePool w) = None"
proof -
  have "sourceControls w (extHandlePool w) = Some sc \<Longrightarrow> False" for sc
    using assms unfolding handles_ok_def by (metis less_irrefl_nat)
  moreover have "groupObjects w (groupHandlePool w) = Some g \<Longrightarrow> False" for g
    using assms unfolding handles_ok_def by (metis less_irrefl_nat)
  ultimately show ?thesis by (metis not_Some_eq)
qed

lemma takeSnapshot_snapshot:
  "resourceSnapshot (snd (takeResourceStateSnapshot ext g))
   = array_sort ext (compareResourceStates ext) (resourceStates g)"
  by (simp add: takeResourceStateSnapshot_def Let_def split_beta)

lemma first_list_run:
  "\<exists>w g. api_run plain_externals first_list_ops initial_ext
       = (w, [Send (RegisterSourceControl 0 ''git'' ''Git'' None),
              Send (RegisterGroups 0 [(0, ''changes'', ''Changes'', \<lparr>featHideWhenEmpty = KeyUndefined\<rparr>)] []),
              Send (SpliceResourceStates 0
                [SplicesObject 0
                   [SpliceObject 0 0
                      [ResourceObject (encodeResource plain_externals 0 (file_state ''/a'')),
                       ResourceObject (encodeResource plain_externals 1 (file_state ''/b'')),
                       ResourceObject (encodeResource plain_externals 2 (file_state ''/c''))]]])]) \<and>
     sourceControlHandlePool w = 1 \<and> groupHandlePool w = 1 \<and>
     groupObjects w 0 = Some g \<and>
     resourceSnapshot g = [file_state ''/a'', file_state ''/b'', file_state ''/c''] \<and>
     resourceHandlePool g = 3"
proof -
  let ?c1 = "createSourceControl ''git'' ''Git'' None initial_ext
               :: handle \<times> scm_ext \<times> theia_command provider_effect list"
  let ?w1 = "fst (snd ?c1)"
  have e1: "snd (snd ?c1) = [Send (RegisterSourceControl 0 ''git'' ''Git'' None)]"
    by (simp add: createSourceControl_def initial_ext_def Let_def)
  have "\<exists>sc. sourceControls ?w1 0 = Some sc \<and> scHandle sc = 0 \<and> createdResourceGroups sc = [] \<and>
             updatedResourceGroups sc = []"
    by (simp add: createSourceControl_def initial_ext_def Let_def)
  then obtain sc where sc: "sourceControls ?w1 0 = Some sc" "scHandle sc = 0"
    "createdResourceGroups sc = []" "updatedResourceGroups sc = []" by blast
  have p1: "groupHandlePool ?w1 = 0" "sourceControlHandlePool ?w1 = 1"
    by (simp_all add: createSourceControl_def initial_ext_def Let_def)
  let ?c2 = "createResourceGroup plain_externals 0 ''changes'' ''Changes'' ?w1"
  let ?w2 = "fst (snd ?c2)"
  from createResourceGroup_new[OF sc(1,3), of plain_externals "''changes''" "''Changes''"]
  obtain sc2 g2 where c2: "snd (snd ?c2) = [register_one 0 (0, ''changes'', ''Changes'')]"
    and f2: "sourceControls ?w2 0 = Some sc2" "scHandle sc2 = 0" "updatedResourceGroups sc2 = []"
      "groupHandlePool ?w2 = 1" "groupObjects ?w2 0 = Some g2" "groupOwner ?w2 0 = Some 0"
      "updateListener g2" "groupHandle g2 = 0" "resourceSnapshot g2 = []" "resourceHandlePool g2 = 0"
    by (auto simp: sc p1)
  have p2: "sourceControlHandlePool ?w2 = 1"
    using createResourceGroup_frame(1)[OF sc(1,3), of plain_externals "''changes''" "''Changes''"]
    by (simp add: p1)
  let ?rs = "[file_state ''/c'', file_state ''/a'', file_state ''/b'']"
  let ?c3 = "setResourceStates plain_externals 0 ?rs ?w2"
  let ?t = "takeResourceStateSnapshot plain_externals (g2\<lparr>resourceStates := ?rs\<rparr>)"
  have D: "sortedDiff [] [file_state ''/a'', file_state ''/b'', file_state ''/c''] (compareResourceStates plain_externals)
      = [Splice 0 0 [file_state ''/a'', file_state ''/b'', file_state ''/c'']]"
    by (simp add: sortedDiff_def pushSplice_def)
  have sp: "fst ?t = [SpliceObject 0 0
                      [ResourceObject (encodeResource plain_externals 0 (file_state ''/a'')),
                       ResourceObject (encodeResource plain_externals 1 (file_state ''/b'')),
                       ResourceObject (encodeResource plain_externals 2 (file_state ''/c''))]]"
    by (simp add: takeSnapshot_fst f2 abc_sorted D object_splice_def eval_nat_numeral)
  have e3: "snd ?c3 = [Send (SpliceResourceStates 0 [SplicesObject 0 (fst ?t)])]"
    using setResourceStates_effects[OF f2(1,3,5,7,6), of plain_externals ?rs] sp
    by (simp add: Let_def f2)
  have w3: "fst ?c3 = ?w2\<lparr>groupObjects := (groupObjects ?w2)(0 \<mapsto> snd ?t),
                          sourceControls := (sourceControls ?w2)(0 \<mapsto> sc2\<lparr>updatedResourceGroups := []\<rparr>)\<rparr>"
    by (rule setResourceStates_state[OF f2(1,3,5,7,6)])
  have g3: "resourceSnapshot (snd ?t) = [file_state ''/a'', file_state ''/b'', file_state ''/c'']"
    by (simp add: takeSnapshot_snapshot abc_sorted)
  have n3: "resourceHandlePool (snd ?t) = 3"
    by (simp add: takeSnapshot_pool f2 abc_sorted D inserted_count_def)
  have run: "api_run plain_externals first_list_ops initial_ext
      = (fst ?c3, snd (snd ?c1) @ snd (snd ?c2) @ snd ?c3)"
    by (simp add: first_list_ops_def api_step_def split_beta)
  show ?thesis
    unfolding run e1 c2 e3 sp
    by (simp add: w3 f2 p2 g3 n3 register_one_def)
qed

text \<open>
  C7. Each kind of handle has its own counter, and a handle is given out from the counter
  alone. Over every sequence of calls of the plugin API from the initial state (creating
  and disposing source controls and groups, declaring resource lists), the handles of
  the source controls that the provider side has announced are, in the order of their
  announcement, \<open>0, 1, 2, \<dots>\<close> up to the counter of the source controls; those of the
  groups are \<open>0, 1, 2, \<dots>\<close> up to the counter of the groups; and for every group
  those of the raw resources that its splices have inserted are \<open>0, 1, 2, \<dots>\<close> up to
  the counter of the group. So no handle is given out twice, whatever has been disposed
  in between. The state reached has its handles in order: a source control is
  registered under its handle, a group is named by its handle, each below its counter,
  and the resource handles of the snapshot of a group are distinct and below the counter
  of the group. One step: every operation keeps the handles in order, lets no counter
  go down, leaves the object under a handle in use the same object, and uses a new
  handle only at or above the counter before; \<open>createSourceControl\<close> registers the new
  control under the value of its counter and \<open>createResourceGroup\<close> names the new group
  by the value of its counter, both unused before; the raw resources that a snapshot
  inserts have the values from the counter of the group before the snapshot up to the
  counter after it; and a handle below the old counter that is in the snapshot
  afterwards was in it before and stands for the same state.
\<close>

theorem handles_are_never_reused:
  "(let (w', es) = api_run ext ops initial_ext
    in handles_ok w' \<and>
       concat (map issued_controls es) = [0..<sourceControlHandlePool w'] \<and>
       concat (map issued_groups es) = [0..<groupHandlePool w'] \<and>
       (\<forall>gh. concat (map (issued_resources gh) es) = [0..<resource_pool w' gh])) \<and>
   (handles_ok w \<longrightarrow>
      handles_ok (fst (api_step ext op w)) \<and> handles_grow w (fst (api_step ext op w)) \<and>
      sourceControls w (extHandlePool w) = None \<and> groupObjects w (groupHandlePool w) = None) \<and>
   fst (createSourceControl ident label rootUri w :: handle \<times> scm_ext \<times> 'c provider_effect list)
     = extHandlePool w \<and>
   fst (createResourceGroup ext k ident label w) = groupHandlePool w \<and>
   inserted_handles (fst (takeResourceStateSnapshot ext g))
     = [resourceHandlePool g..<resourceHandlePool (snd (takeResourceStateSnapshot ext g))] \<and>
   (group_ok g \<longrightarrow>
      group_ok (snd (takeResourceStateSnapshot ext g)) \<and>
      (\<forall>h \<in> set (handlesSnapshot (snd (takeResourceStateSnapshot ext g))).
         h < resourceHandlePool g \<longrightarrow>
           h \<in> set (handlesSnapshot g) \<and>
           resourceStatesMap (snd (takeResourceStateSnapshot ext g)) h = resourceStatesMap g h))"
proof (intro conjI impI ballI)
  from run_issues[OF handles_ok_initial quiescent_initial, of ext ops]
  show "let (w', es) = api_run ext ops initial_ext
    in handles_ok w' \<and>
       concat (map issued_controls es) = [0..<sourceControlHandlePool w'] \<and>
       concat (map issued_groups es) = [0..<groupHandlePool w'] \<and>
       (\<forall>gh. concat (map (issued_resources gh) es) = [0..<resource_pool w' gh])"
    by (simp add: split_beta issues_def initial_ext_def resource_pool_def)
next
  assume ok: "handles_ok w"
  from step_api[of w ext op] ok
  show "handles_ok (fst (api_step ext op w))" "handles_grow w (fst (api_step ext op w))"
    by (simp_all add: step_ok_def)
  from fresh_handles[OF ok]
  show "sourceControls w (extHandlePool w) = None" "groupObjects w (groupHandlePool w) = None"
    by simp_all
next
  show "fst (createSourceControl ident label rootUri w :: handle \<times> scm_ext \<times> 'c provider_effect list)
     = extHandlePool w"
    by (simp add: createSourceControl_def Let_def)
next
  show "fst (createResourceGroup ext k ident label w) = groupHandlePool w"
    by (simp add: createResourceGroup_def Let_def split_beta split: option.splits)
next
  show "inserted_handles (fst (takeResourceStateSnapshot ext g))
     = [resourceHandlePool g..<resourceHandlePool (snd (takeResourceStateSnapshot ext g))]"
    by (rule takeSnapshot_inserted)
next
  assume "group_ok g"
  thus "group_ok (snd (takeResourceStateSnapshot ext g))" by (rule takeSnapshot_ok)
next
  fix h
  assume "group_ok g" and "h \<in> set (handlesSnapshot (snd (takeResourceStateSnapshot ext g)))"
    and "h < resourceHandlePool g"
  from takeSnapshot_kept[OF this]
  show "h \<in> set (handlesSnapshot g)"
    "resourceStatesMap (snd (takeResourceStateSnapshot ext g)) h = resourceStatesMap g h"
    by simp_all
qed

theorem handles_are_never_reused_witness:
  "handles_ok (demo_run first_list_ops) \<and>
   group_ok (new_group 0 0 ''changes'' ''Changes'') \<and>
   (let (w', es) = api_run plain_externals first_list_ops initial_ext
    in handles_ok w' \<and>
       concat (map issued_controls es) = [0] \<and>
       concat (map issued_groups es) = [0] \<and>
       concat (map (issued_resources 0) es) = [0, 1, 2]) \<and>
   handles_ok (fst (api_step plain_externals (CreateResourceGroup 0 ''index'' ''Staged'') (demo_run first_list_ops))) \<and>
   handles_grow (demo_run first_list_ops)
     (fst (api_step plain_externals (CreateResourceGroup 0 ''index'' ''Staged'') (demo_run first_list_ops))) \<and>
   fst (createResourceGroup plain_externals 0 ''index'' ''Staged'' (demo_run first_list_ops)) = 1 \<and>
   group_ok (snd (takeResourceStateSnapshot plain_externals (new_group 0 0 ''changes'' ''Changes'')))"
proof -
  note t = handles_are_never_reused[of plain_externals first_list_ops "demo_run first_list_ops"
      "CreateResourceGroup 0 ''index'' ''Staged''" "''index''" "''Staged''" None 0
      "new_group 0 0 ''changes'' ''Changes''"]
  from first_list_run obtain w g where r: "api_run plain_externals first_list_ops initial_ext
       = (w, [Send (RegisterSourceControl 0 ''git'' ''Git'' None),
              Send (RegisterGroups 0 [(0, ''changes'', ''Changes'', \<lparr>featHideWhenEmpty = KeyUndefined\<rparr>)] []),
              Send (SpliceResourceStates 0
                [SplicesObject 0
                   [SpliceObject 0 0
                      [ResourceObject (encodeResource plain_externals 0 (file_state ''/a'')),
                       ResourceObject (encodeResource plain_externals 1 (file_state ''/b'')),
                       ResourceObject (encodeResource plain_externals 2 (file_state ''/c''))]]])])"
    and p: "sourceControlHandlePool w = 1" "groupHandlePool w = 1" "groupObjects w 0 = Some g"
      "resourceHandlePool g = 3"
    by blast
  let ?es = "snd (api_run plain_externals first_list_ops initial_ext)"
  have d: "demo_run first_list_ops = w" by (simp add: demo_run_def r)
  have u: "[0..<1] = [0::nat]" "[0..<3] = [0, 1, 2::nat]" by (simp_all add: upt_rec)
  from t[THEN conjunct1] have ok: "handles_ok w"
    and i1: "concat (map issued_controls ?es) = [0..<sourceControlHandlePool w]"
    and i2: "concat (map issued_groups ?es) = [0..<groupHandlePool w]"
    and i3: "\<forall>gh. concat (map (issued_resources gh) ?es) = [0..<resource_pool w gh]"
    unfolding r by simp_all
  from i3 have i3': "concat (map (issued_resources 0) ?es) = [0..<resource_pool w 0]" by (rule spec)
  have run: "handles_ok w \<and> concat (map issued_controls ?es) = [0] \<and>
      concat (map issued_groups ?es) = [0] \<and> concat (map (issued_resources 0) ?es) = [0, 1, 2]"
    using ok i1 i2 i3' by (simp add: p u resource_pool_def)
  have gk: "group_ok (new_group 0 0 ''changes'' ''Changes'')" by (simp add: group_ok_def new_group_def)
  from t[THEN conjunct2, THEN conjunct1] ok
  have st: "handles_ok (fst (api_step plain_externals (CreateResourceGroup 0 ''index'' ''Staged'') w))"
    "handles_grow w (fst (api_step plain_externals (CreateResourceGroup 0 ''index'' ''Staged'') w))"
    by (simp_all add: d)
  from t[THEN conjunct2, THEN conjunct2, THEN conjunct2, THEN conjunct1]
  have cg: "fst (createResourceGroup plain_externals 0 ''index'' ''Staged'' w) = 1"
    by (simp add: d p)
  from t[THEN conjunct2, THEN conjunct2, THEN conjunct2, THEN conjunct2, THEN conjunct2] gk
  have sk: "group_ok (snd (takeResourceStateSnapshot plain_externals (new_group 0 0 ''changes'' ''Changes'')))"
    by simp
  from run gk st cg sk ok show ?thesis
    unfolding d by (simp add: r)
qed

section \<open>The first snapshot on its way to the mirror\<close>

lemma applyGroupSlices_objects:
  "T \<noteq> [] \<Longrightarrow> applyGroupSlices sch gh (map object_splice T) mg = (mg, [], Some TypeError)"
  by (cases T) (simp_all add: object_splice_def)

lemma objects_are_not_read:
  assumes "fst (takeResourceStateSnapshot ext g) \<noteq> []"
  shows "spliceGroup sch gh (fst (takeResourceStateSnapshot ext g)) mg = (mg, [], Some TypeError)"
proof -
  obtain T where T: "fst (takeResourceStateSnapshot ext g) = map object_splice T"
    using takeSnapshot_fst[of ext g] by blast
  with assms have "rev T \<noteq> []" by auto
  from applyGroupSlices_objects[OF this, of sch gh mg] show ?thesis
    by (simp add: T spliceGroup_def rev_map)
qed

text \<open>
  C8, the sources at a failing input. A source control and a group are created and the
  group is declared with the files \<open>/c\<close>, \<open>/a\<close> and \<open>/b\<close>; the three calls that the
  provider side makes on its proxy are handled by the mirror side, which starts with no
  repository. The provider side has taken the first snapshot of the group: the three
  states in sorted order. On the mirror side the two calls that register the source
  control and the group return, and the call that carries the splices of the snapshot
  throws a \<open>TypeError\<close>: the splices are objects with named fields and the mirror side
  reads arrays by position. The resource list of the mirror group stays empty. The same
  is seen on the group alone: the loop of the mirror side on the splices of the first
  snapshot, as the provider group has built them, throws and leaves the empty mirror
  group as it is.
\<close>

theorem first_snapshot_is_not_read:
  "(let (w, m, outcomes) = first_list_round
    in map_option resourceSnapshot (groupObjects w 0)
         = Some [file_state ''/a'', file_state ''/b'', file_state ''/c''] \<and>
       outcomes = [None, None, Some TypeError] \<and>
       group_resources m 0 0 = Some []) \<and>
   snd (round_as_sent plain_externals 0 [file_state ''/c'', file_state ''/a'', file_state ''/b'']
          (new_group 0 0 ''changes'' ''Changes'', empty_mirror_group 0 0))
     = (empty_mirror_group 0 0, Some TypeError)"
proof (rule conjI)
  from first_list_run obtain w g where r: "api_run plain_externals first_list_ops initial_ext
       = (w, [Send (RegisterSourceControl 0 ''git'' ''Git'' None),
              Send (RegisterGroups 0 [(0, ''changes'', ''Changes'', \<lparr>featHideWhenEmpty = KeyUndefined\<rparr>)] []),
              Send (SpliceResourceStates 0
                [SplicesObject 0
                   [SpliceObject 0 0
                      [ResourceObject (encodeResource plain_externals 0 (file_state ''/a'')),
                       ResourceObject (encodeResource plain_externals 1 (file_state ''/b'')),
                       ResourceObject (encodeResource plain_externals 2 (file_state ''/c''))]]])])"
    and g: "groupObjects w 0 = Some g"
      "resourceSnapshot g = [file_state ''/a'', file_state ''/b'', file_state ''/c'']"
    by blast
  show "let (w, m, outcomes) = first_list_round
    in map_option resourceSnapshot (groupObjects w 0)
         = Some [file_state ''/a'', file_state ''/b'', file_state ''/c''] \<and>
       outcomes = [None, None, Some TypeError] \<and>
       group_resources m 0 0 = Some []"
    unfolding first_list_round_def r
    by (simp add: g sent_def main_handle_def on_provider_def provider_spliceGroupResourceStates_def
          lookup_group_def group_resources_def Let_def)
next
  let ?g = "(new_group 0 0 ''changes'' ''Changes'')\<lparr>resourceStates := [file_state ''/c'', file_state ''/a'', file_state ''/b'']\<rparr>"
  have D: "sortedDiff [] [file_state ''/a'', file_state ''/b'', file_state ''/c''] (compareResourceStates plain_externals)
      = [Splice 0 0 [file_state ''/a'', file_state ''/b'', file_state ''/c'']]"
    by (simp add: sortedDiff_def pushSplice_def)
  have "fst (takeResourceStateSnapshot plain_externals ?g) \<noteq> []"
    by (simp add: takeSnapshot_fst new_group_def abc_sorted D)
  from objects_are_not_read[OF this, of 0 0 "empty_mirror_group 0 0"]
  show "snd (round_as_sent plain_externals 0 [file_state ''/c'', file_state ''/a'', file_state ''/b'']
          (new_group 0 0 ''changes'' ''Changes'', empty_mirror_group 0 0))
     = (empty_mirror_group 0 0, Some TypeError)"
    by (simp add: round_as_sent_def split_beta new_group_def)
qed

end
